theory Spec2Isabelle
  imports Complex_Main "HOL-Library.Word" "HOL-Library.Monad_Syntax"
begin

unbundle bit_operations_syntax

section \<open>Primitive types of geometry.hpp\<close>

text \<open>
  The scalar type \<open>scalar_t\<close> (\<open>float\<close> or \<open>double\<close>) is idealised as \<open>real\<close>:
  every arithmetic operation is exact. The fields of \<open>Point2\<close>, \<open>Line2\<close> and
  \<open>Segment2\<close> carry a one-letter prefix (\<open>px\<close> for \<open>Point2::x\<close>, \<open>la\<close> for
  \<open>Line2::a\<close>, \<open>sx1\<close> for \<open>Segment2::x1\<close>) so that the plain letters stay
  available as variables.
\<close>

record Point2 =
  px :: real
  py :: real

record Line2 =
  la :: real
  lb :: real
  lc :: real

record Segment2 =
  sx1 :: real
  sy1 :: real
  sx2 :: real
  sy2 :: real

record AABox2 =
  min_x :: real
  max_x :: real
  min_y :: real
  max_y :: real

text \<open>
  \<open>Poly2<scalar_t, MaxPoints>\<close>: the array \<open>vertices[MaxPoints]\<close> is the list
  \<open>vertices\<close>, whose length is the capacity \<open>MaxPoints\<close>; \<open>nvertices\<close> is the
  number of vertices in use.
\<close>

record Poly2 =
  vertices :: "Point2 list"
  nvertices :: nat

definition mk_point :: "real \<Rightarrow> real \<Rightarrow> Point2" where
  "mk_point a b = \<lparr>px = a, py = b\<rparr>"

text \<open>\<open>Numeric<double>::eps()\<close>.\<close>

definition eps :: real where
  "eps = 6 / 10 ^ 15"

definition mod_inc :: "nat \<Rightarrow> nat \<Rightarrow> nat" where
  "mod_inc i n = (if i < n - 1 then i + 1 else 0)"

text \<open>
  \<open>_mod_dec\<close> on \<open>uint8_t\<close>: for \<open>i = 0\<close> and \<open>n = 0\<close> the result \<open>n - 1\<close> wraps
  to 255. (\<open>_mod_inc\<close> compares with \<open>n - 1\<close> after integer promotion, where nothing
  wraps: for \<open>n = 0\<close> it returns 0.)
\<close>

definition mod_dec :: "nat \<Rightarrow> nat \<Rightarrow> nat" where
  "mod_dec i n = (if i > 0 then i - 1 else if n = 0 then 255 else n - 1)"

text \<open>\<open>_cross(p1, p2, t)\<close>: cross product of the vectors p1->p2 and p2->t.\<close>

definition cross :: "Point2 \<Rightarrow> Point2 \<Rightarrow> Point2 \<Rightarrow> real" where
  "cross p1 p2 t = (px p2 - px p1) * (py t - py p2) - (py p2 - py p1) * (px t - px p2)"

section \<open>Area of a polygon\<close>

text \<open>
  \<open>area(const Poly2&)\<close>: zero below three vertices; otherwise the sum starts with
  the closing edge (last vertex to vertex 0) and the loop adds the edge from
  vertex \<open>i-1\<close> to vertex \<open>i\<close> for \<open>i = 1 .. nvertices-1\<close>.
\<close>

definition area_step :: "Point2 list \<Rightarrow> nat \<Rightarrow> real \<Rightarrow> real" where
  "area_step vs i s = s + (px (vs ! (i - 1)) * py (vs ! i) - px (vs ! i) * py (vs ! (i - 1)))"

definition area :: "Poly2 \<Rightarrow> real" where
  "area p =
     (if nvertices p \<le> 2 then 0
      else
        (let vs = vertices p; n = nvertices p;
             s0 = px (vs ! (n - 1)) * py (vs ! 0) - py (vs ! (n - 1)) * px (vs ! 0)
         in fold (area_step vs) [1..<n] s0 / 2))"

text \<open>
  The shoelace term of edge \<open>i\<close> (from vertex \<open>i\<close> to vertex \<open>(i+1) mod n\<close>) and the
  shoelace sum over all \<open>n\<close> edges.
\<close>

definition shoelace_term :: "Point2 list \<Rightarrow> nat \<Rightarrow> nat \<Rightarrow> real" where
  "shoelace_term vs n i =
     px (vs ! i) * py (vs ! (Suc i mod n)) - px (vs ! (Suc i mod n)) * py (vs ! i)"

definition shoelace :: "Poly2 \<Rightarrow> real" where
  "shoelace p = (\<Sum>i<nvertices p. shoelace_term (vertices p) (nvertices p) i)"

text \<open>
  The polygon invariant of the source (a convex region whose vertices are listed
  counter-clockwise), stated with the source's own orientation test \<open>_cross\<close>, as
  \<open>Poly2::contains\<close> uses it: every vertex lies on the left of, or on, the line through
  every directed edge, and some vertex lies strictly on the left of some edge (the
  polygon is not flat).
\<close>

definition left_of_all_edges :: "Poly2 \<Rightarrow> bool" where
  "left_of_all_edges p =
     (\<forall>i<nvertices p. \<forall>k<nvertices p.
        0 \<le> cross (vertices p ! i) (vertices p ! (Suc i mod nvertices p)) (vertices p ! k))"

definition strictly_left_somewhere :: "Poly2 \<Rightarrow> bool" where
  "strictly_left_somewhere p =
     (\<exists>i<nvertices p. \<exists>k<nvertices p.
        0 < cross (vertices p ! i) (vertices p ! (Suc i mod nvertices p)) (vertices p ! k))"

definition ccw_convex :: "Poly2 \<Rightarrow> bool" where
  "ccw_convex p \<longleftrightarrow>
     3 \<le> nvertices p \<and> nvertices p \<le> length (vertices p) \<and>
     left_of_all_edges p \<and> strictly_left_somewhere p"

subsection \<open>The loop of area computes the shoelace sum\<close>

lemma fold_area_step:
  "fold (area_step vs) [a..<b] s = s + (\<Sum>i=a..<b. area_step vs i 0)"
proof (induction b arbitrary: s)
  case 0
  then show ?case by simp
next
  case (Suc b)
  show ?case
  proof (cases "a \<le> b")
    case True
    then show ?thesis using Suc by (simp add: area_step_def)
  next
    case False
    then show ?thesis by simp
  qed
qed

lemma sum_cyclic_shift:
  fixes f :: "nat \<Rightarrow> real"
  assumes "0 < n"
  shows "(\<Sum>i<n. f (Suc i mod n)) = (\<Sum>i<n. f i)"
proof -
  obtain m where n: "n = Suc m" using assms by (cases n) auto
  have "(\<Sum>i<Suc m. f (Suc i mod Suc m)) = (\<Sum>i<m. f (Suc i mod Suc m)) + f (Suc m mod Suc m)"
    by simp
  also have "(\<Sum>i<m. f (Suc i mod Suc m)) = (\<Sum>i<m. f (Suc i))"
    by (rule sum.cong) auto
  also have "f (Suc m mod Suc m) = f 0" by simp
  finally have "(\<Sum>i<Suc m. f (Suc i mod Suc m)) = f 0 + (\<Sum>i<m. f (Suc i))" by simp
  also have "\<dots> = (\<Sum>i<Suc m. f i)" by (simp only: sum.lessThan_Suc_shift)
  finally show ?thesis by (simp add: n)
qed

lemma area_loop_terms:
  assumes "3 \<le> n"
  shows "(\<Sum>i=1..<n. area_step vs i 0) = (\<Sum>i<n - 1. shoelace_term vs n i)"
proof -
  have "(\<Sum>i=1..<n. area_step vs i 0) = (\<Sum>i=0..<n - 1. area_step vs (Suc i) 0)"
    using assms sum.shift_bounds_Suc_ivl [of "\<lambda>i. area_step vs i 0" 0 "n - 1"] by simp
  also have "\<dots> = (\<Sum>i=0..<n - 1. shoelace_term vs n i)"
    by (rule sum.cong) (auto simp: area_step_def shoelace_term_def)
  finally show ?thesis by (simp add: atLeast0LessThan)
qed

lemma area_eq_shoelace:
  assumes "3 \<le> nvertices p"
  shows "area p = shoelace p / 2"
proof -
  define n where "n = nvertices p"
  define vs where "vs = vertices p"
  have "0 < n" using assms by (simp add: n_def)
  then obtain m where m: "n = Suc m" by (cases n) auto
  have last_term: "shoelace_term vs n (n - 1) =
      px (vs ! (n - 1)) * py (vs ! 0) - py (vs ! (n - 1)) * px (vs ! 0)"
    by (simp add: shoelace_term_def m)
  have "shoelace p = (\<Sum>i<Suc m. shoelace_term vs n i)"
    by (simp add: shoelace_def n_def [symmetric] vs_def [symmetric] m)
  also have "\<dots> = (\<Sum>i<m. shoelace_term vs n i) + shoelace_term vs n m" by simp
  finally have sh: "shoelace p = (\<Sum>i<n - 1. shoelace_term vs n i) + shoelace_term vs n (n - 1)"
    by (simp add: m)
  have "area p = (px (vs ! (n - 1)) * py (vs ! 0) - py (vs ! (n - 1)) * px (vs ! 0)
      + (\<Sum>i=1..<n. area_step vs i 0)) / 2"
    using assms
    by (simp add: area_def Let_def fold_area_step n_def [symmetric] vs_def [symmetric])
  also have "\<dots> = (shoelace_term vs n (n - 1) + (\<Sum>i=1..<n. area_step vs i 0)) / 2"
    by (simp only: last_term)
  also have "\<dots> = shoelace p / 2"
  proof -
    have "3 \<le> n" using assms by (simp add: n_def)
    then show ?thesis using area_loop_terms [of n vs] sh by simp
  qed
  finally show ?thesis .
qed

subsection \<open>The shoelace sum of a counter-clockwise convex polygon is positive\<close>

lemma cross_expand:
  "cross p1 p2 t =
     (px p1 * py p2 - px p2 * py p1) + py t * (px p2 - px p1) - px t * (py p2 - py p1)"
  by (simp add: cross_def algebra_simps)

lemma shoelace_as_cross_sum:
  assumes "0 < n"
  shows "(\<Sum>i<n. shoelace_term vs n i) = (\<Sum>i<n. cross (vs ! i) (vs ! (Suc i mod n)) t)"
proof -
  have sx: "(\<Sum>i<n. px (vs ! (Suc i mod n)) - px (vs ! i)) = 0"
    using sum_cyclic_shift [OF assms, of "\<lambda>i. px (vs ! i)"] by (simp add: sum_subtractf)
  have sy: "(\<Sum>i<n. py (vs ! (Suc i mod n)) - py (vs ! i)) = 0"
    using sum_cyclic_shift [OF assms, of "\<lambda>i. py (vs ! i)"] by (simp add: sum_subtractf)
  have "(\<Sum>i<n. cross (vs ! i) (vs ! (Suc i mod n)) t) =
        (\<Sum>i<n. shoelace_term vs n i)
        + py t * (\<Sum>i<n. px (vs ! (Suc i mod n)) - px (vs ! i))
        - px t * (\<Sum>i<n. py (vs ! (Suc i mod n)) - py (vs ! i))"
    by (simp add: cross_expand shoelace_term_def sum.distrib sum_subtractf sum_distrib_left
        right_diff_distrib)
  then show ?thesis by (simp add: sx sy)
qed

lemma shoelace_pos:
  assumes "ccw_convex p"
  shows "0 < shoelace p"
proof -
  define n where "n = nvertices p"
  define vs where "vs = vertices p"
  have n3: "3 \<le> n" using assms by (simp add: ccw_convex_def n_def)
  obtain i0 k0 where i0: "i0 < n" and k0: "k0 < n"
    and strict: "0 < cross (vs ! i0) (vs ! (Suc i0 mod n)) (vs ! k0)"
    using assms by (auto simp: ccw_convex_def strictly_left_somewhere_def n_def vs_def)
  have nonneg: "\<And>i. i < n \<Longrightarrow> 0 \<le> cross (vs ! i) (vs ! (Suc i mod n)) (vs ! k0)"
    using assms k0 by (auto simp: ccw_convex_def left_of_all_edges_def n_def vs_def)
  have "shoelace p = (\<Sum>i<n. cross (vs ! i) (vs ! (Suc i mod n)) (vs ! k0))"
    using n3 shoelace_as_cross_sum [of n vs "vs ! k0"] by (simp add: shoelace_def n_def vs_def)
  moreover have "0 < (\<Sum>i<n. cross (vs ! i) (vs ! (Suc i mod n)) (vs ! k0))"
  proof (rule sum_pos2 [of _ i0])
    show "finite {..<n}" by simp
    show "i0 \<in> {..<n}" using i0 by simp
    show "0 < cross (vs ! i0) (vs ! (Suc i0 mod n)) (vs ! k0)" by (rule strict)
    show "\<And>i. i \<in> {..<n} \<Longrightarrow> 0 \<le> cross (vs ! i) (vs ! (Suc i mod n)) (vs ! k0)"
      using nonneg by simp
  qed
  ultimately show ?thesis by simp
qed

lemma area_pos:
  assumes "ccw_convex p"
  shows "0 < area p"
proof -
  have "3 \<le> nvertices p" using assms by (simp add: ccw_convex_def)
  then show ?thesis using shoelace_pos [OF assms] by (simp add: area_eq_shoelace)
qed

text \<open>The unit square, used as a concrete polygon below.\<close>

definition unit_square :: Poly2 where
  "unit_square =
     \<lparr>vertices = [mk_point 0 0, mk_point 1 0, mk_point 1 1, mk_point 0 1], nvertices = 4\<rparr>"

lemma upt_1_4: "[Suc 0..<4] = [Suc 0, 2, 3]"
  by code_simp

lemma less4_cases: "i < (4::nat) \<Longrightarrow> i = 0 \<or> i = 1 \<or> i = 2 \<or> i = 3"
  by arith

lemma unit_square_ccw: "ccw_convex unit_square"
proof -
  have l: "left_of_all_edges unit_square"
    unfolding left_of_all_edges_def
  proof (intro allI impI)
    fix i k assume "i < nvertices unit_square" "k < nvertices unit_square"
    then have "i = 0 \<or> i = 1 \<or> i = 2 \<or> i = 3" "k = 0 \<or> k = 1 \<or> k = 2 \<or> k = 3"
      by (auto simp: unit_square_def dest: less4_cases)
    then show "0 \<le> cross (vertices unit_square ! i)
        (vertices unit_square ! (Suc i mod nvertices unit_square)) (vertices unit_square ! k)"
      by (auto simp: unit_square_def cross_def mk_point_def)
  qed
  have s: "strictly_left_somewhere unit_square"
    unfolding strictly_left_somewhere_def
    by (rule exI [of _ 0], simp add: unit_square_def, rule exI [of _ 2])
       (simp add: cross_def mk_point_def)
  show ?thesis using l s by (simp add: ccw_convex_def unit_square_def)
qed

section \<open>Claim C4\<close>

text \<open>
  C4: \<open>area(p)\<close> returns 0 when \<open>p\<close> has fewer than three vertices; otherwise it
  returns the signed shoelace sum of the vertices divided by 2; and this value is
  positive whenever \<open>p\<close> satisfies the polygon invariant (convex, vertices listed
  counter-clockwise, not flat).
\<close>

theorem C4_area_shoelace:
  "(nvertices p < 3 \<longrightarrow> area p = 0) \<and>
   (3 \<le> nvertices p \<longrightarrow> area p = shoelace p / 2) \<and>
   (ccw_convex p \<longrightarrow> 0 < area p)"
  using area_eq_shoelace [of p] area_pos [of p] by (auto simp: area_def)

theorem C4_area_shoelace_witness:
  "ccw_convex unit_square \<and> 3 \<le> nvertices unit_square \<and>
   area unit_square = shoelace unit_square / 2 \<and> area unit_square = 1 \<and>
   0 < area unit_square \<and>
   nvertices (unit_square\<lparr>nvertices := 2\<rparr>) < 3 \<and> area (unit_square\<lparr>nvertices := 2\<rparr>) = 0"
proof -
  have a1: "area unit_square = 1"
    by (simp add: area_def unit_square_def Let_def upt_1_4 area_step_def mk_point_def)
  have n: "3 \<le> nvertices unit_square" by (simp add: unit_square_def)
  have n2: "nvertices (unit_square\<lparr>nvertices := 2\<rparr>) < 3" by simp
  show ?thesis
    using C4_area_shoelace [of unit_square] C4_area_shoelace [of "unit_square\<lparr>nvertices := 2\<rparr>"]
      unit_square_ccw a1 n n2 by simp
qed

section \<open>Axis-aligned boxes and their polygons\<close>

text \<open>\<open>_max\<close> and \<open>_min\<close> of the source: on a tie both return their second argument.\<close>

definition max_scalar :: "real \<Rightarrow> real \<Rightarrow> real" where
  "max_scalar a b = (if a > b then a else b)"

definition min_scalar :: "real \<Rightarrow> real \<Rightarrow> real" where
  "min_scalar a b = (if a < b then a else b)"

definition poly2_from_aabox2 :: "AABox2 \<Rightarrow> Poly2" where
  "poly2_from_aabox2 a =
     (let p1 = \<lparr>px = min_x a, py = min_y a\<rparr>;
          p2 = \<lparr>px = max_x a, py = min_y a\<rparr>;
          p3 = \<lparr>px = max_x a, py = max_y a\<rparr>;
          p4 = \<lparr>px = min_x a, py = max_y a\<rparr>
      in \<lparr>vertices = [p1, p2, p3, p4], nvertices = 4\<rparr>)"

text \<open>One round of the loop of \<open>aabox2_from_poly2\<close>, for vertex \<open>i\<close>.\<close>

definition aabox2_step :: "Point2 list \<Rightarrow> nat \<Rightarrow> AABox2 \<Rightarrow> AABox2" where
  "aabox2_step vs i r =
     \<lparr>min_x = min_scalar (px (vs ! i)) (min_x r),
      max_x = max_scalar (px (vs ! i)) (max_x r),
      min_y = min_scalar (py (vs ! i)) (min_y r),
      max_y = max_scalar (py (vs ! i)) (max_y r)\<rparr>"

definition aabox2_from_poly2 :: "Poly2 \<Rightarrow> AABox2" where
  "aabox2_from_poly2 p =
     (let vs = vertices p;
          r0 = \<lparr>min_x = px (vs ! 0), max_x = px (vs ! 0),
                min_y = py (vs ! 0), max_y = py (vs ! 0)\<rparr>
      in fold (aabox2_step vs) [1..<nvertices p] r0)"

section \<open>Claim C9\<close>

text \<open>
  C9: for every axis-aligned box \<open>a\<close> with \<open>max_x \<ge> min_x\<close> and \<open>max_y \<ge> min_y\<close>,
  converting it to its 4-vertex polygon and back gives the box again, with all four
  coordinates equal: \<open>aabox2_from_poly2 (poly2_from_aabox2 a) = a\<close>.
\<close>

theorem C9_aabox2_roundtrip:
  fixes a :: AABox2
  assumes "max_x a \<ge> min_x a" and "max_y a \<ge> min_y a"
  shows "aabox2_from_poly2 (poly2_from_aabox2 a) = a"
  using assms
  by (simp add: aabox2_from_poly2_def poly2_from_aabox2_def Let_def upt_1_4 aabox2_step_def
      min_scalar_def max_scalar_def)

theorem C9_aabox2_roundtrip_witness:
  "max_x \<lparr>min_x = 1, max_x = 3, min_y = -2, max_y = 5\<rparr> \<ge> min_x \<lparr>min_x = 1, max_x = 3, min_y = -2, max_y = 5\<rparr> \<and>
   max_y \<lparr>min_x = 1, max_x = 3, min_y = -2, max_y = 5\<rparr> \<ge> min_y \<lparr>min_x = 1, max_x = 3, min_y = -2, max_y = 5\<rparr> \<and>
   aabox2_from_poly2 (poly2_from_aabox2 \<lparr>min_x = 1, max_x = 3, min_y = -2, max_y = 5\<rparr>)
     = \<lparr>min_x = 1, max_x = 3, min_y = -2, max_y = 5\<rparr>"
  using C9_aabox2_roundtrip [of "\<lparr>min_x = 1, max_x = 3, min_y = -2, max_y = 5\<rparr>"] by simp

section \<open>Adjoint of the polygon area (geometry_grad.hpp)\<close>

text \<open>
  A gradient accumulator of a polygon is a \<open>Poly2\<close> of the same capacity. The
  statements \<open>grad_p.vertices[i].x += d\<close> and \<open>-= d\<close> are the functions below; a
  write at an index outside the array is undefined behaviour in the source and
  \<open>None\<close> here. \<open>fold_opt\<close> runs a loop body over the loop's indices and stops at
  the first \<open>None\<close>.
\<close>


primrec fold_opt :: "('a \<Rightarrow> 'b \<Rightarrow> 'b option) \<Rightarrow> 'a list \<Rightarrow> 'b \<Rightarrow> 'b option" where
  "fold_opt f [] s = Some s"
| "fold_opt f (x # xs) s = Option.bind (f x s) (fold_opt f xs)"

definition add_vx :: "nat \<Rightarrow> real \<Rightarrow> Point2 list \<Rightarrow> Point2 list option" where
  "add_vx i d gs = (if i < length gs then Some (gs[i := (gs ! i)\<lparr>px := px (gs ! i) + d\<rparr>]) else None)"

definition add_vy :: "nat \<Rightarrow> real \<Rightarrow> Point2 list \<Rightarrow> Point2 list option" where
  "add_vy i d gs = (if i < length gs then Some (gs[i := (gs ! i)\<lparr>py := py (gs ! i) + d\<rparr>]) else None)"

definition sub_vx :: "nat \<Rightarrow> real \<Rightarrow> Point2 list \<Rightarrow> Point2 list option" where
  "sub_vx i d gs = (if i < length gs then Some (gs[i := (gs ! i)\<lparr>px := px (gs ! i) - d\<rparr>]) else None)"

definition sub_vy :: "nat \<Rightarrow> real \<Rightarrow> Point2 list \<Rightarrow> Point2 list option" where
  "sub_vy i d gs = (if i < length gs then Some (gs[i := (gs ! i)\<lparr>py := py (gs ! i) - d\<rparr>]) else None)"

text \<open>
  \<open>area_grad(const Poly2 &p, const scalar_t &grad, Poly2 &grad_p)\<close>: the body of the
  loop, for index \<open>i\<close>, and the function, which returns the accumulator after the
  call.
\<close>

definition area_grad_step :: "Point2 list \<Rightarrow> real \<Rightarrow> nat \<Rightarrow> Point2 list \<Rightarrow> Point2 list option" where
  "area_grad_step vs hgrad i gs = do {
     g1 \<leftarrow> sub_vx i (hgrad * py (vs ! (i - 1))) gs;
     g2 \<leftarrow> add_vy i (hgrad * px (vs ! (i - 1))) g1;
     g3 \<leftarrow> add_vx (i - 1) (hgrad * py (vs ! i)) g2;
     sub_vy (i - 1) (hgrad * px (vs ! i)) g3
   }"

definition area_grad :: "Poly2 \<Rightarrow> real \<Rightarrow> Poly2 \<Rightarrow> Poly2 option" where
  "area_grad p grad grad_p =
     (if nvertices p \<le> 2 then Some grad_p
      else do {
        let n = nvertices p; let vs = vertices p; let hgrad = grad / 2;
        g1 \<leftarrow> sub_vx 0 (hgrad * py (vs ! (n - 1))) (vertices grad_p);
        g2 \<leftarrow> add_vy 0 (hgrad * px (vs ! (n - 1))) g1;
        g3 \<leftarrow> add_vx (n - 1) (hgrad * py (vs ! 0)) g2;
        g4 \<leftarrow> sub_vy (n - 1) (hgrad * px (vs ! 0)) g3;
        g5 \<leftarrow> fold_opt (area_grad_step vs hgrad) [1..<n] g4;
        Some (grad_p\<lparr>vertices := g5, nvertices := n\<rparr>)
      })"

lemma fold_opt_append:
  "fold_opt f (xs @ ys) s = Option.bind (fold_opt f xs s) (fold_opt f ys)"
  by (induction xs arbitrary: s) (auto split: Option.bind_split)

definition dx_loop :: "Point2 list \<Rightarrow> real \<Rightarrow> nat \<Rightarrow> nat \<Rightarrow> real" where
  "dx_loop vs h m k =
     (if 1 \<le> k \<and> k < m then - (h * py (vs ! (k - 1))) else 0) +
     (if Suc k < m then h * py (vs ! Suc k) else 0)"

definition dy_loop :: "Point2 list \<Rightarrow> real \<Rightarrow> nat \<Rightarrow> nat \<Rightarrow> real" where
  "dy_loop vs h m k =
     (if 1 \<le> k \<and> k < m then h * px (vs ! (k - 1)) else 0) +
     (if Suc k < m then - (h * px (vs ! Suc k)) else 0)"

lemma area_grad_step_in_range:
  assumes "i < length gs" "0 < i"
  shows "\<exists>gs'. area_grad_step vs h i gs = Some gs' \<and> length gs' = length gs \<and>
     (\<forall>k<length gs.
        px (gs' ! k) = px (gs ! k) + (if k = i then - (h * py (vs ! (i - 1))) else 0)
                                   + (if k = i - 1 then h * py (vs ! i) else 0) \<and>
        py (gs' ! k) = py (gs ! k) + (if k = i then h * px (vs ! (i - 1)) else 0)
                                   + (if k = i - 1 then - (h * px (vs ! i)) else 0))"
  using assms
  by (auto simp: area_grad_step_def add_vx_def add_vy_def sub_vx_def sub_vy_def nth_list_update)

lemma area_grad_loop:
  assumes "1 \<le> m" "m \<le> length gs"
  shows "\<exists>gs'. fold_opt (area_grad_step vs h) [1..<m] gs = Some gs' \<and> length gs' = length gs \<and>
     (\<forall>k<length gs. px (gs' ! k) = px (gs ! k) + dx_loop vs h m k \<and>
                     py (gs' ! k) = py (gs ! k) + dy_loop vs h m k)"
  using assms
proof (induction m)
  case 0
  then show ?case by simp
next
  case (Suc m)
  show ?case
  proof (cases "m = 0")
    case True
    then show ?thesis by (simp add: dx_loop_def dy_loop_def)
  next
    case False
    then have m1: "1 \<le> m" and ml: "m \<le> length gs" and mlt: "m < length gs" and mpos: "0 < m"
      using Suc.prems by auto
    from Suc.IH [OF m1 ml] obtain g1 where
      g1: "fold_opt (area_grad_step vs h) [1..<m] gs = Some g1" and
      l1: "length g1 = length gs" and
      v1: "\<forall>k<length gs. px (g1 ! k) = px (gs ! k) + dx_loop vs h m k \<and>
                     py (g1 ! k) = py (gs ! k) + dy_loop vs h m k"
      by blast
    have "m < length g1" using mlt l1 by simp
    from area_grad_step_in_range [OF this mpos, of vs h] obtain g2 where
      g2: "area_grad_step vs h m g1 = Some g2" and
      l2: "length g2 = length g1" and
      v2: "\<forall>k<length g1.
        px (g2 ! k) = px (g1 ! k) + (if k = m then - (h * py (vs ! (m - 1))) else 0)
                                   + (if k = m - 1 then h * py (vs ! m) else 0) \<and>
        py (g2 ! k) = py (g1 ! k) + (if k = m then h * px (vs ! (m - 1)) else 0)
                                   + (if k = m - 1 then - (h * px (vs ! m)) else 0)"
      by blast
    have upt: "[1..<Suc m] = [1..<m] @ [m]" using m1 by simp
    have run: "fold_opt (area_grad_step vs h) [1..<Suc m] gs = Some g2"
      by (simp only: upt fold_opt_append g1) (simp add: g2)
    have vals: "\<forall>k<length gs. px (g2 ! k) = px (gs ! k) + dx_loop vs h (Suc m) k \<and>
                     py (g2 ! k) = py (gs ! k) + dy_loop vs h (Suc m) k"
    proof (intro allI impI)
      fix k assume k: "k < length gs"
      then have k1: "k < length g1" using l1 by simp
      consider "k = m" | "Suc k = m" | "k \<noteq> m" "Suc k \<noteq> m" by blast
      then show "px (g2 ! k) = px (gs ! k) + dx_loop vs h (Suc m) k \<and>
            py (g2 ! k) = py (gs ! k) + dy_loop vs h (Suc m) k"
      proof cases
        case 1
        then have "k \<noteq> m - 1" using mpos by auto
        then show ?thesis
          using v1 [rule_format, OF k] v2 [rule_format, OF k1] mpos 1
          by (simp add: dx_loop_def dy_loop_def)
      next
        case 2
        then have "k = m - 1" "k < m" "k \<noteq> m" by auto
        then show ?thesis
          using v1 [rule_format, OF k] v2 [rule_format, OF k1] mpos 2
          by (simp add: dx_loop_def dy_loop_def)
      next
        case 3
        then have "k \<noteq> m - 1" using mpos by auto
        then show ?thesis
          using v1 [rule_format, OF k] v2 [rule_format, OF k1] mpos 3
          by (auto simp: dx_loop_def dy_loop_def)
      qed
    qed
    show ?thesis using run l1 l2 vals by simp
  qed
qed

lemma area_grad_head_tail:
  assumes "3 \<le> n" "n \<le> length gs"
  shows "\<exists>g4. (do {
        g1 \<leftarrow> sub_vx 0 (h * py (vs ! (n - 1))) gs;
        g2 \<leftarrow> add_vy 0 (h * px (vs ! (n - 1))) g1;
        g3 \<leftarrow> add_vx (n - 1) (h * py (vs ! 0)) g2;
        sub_vy (n - 1) (h * px (vs ! 0)) g3 }) = Some g4 \<and> length g4 = length gs \<and>
     (\<forall>k<length gs.
        px (g4 ! k) = px (gs ! k) + (if k = 0 then - (h * py (vs ! (n - 1))) else 0)
                                   + (if k = n - 1 then h * py (vs ! 0) else 0) \<and>
        py (g4 ! k) = py (gs ! k) + (if k = 0 then h * px (vs ! (n - 1)) else 0)
                                   + (if k = n - 1 then - (h * px (vs ! 0)) else 0))"
  using assms
  by (auto simp: add_vx_def add_vy_def sub_vx_def sub_vy_def nth_list_update)

lemma area_grad_values:
  assumes n3: "3 \<le> nvertices p" and cap: "nvertices p \<le> length (vertices grad_p)"
  shows "\<exists>r. area_grad p g grad_p = Some r \<and> nvertices r = nvertices p \<and>
     length (vertices r) = length (vertices grad_p) \<and>
     (\<forall>k<length (vertices grad_p).
        px (vertices r ! k) = px (vertices grad_p ! k)
           + (if k = 0 then - (g / 2 * py (vertices p ! (nvertices p - 1))) else 0)
           + (if k = nvertices p - 1 then g / 2 * py (vertices p ! 0) else 0)
           + dx_loop (vertices p) (g / 2) (nvertices p) k \<and>
        py (vertices r ! k) = py (vertices grad_p ! k)
           + (if k = 0 then g / 2 * px (vertices p ! (nvertices p - 1)) else 0)
           + (if k = nvertices p - 1 then - (g / 2 * px (vertices p ! 0)) else 0)
           + dy_loop (vertices p) (g / 2) (nvertices p) k)"
proof -
  define n where "n = nvertices p"
  define vs where "vs = vertices p"
  define h where "h = g / 2"
  define gs where "gs = vertices grad_p"
  have n3': "3 \<le> n" and cap': "n \<le> length gs" using n3 cap by (simp_all add: n_def gs_def)
  from area_grad_head_tail [OF n3' cap', of h vs] obtain g4 where
    g4: "(do {
        g1 \<leftarrow> sub_vx 0 (h * py (vs ! (n - 1))) gs;
        g2 \<leftarrow> add_vy 0 (h * px (vs ! (n - 1))) g1;
        g3 \<leftarrow> add_vx (n - 1) (h * py (vs ! 0)) g2;
        sub_vy (n - 1) (h * px (vs ! 0)) g3 }) = Some g4" and
    l4: "length g4 = length gs" and
    v4: "\<forall>k<length gs.
        px (g4 ! k) = px (gs ! k) + (if k = 0 then - (h * py (vs ! (n - 1))) else 0)
                                   + (if k = n - 1 then h * py (vs ! 0) else 0) \<and>
        py (g4 ! k) = py (gs ! k) + (if k = 0 then h * px (vs ! (n - 1)) else 0)
                                   + (if k = n - 1 then - (h * px (vs ! 0)) else 0)"
    by blast
  have "1 \<le> n" "n \<le> length g4" using n3' cap' l4 by simp_all
  from area_grad_loop [OF this, of vs h] obtain g5 where
    g5: "fold_opt (area_grad_step vs h) [1..<n] g4 = Some g5" and
    l5: "length g5 = length g4" and
    v5: "\<forall>k<length g4. px (g5 ! k) = px (g4 ! k) + dx_loop vs h n k \<and>
                     py (g5 ! k) = py (g4 ! k) + dy_loop vs h n k"
    by blast
  from g4 obtain g1 g2 g3 where
    s1: "sub_vx 0 (h * py (vs ! (n - 1))) gs = Some g1" and
    s2: "add_vy 0 (h * px (vs ! (n - 1))) g1 = Some g2" and
    s3: "add_vx (n - 1) (h * py (vs ! 0)) g2 = Some g3" and
    s4: "sub_vy (n - 1) (h * px (vs ! 0)) g3 = Some g4"
    by (auto simp: bind_eq_Some_conv)
  have run: "area_grad p g grad_p = Some (grad_p\<lparr>vertices := g5, nvertices := n\<rparr>)"
    using n3 s1 s2 s3 s4 g5
    by (simp add: area_grad_def Let_def n_def vs_def h_def gs_def)
  show ?thesis
    unfolding n_def [symmetric] vs_def [symmetric] h_def [symmetric] gs_def [symmetric]
    using run l4 l5 v4 v5 by simp
qed

lemma mod_prev:
  assumes "0 < i" "i < n"
  shows "(i + n - 1) mod n = i - (1::nat)"
proof -
  have "i + n - 1 = (i - 1) + n" using assms by simp
  then have "(i + n - 1) mod n = ((i - 1) + n) mod n" by simp
  also have "\<dots> = (i - 1) mod n" by (simp only: mod_add_self2)
  also have "\<dots> = i - 1" using assms by simp
  finally show ?thesis .
qed

lemma Point2_eqI:
  fixes a b :: Point2
  shows "px a = px b \<Longrightarrow> py a = py b \<Longrightarrow> a = b"
  by simp

text \<open>A zero-initialised accumulator of capacity \<open>cap\<close> (\<open>Poly2::zero()\<close>).\<close>

definition zero_poly :: "nat \<Rightarrow> Poly2" where
  "zero_poly cap = \<lparr>vertices = replicate cap \<lparr>px = 0, py = 0\<rparr>, nvertices = 0\<rparr>"

section \<open>Claim C5\<close>

text \<open>
  C5: for a polygon \<open>p\<close> with \<open>n \<ge> 3\<close> vertices (within the capacity of the
  accumulator) and every upstream gradient \<open>g\<close>, \<open>area_grad\<close> adds exactly
  \<open>g * (y(i+1) - y(i-1)) / 2\<close> to the x gradient of vertex \<open>i\<close> and
  \<open>g * (x(i-1) - x(i+1)) / 2\<close> to its y gradient (indices modulo \<open>n\<close>), for every
  \<open>i < n\<close>, and leaves the entries from \<open>n\<close> on as they were; for \<open>n \<le> 2\<close> it
  returns the accumulator unchanged.
\<close>

theorem C5_area_grad:
  assumes "nvertices p \<le> length (vertices grad_p)"
  shows "(3 \<le> nvertices p \<longrightarrow>
           (\<exists>r. area_grad p g grad_p = Some r \<and>
                length (vertices r) = length (vertices grad_p) \<and>
                (\<forall>i<nvertices p.
                    px (vertices r ! i) = px (vertices grad_p ! i)
                      + g * (py (vertices p ! ((i + 1) mod nvertices p))
                             - py (vertices p ! ((i + nvertices p - 1) mod nvertices p))) / 2 \<and>
                    py (vertices r ! i) = py (vertices grad_p ! i)
                      + g * (px (vertices p ! ((i + nvertices p - 1) mod nvertices p))
                             - px (vertices p ! ((i + 1) mod nvertices p))) / 2) \<and>
                (\<forall>i. nvertices p \<le> i \<longrightarrow> i < length (vertices grad_p) \<longrightarrow>
                    vertices r ! i = vertices grad_p ! i))) \<and>
         (nvertices p \<le> 2 \<longrightarrow> area_grad p g grad_p = Some grad_p)"
proof (intro conjI impI)
  assume "nvertices p \<le> 2"
  then show "area_grad p g grad_p = Some grad_p" by (simp add: area_grad_def)
next
  assume n3: "3 \<le> nvertices p"
  define n where "n = nvertices p"
  define vs where "vs = vertices p"
  define gs where "gs = vertices grad_p"
  from area_grad_values [OF n3 assms, of g] obtain r where
    run: "area_grad p g grad_p = Some r" and
    len: "length (vertices r) = length gs" and
    vals: "\<forall>k<length gs.
        px (vertices r ! k) = px (gs ! k)
           + (if k = 0 then - (g / 2 * py (vs ! (n - 1))) else 0)
           + (if k = n - 1 then g / 2 * py (vs ! 0) else 0)
           + dx_loop vs (g / 2) n k \<and>
        py (vertices r ! k) = py (gs ! k)
           + (if k = 0 then g / 2 * px (vs ! (n - 1)) else 0)
           + (if k = n - 1 then - (g / 2 * px (vs ! 0)) else 0)
           + dy_loop vs (g / 2) n k"
    unfolding n_def vs_def gs_def by blast
  have n3': "3 \<le> n" and cap: "n \<le> length gs" using n3 assms by (simp_all add: n_def gs_def)
  have inside: "px (vertices r ! i) = px (gs ! i)
                      + g * (py (vs ! ((i + 1) mod n)) - py (vs ! ((i + n - 1) mod n))) / 2 \<and>
                py (vertices r ! i) = py (gs ! i)
                      + g * (px (vs ! ((i + n - 1) mod n)) - px (vs ! ((i + 1) mod n))) / 2"
    if i: "i < n" for i
  proof -
    have il: "i < length gs" using i cap by simp
    consider "i = 0" | "i = n - 1" | "0 < i" "Suc i < n" using i by linarith
    then show ?thesis
    proof cases
      case 1
      then have "(i + 1) mod n = 1" "(i + n - 1) mod n = n - 1" "i \<noteq> n - 1" using n3' by auto
      then show ?thesis using vals [rule_format, OF il] 1 n3'
        by (simp add: dx_loop_def dy_loop_def field_simps)
    next
      case 2
      then have m1: "(i + 1) mod n = 0" using n3' by simp
      have "(i + n - 1) mod n = i - 1" using mod_prev [of i n] 2 n3' by simp
      then have m2: "(i + n - 1) mod n = n - 2" using 2 n3' by simp
      have "i \<noteq> 0" "i - 1 = n - 2" "1 \<le> i" "\<not> Suc i < n" using 2 n3' by auto
      then show ?thesis using vals [rule_format, OF il] 2 n3' m1 m2
        by (simp add: dx_loop_def dy_loop_def field_simps)
    next
      case 3
      then have m1: "(i + 1) mod n = Suc i" by simp
      have m2: "(i + n - 1) mod n = i - 1" using mod_prev [of i n] 3 by simp
      have "i \<noteq> 0" "i \<noteq> n - 1" "1 \<le> i" using 3 by auto
      then show ?thesis using vals [rule_format, OF il] 3 m1 m2
        by (simp add: dx_loop_def dy_loop_def field_simps)
    qed
  qed
  have outside: "vertices r ! i = gs ! i" if "n \<le> i" "i < length gs" for i
  proof (rule Point2_eqI)
    have "i \<noteq> 0" "i \<noteq> n - 1" "\<not> i < n" "\<not> Suc i < n" using that n3' by auto
    then show "px (vertices r ! i) = px (gs ! i)" "py (vertices r ! i) = py (gs ! i)"
      using vals [rule_format, OF that(2)] by (simp_all add: dx_loop_def dy_loop_def)
  qed
  show "\<exists>r. area_grad p g grad_p = Some r \<and>
                length (vertices r) = length (vertices grad_p) \<and>
                (\<forall>i<nvertices p.
                    px (vertices r ! i) = px (vertices grad_p ! i)
                      + g * (py (vertices p ! ((i + 1) mod nvertices p))
                             - py (vertices p ! ((i + nvertices p - 1) mod nvertices p))) / 2 \<and>
                    py (vertices r ! i) = py (vertices grad_p ! i)
                      + g * (px (vertices p ! ((i + nvertices p - 1) mod nvertices p))
                             - px (vertices p ! ((i + 1) mod nvertices p))) / 2) \<and>
                (\<forall>i. nvertices p \<le> i \<longrightarrow> i < length (vertices grad_p) \<longrightarrow>
                    vertices r ! i = vertices grad_p ! i)"
    using run len inside outside unfolding n_def vs_def gs_def by blast
qed

theorem C5_area_grad_witness:
  "nvertices unit_square \<le> length (vertices (zero_poly 4)) \<and> 3 \<le> nvertices unit_square \<and>
   (\<exists>r. area_grad unit_square 2 (zero_poly 4) = Some r \<and>
        vertices r ! 0 = \<lparr>px = -1, py = -1\<rparr> \<and> vertices r ! 1 = \<lparr>px = 1, py = -1\<rparr> \<and>
        vertices r ! 2 = \<lparr>px = 1, py = 1\<rparr> \<and> vertices r ! 3 = \<lparr>px = -1, py = 1\<rparr>) \<and>
   nvertices (unit_square\<lparr>nvertices := 2\<rparr>) \<le> 2 \<and>
   area_grad (unit_square\<lparr>nvertices := 2\<rparr>) 2 (zero_poly 4) = Some (zero_poly 4)"
proof -
  have cap: "nvertices unit_square \<le> length (vertices (zero_poly 4))"
    by (simp add: unit_square_def zero_poly_def)
  have cap2: "nvertices (unit_square\<lparr>nvertices := 2\<rparr>) \<le> length (vertices (zero_poly 4))"
    by (simp add: zero_poly_def)
  have n3: "3 \<le> nvertices unit_square" by (simp add: unit_square_def)
  from C5_area_grad [OF cap, of 2] n3 obtain r where
    run: "area_grad unit_square 2 (zero_poly 4) = Some r" and
    vals: "\<forall>i<nvertices unit_square.
        px (vertices r ! i) = px (vertices (zero_poly 4) ! i)
          + 2 * (py (vertices unit_square ! ((i + 1) mod nvertices unit_square))
                 - py (vertices unit_square ! ((i + nvertices unit_square - 1) mod nvertices unit_square))) / 2 \<and>
        py (vertices r ! i) = py (vertices (zero_poly 4) ! i)
          + 2 * (px (vertices unit_square ! ((i + nvertices unit_square - 1) mod nvertices unit_square))
                 - px (vertices unit_square ! ((i + 1) mod nvertices unit_square))) / 2"
    by blast
  have v0: "vertices r ! 0 = \<lparr>px = -1, py = -1\<rparr>"
    by (rule Point2_eqI) (use vals [rule_format, of 0] in \<open>simp_all add: unit_square_def zero_poly_def mk_point_def\<close>)
  have v1: "vertices r ! 1 = \<lparr>px = 1, py = -1\<rparr>"
    by (rule Point2_eqI) (use vals [rule_format, of 1] in \<open>simp_all add: unit_square_def zero_poly_def mk_point_def\<close>)
  have v2: "vertices r ! 2 = \<lparr>px = 1, py = 1\<rparr>"
    by (rule Point2_eqI) (use vals [rule_format, of 2] in \<open>simp_all add: unit_square_def zero_poly_def mk_point_def\<close>)
  have v3: "vertices r ! 3 = \<lparr>px = -1, py = 1\<rparr>"
    by (rule Point2_eqI) (use vals [rule_format, of 3] in \<open>simp_all add: unit_square_def zero_poly_def mk_point_def\<close>)
  have small: "area_grad (unit_square\<lparr>nvertices := 2\<rparr>) 2 (zero_poly 4) = Some (zero_poly 4)"
    using C5_area_grad [OF cap2, of 2] by simp
  show ?thesis using cap n3 run v0 v1 v2 v3 small by simp
qed

section \<open>Slope angles\<close>

text \<open>
  \<open>atan2\<close> of the C library on exact reals (there is no negative zero: \<open>atan2 0 x\<close> is
  \<open>pi\<close> for negative \<open>x\<close>). The constant \<open>_pi\<close> of the source is the number \<open>pi\<close>.
  \<open>angle_less\<close> decides the order of two such angles from the signs and one cross
  product; \<open>atan2_less_iff\<close> below proves it equal to the order of the angles.
\<close>

definition atan2 :: "real \<Rightarrow> real \<Rightarrow> real" where
  "atan2 y x =
     (if 0 < x then arctan (y / x)
      else if x < 0 then (if 0 \<le> y then arctan (y / x) + pi else arctan (y / x) - pi)
      else if 0 < y then pi / 2
      else if y < 0 then - pi / 2
      else 0)"

definition half_plane :: "real \<Rightarrow> real \<Rightarrow> nat" where
  "half_plane y x = (if y < 0 then 0 else if y = 0 \<and> 0 \<le> x then 1 else if 0 < y then 2 else 3)"

definition angle_less :: "real \<Rightarrow> real \<Rightarrow> real \<Rightarrow> real \<Rightarrow> bool" where
  "angle_less y1 x1 y2 x2 \<longleftrightarrow>
     half_plane y1 x1 < half_plane y2 x2 \<or>
     (half_plane y1 x1 = half_plane y2 x2 \<and> y1 \<noteq> 0 \<and> x2 * y1 < x1 * y2)"

lemma atan2_upper:
  assumes "0 < y"
  shows "atan2 y x = pi / 2 - arctan (x / y)"
proof -
  consider "0 < x" | "x < 0" | "x = 0" by linarith
  then show ?thesis
  proof cases
    case 1
    then have "0 < x / y" using assms by simp
    then have "x / y \<noteq> 0" "sgn (x / y) = 1" by (auto simp: sgn_if)
    then have "arctan (1 / (x / y)) = pi / 2 - arctan (x / y)"
      using arctan_inverse [of "x / y"] by simp
    then show ?thesis using 1 by (simp add: atan2_def)
  next
    case 2
    then have "x / y < 0" using assms by (simp add: divide_neg_pos)
    then have "x / y \<noteq> 0" "sgn (x / y) = -1" by (auto simp: sgn_if)
    then have "arctan (1 / (x / y)) = - pi / 2 - arctan (x / y)"
      using arctan_inverse [of "x / y"] by simp
    then show ?thesis using 2 assms by (simp add: atan2_def)
  next
    case 3
    then show ?thesis using assms by (simp add: atan2_def)
  qed
qed

lemma atan2_lower:
  assumes "y < 0"
  shows "atan2 y x = - pi / 2 - arctan (x / y)"
proof -
  consider "0 < x" | "x < 0" | "x = 0" by linarith
  then show ?thesis
  proof cases
    case 1
    then have "x / y < 0" using assms by (simp add: divide_pos_neg)
    then have "x / y \<noteq> 0" "sgn (x / y) = -1" by (auto simp: sgn_if)
    then have "arctan (1 / (x / y)) = - pi / 2 - arctan (x / y)"
      using arctan_inverse [of "x / y"] by simp
    then show ?thesis using 1 by (simp add: atan2_def)
  next
    case 2
    then have "0 < x / y" using assms by (simp add: divide_neg_neg)
    then have "x / y \<noteq> 0" "sgn (x / y) = 1" by (auto simp: sgn_if)
    then have "arctan (1 / (x / y)) = pi / 2 - arctan (x / y)"
      using arctan_inverse [of "x / y"] by simp
    then show ?thesis using 2 assms by (simp add: atan2_def)
  next
    case 3
    then show ?thesis using assms by (simp add: atan2_def)
  qed
qed

lemma atan2_zero_y: "atan2 0 x = (if x < 0 then pi else 0)"
  by (simp add: atan2_def)

lemma atan2_upper_range: "0 < y \<Longrightarrow> 0 < atan2 y x \<and> atan2 y x < pi"
  using arctan_bounded [of "x / y"] by (simp add: atan2_upper)

lemma atan2_lower_range: "y < 0 \<Longrightarrow> - pi < atan2 y x \<and> atan2 y x < 0"
  using arctan_bounded [of "x / y"] by (simp add: atan2_lower)

lemma atan2_gt_neg_pi: "- pi < atan2 y x"
proof -
  consider "y < 0" | "y = 0" | "0 < y" by linarith
  then show ?thesis
  proof cases
    case 1 then show ?thesis using atan2_lower_range by simp
  next
    case 2 then show ?thesis using pi_gt_zero by (simp add: atan2_zero_y)
  next
    case 3 then show ?thesis using atan2_upper_range [of y x] pi_gt_zero by linarith
  qed
qed

lemma atan2_not_less_neg_pi: "\<not> atan2 y x < - pi"
  using atan2_gt_neg_pi [of y x] by simp

lemma atan2_same_side:
  assumes "0 < y1 * y2"
  shows "atan2 y1 x1 < atan2 y2 x2 \<longleftrightarrow> x2 * y1 < x1 * y2"
proof -
  have ratio: "x2 / y2 < x1 / y1 \<longleftrightarrow> x2 * y1 < x1 * y2"
  proof -
    have nz: "y2 \<noteq> 0" "y1 \<noteq> 0" using assms by auto
    have "x2 / y2 < x1 / y1 \<longleftrightarrow> (x2 * y1 - x1 * y2) / (y2 * y1) < 0"
      by (rule frac_less_eq [OF nz])
    also have "\<dots> \<longleftrightarrow> x2 * y1 - x1 * y2 < 0"
      using assms by (simp add: divide_less_0_iff mult.commute)
    also have "\<dots> \<longleftrightarrow> x2 * y1 < x1 * y2" by simp
    finally show ?thesis .
  qed
  consider "0 < y1" "0 < y2" | "y1 < 0" "y2 < 0"
    using assms by (auto simp: zero_less_mult_iff)
  then show ?thesis
  proof cases
    case 1
    then show ?thesis using ratio by (simp add: atan2_upper arctan_less_iff)
  next
    case 2
    then show ?thesis using ratio by (simp add: atan2_lower arctan_less_iff)
  qed
qed

lemma atan2_less_iff: "atan2 y1 x1 < atan2 y2 x2 \<longleftrightarrow> angle_less y1 x1 y2 x2"
proof -
  consider "y1 < 0" | "y1 = 0" "0 \<le> x1" | "0 < y1" | "y1 = 0" "x1 < 0" by linarith
  then show ?thesis
  proof cases
    case 1
    note a = atan2_lower_range [OF 1, of x1]
    consider "y2 < 0" | "y2 = 0" "0 \<le> x2" | "0 < y2" | "y2 = 0" "x2 < 0" by linarith
    then show ?thesis
    proof cases
      case 1
      with \<open>y1 < 0\<close> have "0 < y1 * y2" by (simp add: zero_less_mult_iff)
      then show ?thesis using 1 \<open>y1 < 0\<close> by (simp add: atan2_same_side angle_less_def half_plane_def)
    next
      case 2 then show ?thesis using a \<open>y1 < 0\<close> by (simp add: atan2_zero_y angle_less_def half_plane_def)
    next
      case 3 then show ?thesis using a \<open>y1 < 0\<close> atan2_upper_range [of y2 x2]
        by (simp add: angle_less_def half_plane_def)
    next
      case 4 then show ?thesis using a \<open>y1 < 0\<close> pi_gt_zero
        by (simp add: atan2_zero_y angle_less_def half_plane_def)
    qed
  next
    case 2
    consider "y2 < 0" | "y2 = 0" "0 \<le> x2" | "0 < y2" | "y2 = 0" "x2 < 0" by linarith
    then show ?thesis
    proof cases
      case 1 then show ?thesis using 2 atan2_lower_range [of y2 x2]
        by (simp add: atan2_zero_y angle_less_def half_plane_def)
    next
      case 2 then show ?thesis using \<open>y1 = 0\<close> \<open>0 \<le> x1\<close>
        by (simp add: atan2_zero_y angle_less_def half_plane_def)
    next
      case 3 then show ?thesis using 2 atan2_upper_range [of y2 x2]
        by (simp add: atan2_zero_y angle_less_def half_plane_def)
    next
      case 4 then show ?thesis using 2 pi_gt_zero
        by (simp add: atan2_zero_y angle_less_def half_plane_def)
    qed
  next
    case 3
    note a = atan2_upper_range [OF 3, of x1]
    consider "y2 < 0" | "y2 = 0" "0 \<le> x2" | "0 < y2" | "y2 = 0" "x2 < 0" by linarith
    then show ?thesis
    proof cases
      case 1 then show ?thesis using a 3 atan2_lower_range [of y2 x2]
        by (simp add: angle_less_def half_plane_def)
    next
      case 2 then show ?thesis using a 3
        by (simp add: atan2_zero_y angle_less_def half_plane_def)
    next
      case 3
      with \<open>0 < y1\<close> have "0 < y1 * y2" by simp
      then show ?thesis using 3 \<open>0 < y1\<close> by (simp add: atan2_same_side angle_less_def half_plane_def)
    next
      case 4 then show ?thesis using a 3
        by (simp add: atan2_zero_y angle_less_def half_plane_def)
    qed
  next
    case 4
    consider "y2 < 0" | "y2 = 0" "0 \<le> x2" | "0 < y2" | "y2 = 0" "x2 < 0" by linarith
    then show ?thesis
    proof cases
      case 1 then show ?thesis using 4 atan2_lower_range [of y2 x2] pi_gt_zero
        by (simp add: atan2_zero_y angle_less_def half_plane_def)
    next
      case 2 then show ?thesis using 4 pi_gt_zero
        by (simp add: atan2_zero_y angle_less_def half_plane_def)
    next
      case 3 then show ?thesis using 4 atan2_upper_range [of y2 x2]
        by (simp add: atan2_zero_y angle_less_def half_plane_def)
    next
      case 4 then show ?thesis using \<open>y1 = 0\<close> \<open>x1 < 0\<close>
        by (simp add: atan2_zero_y angle_less_def half_plane_def)
    qed
  qed
qed

section \<open>The rotating-caliper intersection (geometry.hpp)\<close>

text \<open>
  \<open>_slope_pp\<close>, \<open>_find_extreme\<close> (with \<open>TopRight = true\<close>: the first vertex of largest
  y, and that y) and \<open>_check_valid_bridge\<close>. The latter returns \<open>NotABridge\<close> for
  \<open>false\<close>, \<open>Bridge reverse\<close> for \<open>true\<close> with the out-parameter \<open>reverse\<close>, and
  \<open>AllOnOneLine\<close> where the source reaches \<open>assert(false)\<close>.

  The angles are exact: \<open>- pi < slope_pp p1 p2\<close> for every edge. In \<open>double\<close>
  arithmetic angles closer than the rounding of \<open>atan2\<close> are equal; in particular
  the angle \<open>atan2(-eps, -w)\<close> of an edge that points to the left along the x axis
  is the negated constant \<open>_pi\<close> once \<open>w\<close> is 18 or more, and a sweep, which starts
  from that constant, then takes such an edge for one that is not ahead. On the
  polygons evaluated in this theory every comparison of angles comes out in
  \<open>double\<close> arithmetic as it does here: their edges to the left along the x axis
  have width 1 or 4, and the other angles compared are far apart or those of two
  edges with the same coordinate differences.
\<close>

definition slope_pp :: "Point2 \<Rightarrow> Point2 \<Rightarrow> real" where
  "slope_pp p1 p2 = atan2 (py p2 - py p1 - eps) (px p2 - px p1)"

definition find_extreme_step :: "Point2 list \<Rightarrow> nat \<Rightarrow> nat \<times> real \<Rightarrow> nat \<times> real" where
  "find_extreme_step vs i st = (if py (vs ! i) > snd st then (i, py (vs ! i)) else st)"

definition find_extreme :: "Poly2 \<Rightarrow> nat \<times> real" where
  "find_extreme p =
     fold (find_extreme_step (vertices p)) [1..<nvertices p] (0, py (vertices p ! 0))"

datatype bridge = NotABridge | Bridge bool | AllOnOneLine

fun bridge_scan :: "real list \<Rightarrow> bool option \<Rightarrow> bridge" where
  "bridge_scan [] None = AllOnOneLine"
| "bridge_scan [] (Some reverse) = Bridge reverse"
| "bridge_scan (d # ds) found =
     (if \<bar>d\<bar> > eps then
        (case found of
           Some reverse \<Rightarrow> if reverse \<noteq> (d < 0) then NotABridge else bridge_scan ds found
         | None \<Rightarrow> bridge_scan ds (Some (d < 0)))
      else bridge_scan ds found)"

definition check_valid_bridge :: "Poly2 \<Rightarrow> Poly2 \<Rightarrow> nat \<Rightarrow> nat \<Rightarrow> bridge" where
  "check_valid_bridge p1 p2 idx1 idx2 =
     (let a = vertices p1 ! idx1; b = vertices p2 ! idx2;
          d1 = cross a b (vertices p1 ! mod_dec idx1 (nvertices p1));
          d2 = cross a b (vertices p1 ! mod_inc idx1 (nvertices p1));
          d3 = cross a b (vertices p2 ! mod_dec idx2 (nvertices p2));
          d4 = cross a b (vertices p2 ! mod_inc idx2 (nvertices p2))
      in bridge_scan [d1, d2, d3, d4] None)"

text \<open>
  \<open>_find_intersection_under_bridge\<close>. Its two inner loops walk down along the second
  polygon (indices increasing) and along the first (indices decreasing); \<open>last_dist\<close>
  is \<open>None\<close> for minus infinity. An inner loop yields \<open>Some None\<close> where the source
  returns \<open>false\<close>, and \<open>Some (Some (i, finished))\<close> at its \<open>break\<close>. The loops need
  not end on every input, so they are partial functions: \<open>None\<close> is a run that never
  returns.
\<close>

partial_function (option) bridge_down_inc ::
  "Poly2 \<Rightarrow> Point2 \<Rightarrow> Point2 \<Rightarrow> nat \<Rightarrow> real option \<Rightarrow> bool \<Rightarrow> (nat \<times> bool) option option" where
  "bridge_down_inc p2 p1a p1b i2 last_dist finished =
     (let dist = cross p1a p1b (vertices p2 ! mod_inc i2 (nvertices p2)) in
      if (case last_dist of None \<Rightarrow> False | Some l \<Rightarrow> dist < l) then Some None
      else if dist > - eps then Some (Some (i2, finished))
      else bridge_down_inc p2 p1a p1b (mod_inc i2 (nvertices p2)) (Some dist) False)"

partial_function (option) bridge_down_dec ::
  "Poly2 \<Rightarrow> Point2 \<Rightarrow> Point2 \<Rightarrow> nat \<Rightarrow> real option \<Rightarrow> bool \<Rightarrow> (nat \<times> bool) option option" where
  "bridge_down_dec p1 p2a p2b i1 last_dist finished =
     (let dist = cross p2a p2b (vertices p1 ! mod_dec i1 (nvertices p1)) in
      if (case last_dist of None \<Rightarrow> False | Some l \<Rightarrow> dist < l) then Some None
      else if dist > - eps then Some (Some (i1, finished))
      else bridge_down_dec p1 p2a p2b (mod_dec i1 (nvertices p1)) (Some dist) False)"

partial_function (option) find_intersection_under_bridge ::
  "Poly2 \<Rightarrow> Poly2 \<Rightarrow> nat \<Rightarrow> nat \<Rightarrow> (nat \<times> nat) option option" where
  "find_intersection_under_bridge p1 p2 i1 i2 =
     Option.bind
       (bridge_down_inc p2 (vertices p1 ! mod_dec i1 (nvertices p1)) (vertices p1 ! i1) i2 None True)
       (\<lambda>r1. case r1 of
           None \<Rightarrow> Some None
         | Some (i2', fin1) \<Rightarrow>
             Option.bind
               (bridge_down_dec p1 (vertices p2 ! i2') (vertices p2 ! mod_inc i2' (nvertices p2))
                  i1 None fin1)
               (\<lambda>r2. case r2 of
                   None \<Rightarrow> Some None
                 | Some (i1', fin2) \<Rightarrow>
                     if fin2 then Some (Some (mod_dec i1' (nvertices p1), i2'))
                     else find_intersection_under_bridge p1 p2 i1' i2'))"

text \<open>
  Ways in which a call produces no value: a failed \<open>assert\<close>; a division by zero (the
  source goes on with a non-finite number); a loop that does not end; a write past the
  end of a vertex array; an access past the end of a flag buffer; a read of a variable
  or buffer entry that was never written.
\<close>

datatype error =
  AssertionFailed | NonFinite | Diverged | VertexOutOfBounds | FlagOutOfBounds | Uninitialized

text \<open>
  The body of the sweep's \<open>if (_check_valid_bridge(...))\<close> block, the same in both
  branches of the loop: \<open>Crossing reverse x1 x2\<close> is an accepted bridge with the edge
  indices stored in \<open>x1indices[nx]\<close> and \<open>x2indices[nx]\<close>; \<open>NoCrossing\<close> is
  \<open>has_intersection = false\<close>.
\<close>

datatype bridge_step = NoBridge | Crossing bool nat nat | NoCrossing | StepFailed error

definition try_bridge :: "Poly2 \<Rightarrow> Poly2 \<Rightarrow> nat \<Rightarrow> nat \<Rightarrow> bridge_step" where
  "try_bridge p1 p2 idx1 idx2 =
     (case check_valid_bridge p1 p2 idx1 idx2 of
        AllOnOneLine \<Rightarrow> StepFailed AssertionFailed
      | NotABridge \<Rightarrow> NoBridge
      | Bridge reverse \<Rightarrow>
          (if reverse then
             (case find_intersection_under_bridge p1 p2 idx1 idx2 of
                None \<Rightarrow> StepFailed Diverged
              | Some None \<Rightarrow> NoCrossing
              | Some (Some (x1, x2)) \<Rightarrow> Crossing reverse x1 x2)
           else
             (case find_intersection_under_bridge p2 p1 idx2 idx1 of
                None \<Rightarrow> StepFailed Diverged
              | Some None \<Rightarrow> NoCrossing
              | Some (Some (x2, x1)) \<Rightarrow> Crossing reverse x1 x2)))"

text \<open>
  The sweep loop of \<open>intersect(AlgorithmT::RotatingCaliper, ...)\<close>. \<open>edge_slope p i\<close> is
  the angle of the edge that starts at vertex \<open>i\<close>. The list \<open>xs\<close> holds the pairs
  \<open>(x1indices[k], x2indices[k])\<close> for \<open>k < nx\<close>. The loop ends on every input: each
  round raises \<open>edge_angle\<close> to the angle of an edge not used before.
\<close>

definition edge_slope :: "Poly2 \<Rightarrow> nat \<Rightarrow> real" where
  "edge_slope p i = slope_pp (vertices p ! i) (vertices p ! mod_inc i (nvertices p))"

datatype sweep = Done bool "(nat \<times> nat) list" | EarlyEmpty | Aborted error

definition sweep_measure :: "Poly2 \<Rightarrow> nat \<Rightarrow> real \<Rightarrow> nat" where
  "sweep_measure p pidx a = card {k. k \<le> max pidx (nvertices p) \<and> a < edge_slope p k}"

lemma sweep_measure_advance:
  assumes "a < edge_slope p i"
  shows "sweep_measure p (mod_inc i (nvertices p)) (edge_slope p i) < sweep_measure p i a"
proof -
  let ?A' = "{k. k \<le> max (mod_inc i (nvertices p)) (nvertices p) \<and> edge_slope p i < edge_slope p k}"
  let ?A = "{k. k \<le> max i (nvertices p) \<and> a < edge_slope p k}"
  have fin: "finite ?A" by simp
  have le: "max (mod_inc i (nvertices p)) (nvertices p) \<le> max i (nvertices p)"
    by (auto simp: mod_inc_def)
  have "?A' \<subseteq> ?A" using assms le by auto
  moreover have "i \<in> ?A" using assms by simp
  moreover have "i \<notin> ?A'" by simp
  ultimately have "?A' \<subset> ?A" by blast
  then show ?thesis unfolding sweep_measure_def by (rule psubset_card_mono [OF fin])
qed

lemma sweep_measure_mono:
  assumes "a \<le> b"
  shows "sweep_measure p i b \<le> sweep_measure p i a"
  unfolding sweep_measure_def using assms by (intro card_mono) auto

function rc_sweep ::
  "Poly2 \<Rightarrow> Poly2 \<Rightarrow> nat \<Rightarrow> nat \<Rightarrow> real \<Rightarrow> bool \<Rightarrow> (nat \<times> nat) list \<Rightarrow> sweep" where
  "rc_sweep p1 p2 pidx1 pidx2 edge_angle edge_flag xs =
     (if edge_angle < edge_slope p1 pidx1 \<and>
         (edge_slope p1 pidx1 < edge_slope p2 pidx2 \<or> edge_slope p2 pidx2 < edge_angle)
      then
        (case try_bridge p1 p2 (mod_inc pidx1 (nvertices p1)) pidx2 of
           StepFailed e \<Rightarrow> Aborted e
         | NoCrossing \<Rightarrow> EarlyEmpty
         | NoBridge \<Rightarrow>
             rc_sweep p1 p2 (mod_inc pidx1 (nvertices p1)) pidx2 (edge_slope p1 pidx1) edge_flag xs
         | Crossing reverse x1 x2 \<Rightarrow>
             rc_sweep p1 p2 (mod_inc pidx1 (nvertices p1)) pidx2 (edge_slope p1 pidx1)
               (if xs = [] then \<not> reverse else edge_flag) (xs @ [(x1, x2)]))
      else if edge_angle < edge_slope p2 pidx2 \<and>
         (edge_slope p2 pidx2 < edge_slope p1 pidx1 \<or> edge_slope p1 pidx1 < edge_angle)
      then
        (case try_bridge p1 p2 pidx1 (mod_inc pidx2 (nvertices p2)) of
           StepFailed e \<Rightarrow> Aborted e
         | NoCrossing \<Rightarrow> EarlyEmpty
         | NoBridge \<Rightarrow>
             rc_sweep p1 p2 pidx1 (mod_inc pidx2 (nvertices p2)) (edge_slope p2 pidx2) edge_flag xs
         | Crossing reverse x1 x2 \<Rightarrow>
             rc_sweep p1 p2 pidx1 (mod_inc pidx2 (nvertices p2)) (edge_slope p2 pidx2)
               (if xs = [] then \<not> reverse else edge_flag) (xs @ [(x1, x2)]))
      else Done edge_flag xs)"
  by pat_completeness auto
termination
proof (relation "measure (\<lambda>(p1, p2, pidx1, pidx2, a, ef, xs).
          sweep_measure p1 pidx1 a + sweep_measure p2 pidx2 a)", goal_cases)
  case 1
  then show ?case by simp
next
  case (2 p1 p2 pidx1 pidx2 a ef xs)
  then show ?case
    using sweep_measure_advance [of a p1 pidx1]
      sweep_measure_mono [of a "edge_slope p1 pidx1" p2 pidx2] by simp
next
  case (3 p1 p2 pidx1 pidx2 a ef xs r x1 x2)
  then show ?case
    using sweep_measure_advance [of a p1 pidx1]
      sweep_measure_mono [of a "edge_slope p1 pidx1" p2 pidx2] by simp
next
  case (4 p1 p2 pidx1 pidx2 a ef xs)
  then show ?case
    using sweep_measure_advance [of a p2 pidx2]
      sweep_measure_mono [of a "edge_slope p2 pidx2" p1 pidx1] by simp
next
  case (5 p1 p2 pidx1 pidx2 a ef xs r x1 x2)
  then show ?case
    using sweep_measure_advance [of a p2 pidx2]
      sweep_measure_mono [of a "edge_slope p2 pidx2" p1 pidx1] by simp
qed

text \<open>
  Line intersection, provenance flags (\<open>(i << 1) | 1\<close> for vertex or edge \<open>i\<close> of the
  first polygon, \<open>i << 1\<close> for the second, stored in a byte) and the second half of
  the intersection: the containment case and the loop that stitches the result.
  \<open>push_vertex\<close> is \<open>result.vertices[result.nvertices++] = v\<close> with its flag and the
  \<open>assert\<close> on the capacity; \<open>make_poly cap vs\<close> is a polygon of capacity \<open>cap\<close>
  holding \<open>vs\<close>, the rest zero; \<open>assign_poly\<close> is \<open>Poly2::operator=\<close>.
\<close>

definition line2_from_xyxy :: "real \<Rightarrow> real \<Rightarrow> real \<Rightarrow> real \<Rightarrow> Line2" where
  "line2_from_xyxy x1 y1 x2 y2 = \<lparr>la = y2 - y1, lb = x1 - x2, lc = x2 * y1 - x1 * y2\<rparr>"

definition line2_from_pp :: "Point2 \<Rightarrow> Point2 \<Rightarrow> Line2" where
  "line2_from_pp p1 p2 = line2_from_xyxy (px p1) (py p1) (px p2) (py p2)"

definition intersect_lines :: "Line2 \<Rightarrow> Line2 \<Rightarrow> error + Point2" where
  "intersect_lines l1 l2 =
     (let w = la l1 * lb l2 - la l2 * lb l1 in
      if w = 0 then Inl NonFinite
      else Inr \<lparr>px = (lb l1 * lc l2 - lb l2 * lc l1) / w, py = (lc l1 * la l2 - lc l2 * la l1) / w\<rparr>)"

type_synonym flag = "8 word"

definition flag_p1 :: "nat \<Rightarrow> flag" where
  "flag_p1 i = push_bit 1 (of_nat i) OR 1"

definition flag_p2 :: "nat \<Rightarrow> flag" where
  "flag_p2 i = push_bit 1 (of_nat i)"

primrec fold_res :: "('a \<Rightarrow> 'b \<Rightarrow> error + 'b) \<Rightarrow> 'a list \<Rightarrow> 'b \<Rightarrow> error + 'b" where
  "fold_res f [] s = Inr s"
| "fold_res f (x # xs) s = (case f x s of Inl e \<Rightarrow> Inl e | Inr s' \<Rightarrow> fold_res f xs s')"

definition push_vertex ::
  "nat \<Rightarrow> Point2 \<Rightarrow> flag \<Rightarrow> Point2 list \<times> flag list \<Rightarrow> error + Point2 list \<times> flag list" where
  "push_vertex cap v f st =
     (if length (fst st) < cap then Inr (fst st @ [v], snd st @ [f]) else Inl AssertionFailed)"

definition copy_between ::
  "nat \<Rightarrow> Poly2 \<Rightarrow> (nat \<Rightarrow> flag) \<Rightarrow> nat \<Rightarrow> nat \<Rightarrow> Point2 list \<times> flag list
     \<Rightarrow> error + Point2 list \<times> flag list" where
  "copy_between cap p mk xi xn st =
     (let n = nvertices p;
          idx_next = (if xn \<ge> xi then xn else xn + n)
      in fold_res
           (\<lambda>j. let jmod = (if j < n then j else j - n)
                in push_vertex cap (vertices p ! jmod) (mk jmod))
           [xi + 1..<idx_next + 1] st)"

definition stitch_step ::
  "nat \<Rightarrow> Poly2 \<Rightarrow> Poly2 \<Rightarrow> (nat \<times> nat) list \<Rightarrow> nat
     \<Rightarrow> (Point2 list \<times> flag list) \<times> bool \<Rightarrow> error + (Point2 list \<times> flag list) \<times> bool" where
  "stitch_step cap p1 p2 xs i s =
     (let st = fst s; edge_flag = snd s;
          x1i = fst (xs ! i); x2i = snd (xs ! i);
          x1n = fst (xs ! (i + 1)); x2n = snd (xs ! (i + 1));
          l1 = line2_from_pp (vertices p1 ! x1i) (vertices p1 ! mod_inc x1i (nvertices p1));
          l2 = line2_from_pp (vertices p2 ! x2i) (vertices p2 ! mod_inc x2i (nvertices p2))
      in case intersect_lines l1 l2 of
           Inl e \<Rightarrow> Inl e
         | Inr pt \<Rightarrow>
            (case push_vertex cap pt (if edge_flag then flag_p1 x1i else flag_p2 x2i) st of
               Inl e \<Rightarrow> Inl e
             | Inr st' \<Rightarrow>
                (case (if edge_flag then copy_between cap p1 flag_p1 x1i x1n st'
                       else copy_between cap p2 flag_p2 x2i x2n st') of
                   Inl e \<Rightarrow> Inl e
                 | Inr st'' \<Rightarrow> Inr (st'', \<not> edge_flag))))"

definition zero_point :: Point2 where
  "zero_point = \<lparr>px = 0, py = 0\<rparr>"

definition make_poly :: "nat \<Rightarrow> Point2 list \<Rightarrow> Poly2" where
  "make_poly cap vs = \<lparr>vertices = vs @ replicate (cap - length vs) zero_point, nvertices = length vs\<rparr>"

definition assign_poly :: "nat \<Rightarrow> Poly2 \<Rightarrow> error + Poly2" where
  "assign_poly cap other =
     (if nvertices other \<le> cap then Inr (make_poly cap (take (nvertices other) (vertices other)))
      else Inl AssertionFailed)"

definition intersect_rc :: "Poly2 \<Rightarrow> Poly2 \<Rightarrow> error + Poly2 \<times> flag list" where
  "intersect_rc p1 p2 =
     (let pidx1 = fst (find_extreme p1); pidx2 = fst (find_extreme p2);
          cap = length (vertices p1) + length (vertices p2)
      in case rc_sweep p1 p2 pidx1 pidx2 (- pi) False [] of
           Aborted e \<Rightarrow> Inl e
         | EarlyEmpty \<Rightarrow> Inr (make_poly cap [], [])
         | Done edge_flag xs \<Rightarrow>
             if xs = [] then
               (if area p1 > area p2 then
                  (case assign_poly cap p2 of Inl e \<Rightarrow> Inl e
                   | Inr r \<Rightarrow> Inr (r, map flag_p2 [0..<nvertices p2]))
                else
                  (case assign_poly cap p1 of Inl e \<Rightarrow> Inl e
                   | Inr r \<Rightarrow> Inr (r, map flag_p1 [0..<nvertices p1])))
             else
               (case fold_res (stitch_step cap p1 p2 (xs @ [xs ! 0])) [0..<length xs]
                       (([], []), edge_flag) of
                  Inl e \<Rightarrow> Inl e
                | Inr s \<Rightarrow> Inr (make_poly cap (fst (fst s)), snd (fst s))))"

text \<open>\<open>iou(p1, p2, nx, xflags)\<close>: the value returned.\<close>

definition iou :: "Poly2 \<Rightarrow> Poly2 \<Rightarrow> error + real" where
  "iou p1 p2 =
     (case intersect_rc p1 p2 of
        Inl e \<Rightarrow> Inl e
      | Inr r \<Rightarrow>
          (let area_i = area (fst r);
               area_u = area p1 + area p2 - area_i
           in if area_u = 0 then Inl NonFinite else Inr (area_i / area_u)))"

text \<open>Concrete polygons.\<close>

definition quad :: "Point2 \<Rightarrow> Point2 \<Rightarrow> Point2 \<Rightarrow> Point2 \<Rightarrow> Poly2" where
  "quad a b c d = \<lparr>vertices = [a, b, c, d], nvertices = 4\<rparr>"

definition big_square :: Poly2 where
  "big_square = quad (mk_point 0 0) (mk_point 4 0) (mk_point 4 4) (mk_point 0 4)"

definition inner_quad :: Poly2 where
  "inner_quad = quad (mk_point 1 1) (mk_point 3 (3/2)) (mk_point (5/2) 3) (mk_point (3/2) (5/2))"

definition crossing_quad :: Poly2 where
  "crossing_quad = quad (mk_point 2 1) (mk_point 6 2) (mk_point 5 5) (mk_point 1 3)"

text \<open>Rewrite rules that evaluate the definitions on concrete polygons.\<close>

lemmas eval_geo = edge_slope_def slope_pp_def atan2_less_iff atan2_gt_neg_pi
  atan2_not_less_neg_pi angle_less_def half_plane_def
  eps_def mod_inc_def mod_dec_def cross_def mk_point_def quad_def
  try_bridge_def check_valid_bridge_def Let_def find_extreme_def find_extreme_step_def upt_1_4

lemmas eval_rc = big_square_def inner_quad_def crossing_quad_def eval_geo
  find_intersection_under_bridge.simps bridge_down_inc.simps bridge_down_dec.simps
  intersect_rc_def stitch_step_def copy_between_def push_vertex_def intersect_lines_def
  line2_from_pp_def line2_from_xyxy_def make_poly_def assign_poly_def zero_point_def
  flag_p1_def flag_p2_def area_def area_step_def iou_def

declare rc_sweep.simps [simp del]

lemma rc_sweep_same_angle:
  assumes "edge_slope p1 i1 = edge_slope p2 i2"
  shows "rc_sweep p1 p2 i1 i2 (- pi) ef xs = Done ef xs"
proof -
  have "\<not> edge_slope p2 i2 < - pi"
    using atan2_gt_neg_pi [of "py (vertices p2 ! mod_inc i2 (nvertices p2)) - py (vertices p2 ! i2) - eps"
        "px (vertices p2 ! mod_inc i2 (nvertices p2)) - px (vertices p2 ! i2)"]
    by (simp add: edge_slope_def slope_pp_def)
  then show ?thesis using assms by (simp add: rc_sweep.simps)
qed

lemma area_cong:
  assumes "nvertices q = nvertices p"
    and "\<And>i. i < nvertices p \<Longrightarrow> vertices q ! i = vertices p ! i"
  shows "area q = area p"
proof (cases "3 \<le> nvertices p")
  case True
  define n where "n = nvertices p"
  have n: "0 < n" "3 \<le> n" using True by (simp_all add: n_def)
  have "shoelace q = shoelace p"
    unfolding shoelace_def assms(1) n_def [symmetric]
  proof (rule sum.cong [OF refl])
    fix i assume "i \<in> {..<n}"
    then have "i < n" "Suc i mod n < n" using n by simp_all
    then show "shoelace_term (vertices q) n i = shoelace_term (vertices p) n i"
      using assms(2) by (simp add: shoelace_term_def n_def)
  qed
  then show ?thesis using True assms(1) by (simp add: area_eq_shoelace)
next
  case False
  then show ?thesis using assms(1) by (simp add: area_def)
qed

lemma make_poly_take:
  assumes "nvertices p \<le> length (vertices p)"
  shows "nvertices (make_poly cap (take (nvertices p) (vertices p))) = nvertices p"
    and "i < nvertices p \<Longrightarrow> vertices (make_poly cap (take (nvertices p) (vertices p))) ! i = vertices p ! i"
    and "take (nvertices p) (vertices (make_poly cap (take (nvertices p) (vertices p))))
           = take (nvertices p) (vertices p)"
  using assms by (simp_all add: make_poly_def nth_append)

lemma area_assigned:
  assumes "nvertices p \<le> length (vertices p)"
  shows "area (make_poly cap (take (nvertices p) (vertices p))) = area p"
  by (rule area_cong) (use make_poly_take [OF assms] in auto)

section \<open>Claim C3\<close>

text \<open>
  C3: for every non-degenerate convex counter-clockwise polygon \<open>A\<close>, \<open>iou(A, A)\<close> is
  1: the sweep stops at once (both polygons offer the same edge angle, so neither
  branch is taken), the containment case returns \<open>A\<close> itself, and the quotient is
  \<open>area A / area A\<close> with \<open>area A > 0\<close>.
\<close>

theorem C3_iou_self:
  assumes "ccw_convex A"
  shows "iou A A = Inr 1"
proof -
  have cap: "nvertices A \<le> length (vertices A)" using assms by (simp add: ccw_convex_def)
  have pos: "0 < area A" by (rule area_pos [OF assms])
  have sweep: "rc_sweep A A (fst (find_extreme A)) (fst (find_extreme A)) (- pi) False [] = Done False []"
    by (rule rc_sweep_same_angle) simp
  have inter: "intersect_rc A A =
      Inr (make_poly (length (vertices A) + length (vertices A)) (take (nvertices A) (vertices A)),
           map flag_p1 [0..<nvertices A])"
    using cap by (simp add: intersect_rc_def Let_def sweep assign_poly_def)
  show ?thesis
    using pos by (simp add: iou_def inter Let_def area_assigned [OF cap])
qed

theorem C3_iou_self_witness: "ccw_convex unit_square \<and> iou unit_square unit_square = Inr 1"
  using C3_iou_self [OF unit_square_ccw] unit_square_ccw by simp

lemma flag_p2_of_nat: "flag_p2 i = of_nat (2 * i)"
  by (simp add: flag_p2_def push_bit_eq_mult)

lemma flag_p1_of_nat: "flag_p1 i = of_nat (2 * i + 1)"
proof -
  have "even (of_nat (2 * i) :: 8 word)" by simp
  then show ?thesis by (simp add: flag_p1_def push_bit_eq_mult or_one_eq)
qed

lemma flag_p1_decode:
  assumes "i < 128"
  shows "drop_bit 1 (flag_p1 i) = of_nat i" and "unat (drop_bit 1 (flag_p1 i)) = i"
    and "flag_p1 i AND 1 = 1"
proof -
  have u: "unat (of_nat (2 * i + 1) :: 8 word) = 2 * i + 1"
    using assms by (simp only: unat_of_nat) simp
  have "unat (drop_bit 1 (flag_p1 i)) = drop_bit 1 (unat (flag_p1 i))"
    by (rule unat_drop_bit_eq)
  also have "unat (flag_p1 i) = 2 * i + 1" by (simp only: flag_p1_of_nat u)
  also have "drop_bit 1 (2 * i + 1) = i" by (simp add: drop_bit_eq_div)
  finally show d: "unat (drop_bit 1 (flag_p1 i)) = i" .
  have "unat (of_nat i :: 8 word) = i" using assms by (simp add: unat_of_nat)
  then show "drop_bit 1 (flag_p1 i) = of_nat i" using d by (simp add: word_unat_eq_iff)
  show "flag_p1 i AND 1 = 1"
    unfolding flag_p1_def by (rule bit_word_eqI) (auto simp: bit_simps)
qed

lemma flag_p2_decode:
  assumes "i < 128"
  shows "drop_bit 1 (flag_p2 i) = of_nat i" and "unat (drop_bit 1 (flag_p2 i)) = i"
    and "flag_p2 i AND 1 = 0"
proof -
  have u: "unat (of_nat (2 * i) :: 8 word) = 2 * i"
    using assms by (simp only: unat_of_nat) simp
  have "unat (drop_bit 1 (flag_p2 i)) = drop_bit 1 (unat (flag_p2 i))"
    by (rule unat_drop_bit_eq)
  also have "unat (flag_p2 i) = 2 * i" by (simp only: flag_p2_of_nat u)
  also have "drop_bit 1 (2 * i) = i" by (simp add: drop_bit_eq_div)
  finally show d: "unat (drop_bit 1 (flag_p2 i)) = i" .
  have "unat (of_nat i :: 8 word) = i" using assms by (simp add: unat_of_nat)
  then show "drop_bit 1 (flag_p2 i) = of_nat i" using d by (simp add: word_unat_eq_iff)
  have "even (flag_p2 i)" by (simp add: flag_p2_of_nat)
  then show "flag_p2 i AND 1 = 0" by (simp add: and_one_eq mod_2_eq_odd)
qed

section \<open>Claim C2\<close>

text \<open>
  C2: if the sweep of the rotating-caliper intersection ends with no bridge accepted
  (and so without the early return of an empty polygon), the function returns the
  operand of smaller area verbatim (\<open>p2\<close> when \<open>area p1 > area p2\<close>, else \<open>p1\<close>): the
  same vertex count and the same vertices in the same order; and flag \<open>i\<close> holds
  \<open>i\<close> in its high seven bits and, in its low bit, 1 exactly when the operand
  returned is \<open>p1\<close>. The polygons hold at most 128 vertices, within their capacity.
\<close>

theorem C2_containment:
  assumes sweep: "rc_sweep p1 p2 (fst (find_extreme p1)) (fst (find_extreme p2)) (- pi) False [] = Done ef []"
    and cap1: "nvertices p1 \<le> length (vertices p1)"
    and cap2: "nvertices p2 \<le> length (vertices p2)"
    and n1: "nvertices p1 \<le> 128"
    and n2: "nvertices p2 \<le> 128"
  shows "\<exists>r flags. intersect_rc p1 p2 = Inr (r, flags) \<and>
     (area p2 < area p1 \<longrightarrow>
        nvertices r = nvertices p2 \<and>
        take (nvertices p2) (vertices r) = take (nvertices p2) (vertices p2) \<and>
        length flags = nvertices p2 \<and>
        (\<forall>i<nvertices p2. unat (drop_bit 1 (flags ! i)) = i \<and> flags ! i AND 1 = 0)) \<and>
     (area p1 \<le> area p2 \<longrightarrow>
        nvertices r = nvertices p1 \<and>
        take (nvertices p1) (vertices r) = take (nvertices p1) (vertices p1) \<and>
        length flags = nvertices p1 \<and>
        (\<forall>i<nvertices p1. unat (drop_bit 1 (flags ! i)) = i \<and> flags ! i AND 1 = 1))"
proof (cases "area p2 < area p1")
  case True
  define cap where "cap = length (vertices p1) + length (vertices p2)"
  have fit: "nvertices p2 \<le> cap" using cap2 by (simp add: cap_def)
  have run: "intersect_rc p1 p2 =
      Inr (make_poly cap (take (nvertices p2) (vertices p2)), map flag_p2 [0..<nvertices p2])"
    using True fit by (simp add: intersect_rc_def Let_def sweep assign_poly_def cap_def)
  have fl: "\<forall>i<nvertices p2. unat (drop_bit 1 (map flag_p2 [0..<nvertices p2] ! i)) = i \<and>
        map flag_p2 [0..<nvertices p2] ! i AND 1 = 0"
  proof (intro allI impI)
    fix i assume i: "i < nvertices p2"
    then have "i < 128" using n2 by simp
    moreover have "map flag_p2 [0..<nvertices p2] ! i = flag_p2 i" using i by simp
    ultimately show "unat (drop_bit 1 (map flag_p2 [0..<nvertices p2] ! i)) = i \<and>
        map flag_p2 [0..<nvertices p2] ! i AND 1 = 0"
      using flag_p2_decode(2,3) [of i] by (simp only:)
  qed
  show ?thesis
    using True run fl make_poly_take [OF cap2, of cap] by simp
next
  case False
  define cap where "cap = length (vertices p1) + length (vertices p2)"
  have fit: "nvertices p1 \<le> cap" using cap1 by (simp add: cap_def)
  have run: "intersect_rc p1 p2 =
      Inr (make_poly cap (take (nvertices p1) (vertices p1)), map flag_p1 [0..<nvertices p1])"
    using False fit by (simp add: intersect_rc_def Let_def sweep assign_poly_def cap_def)
  have fl: "\<forall>i<nvertices p1. unat (drop_bit 1 (map flag_p1 [0..<nvertices p1] ! i)) = i \<and>
        map flag_p1 [0..<nvertices p1] ! i AND 1 = 1"
  proof (intro allI impI)
    fix i assume i: "i < nvertices p1"
    then have "i < 128" using n1 by simp
    moreover have "map flag_p1 [0..<nvertices p1] ! i = flag_p1 i" using i by simp
    ultimately show "unat (drop_bit 1 (map flag_p1 [0..<nvertices p1] ! i)) = i \<and>
        map flag_p1 [0..<nvertices p1] ! i AND 1 = 1"
      using flag_p1_decode(2,3) [of i] by (simp only:)
  qed
  show ?thesis
    using False run fl make_poly_take [OF cap1, of cap] by simp
qed

lemma sweep_big_inner:
  "rc_sweep big_square inner_quad (fst (find_extreme big_square)) (fst (find_extreme inner_quad))
     (- pi) False [] = Done False []"
  by (simp add: big_square_def inner_quad_def eval_geo rc_sweep.simps)

lemma area_big_inner: "area inner_quad < area big_square"
  by (simp add: big_square_def inner_quad_def quad_def mk_point_def area_def Let_def upt_1_4 area_step_def)

theorem C2_containment_witness:
  "rc_sweep big_square inner_quad (fst (find_extreme big_square)) (fst (find_extreme inner_quad))
     (- pi) False [] = Done False [] \<and>
   nvertices big_square \<le> length (vertices big_square) \<and>
   nvertices inner_quad \<le> length (vertices inner_quad) \<and>
   nvertices big_square \<le> 128 \<and> nvertices inner_quad \<le> 128 \<and>
   area inner_quad < area big_square \<and>
   (\<exists>r flags. intersect_rc big_square inner_quad = Inr (r, flags) \<and>
      nvertices r = 4 \<and> take 4 (vertices r) = vertices inner_quad \<and> length flags = 4 \<and>
      unat (drop_bit 1 (flags ! 3)) = 3 \<and> flags ! 3 AND 1 = 0)"
proof -
  have c1: "nvertices big_square \<le> length (vertices big_square)"
    and c2: "nvertices inner_quad \<le> length (vertices inner_quad)"
    and m1: "nvertices big_square \<le> 128" and m2: "nvertices inner_quad \<le> 128"
    and n: "nvertices inner_quad = 4" and l: "take 4 (vertices inner_quad) = vertices inner_quad"
    by (simp_all add: big_square_def inner_quad_def quad_def)
  from C2_containment [OF sweep_big_inner c1 c2 m1 m2] area_big_inner
  obtain r flags where "intersect_rc big_square inner_quad = Inr (r, flags)"
    "nvertices r = nvertices inner_quad"
    "take (nvertices inner_quad) (vertices r) = take (nvertices inner_quad) (vertices inner_quad)"
    "length flags = nvertices inner_quad"
    "\<forall>i<nvertices inner_quad. unat (drop_bit 1 (flags ! i)) = i \<and> flags ! i AND 1 = 0"
    by blast
  then have "intersect_rc big_square inner_quad = Inr (r, flags) \<and>
      nvertices r = 4 \<and> take 4 (vertices r) = vertices inner_quad \<and> length flags = 4 \<and>
      unat (drop_bit 1 (flags ! 3)) = 3 \<and> flags ! 3 AND 1 = 0"
    using n l by simp
  then show ?thesis using sweep_big_inner c1 c2 m1 m2 area_big_inner by blast
qed

section \<open>Merge, diameter and the composite metrics (geometry.hpp)\<close>

text \<open>
  \<open>distance(Point2, Point2)\<close> with \<open>hypot\<close>, \<open>Point2::operator+=\<close> and
  \<open>centroid(Poly2)\<close>; the division by a vertex count of zero has no real value.
\<close>

definition hypot :: "real \<Rightarrow> real \<Rightarrow> real" where
  "hypot a b = sqrt (a * a + b * b)"

definition distance :: "Point2 \<Rightarrow> Point2 \<Rightarrow> real" where
  "distance p1 p2 = hypot (px p1 - px p2) (py p1 - py p2)"

definition point_add :: "Point2 \<Rightarrow> Point2 \<Rightarrow> Point2" where
  "point_add a rhs = \<lparr>px = px a + px rhs, py = py a + py rhs\<rparr>"

definition centroid :: "Poly2 \<Rightarrow> error + Point2" where
  "centroid p =
     (let s = fold (\<lambda>i r. point_add r (vertices p ! i)) [0..<nvertices p] zero_point
      in if nvertices p = 0 then Inl NonFinite
         else Inr \<lparr>px = px s / real (nvertices p), py = py s / real (nvertices p)\<rparr>)"

text \<open>
  \<open>dimension(p, flag1, flag2)\<close>. \<open>dimension_advance\<close> is the inner \<open>while\<close> loop, which
  need not end on every input; \<open>dimension_update\<close> is one \<open>if (d > dmax)\<close> block;
  the state of the outer loop is \<open>((v, vnext), dmax, flags)\<close>, the flags \<open>None\<close> until
  first written. The result is the value returned and the two flags.
\<close>

partial_function (option) dimension_advance ::
  "Poly2 \<Rightarrow> nat \<Rightarrow> nat \<Rightarrow> nat \<Rightarrow> nat \<Rightarrow> (nat \<times> nat) option" where
  "dimension_advance p u unext v vnext =
     (if cross (vertices p ! u) (vertices p ! unext) (vertices p ! v)
           \<le> cross (vertices p ! u) (vertices p ! unext) (vertices p ! vnext)
      then dimension_advance p u unext vnext (mod_inc vnext (nvertices p))
      else Some (v, vnext))"

definition dimension_update ::
  "Poly2 \<Rightarrow> nat \<Rightarrow> nat \<Rightarrow> real \<times> (nat \<times> nat) option \<Rightarrow> real \<times> (nat \<times> nat) option" where
  "dimension_update p w v st =
     (let d = distance (vertices p ! w) (vertices p ! v)
      in if d > fst st then (d, Some (w, v)) else st)"

definition dimension_step ::
  "Poly2 \<Rightarrow> nat \<Rightarrow> (nat \<times> nat) \<times> real \<times> (nat \<times> nat) option
     \<Rightarrow> ((nat \<times> nat) \<times> real \<times> (nat \<times> nat) option) option" where
  "dimension_step p u s =
     (let unext = mod_inc u (nvertices p) in
      case dimension_advance p u unext (fst (fst s)) (snd (fst s)) of
        None \<Rightarrow> None
      | Some (v, vnext) \<Rightarrow>
          Some ((v, vnext), dimension_update p unext v (dimension_update p u v (snd s))))"

definition dimension :: "Poly2 \<Rightarrow> (real \<times> (nat \<times> nat) option) option" where
  "dimension p =
     (if nvertices p \<le> 1 then Some (0, None)
      else if nvertices p = 2 then Some (distance (vertices p ! 0) (vertices p ! 1), Some (0, 1))
      else map_option snd (fold_opt (dimension_step p) [0..<nvertices p] ((1, 2), 0, None)))"

text \<open>
  \<open>merge(p1, p2, mflags)\<close>. \<open>cap\<close> is the capacity \<open>MaxPoints1 + MaxPoints2\<close> of the
  result and \<open>fcap\<close> the size of the buffer passed as \<open>mflags\<close> (\<open>None\<close> for
  \<open>nullptr\<close>). \<open>register_vertex\<close> is the body shared by the lambdas
  \<open>register_p1point\<close> and \<open>register_p2point\<close>: the flag is written at index
  \<open>result.nvertices\<close> first, then the vertex. \<open>merge_bridge\<close> is the \<open>if
  (_check_valid_bridge(...))\<close> block of a round; \<open>merge_step_p1\<close> and
  \<open>merge_step_p2\<close> are the two branches of the loop up to the pointer update.
\<close>

definition register_vertex ::
  "nat \<Rightarrow> nat option \<Rightarrow> Point2 \<Rightarrow> flag \<Rightarrow> Point2 list \<times> flag list
     \<Rightarrow> error + Point2 list \<times> flag list" where
  "register_vertex cap fcap v f out =
     (case fcap of
        Some c \<Rightarrow>
          if length (fst out) < c then
            (if length (fst out) < cap then Inr (fst out @ [v], snd out @ [f])
             else Inl VertexOutOfBounds)
          else Inl FlagOutOfBounds
      | None \<Rightarrow>
          if length (fst out) < cap then Inr (fst out @ [v], snd out)
          else Inl VertexOutOfBounds)"

definition register_p1point ::
  "nat \<Rightarrow> nat option \<Rightarrow> Poly2 \<Rightarrow> nat \<Rightarrow> Point2 list \<times> flag list
     \<Rightarrow> error + Point2 list \<times> flag list" where
  "register_p1point cap fcap p1 i1 out = register_vertex cap fcap (vertices p1 ! i1) (flag_p1 i1) out"

definition register_p2point ::
  "nat \<Rightarrow> nat option \<Rightarrow> Poly2 \<Rightarrow> nat \<Rightarrow> Point2 list \<times> flag list
     \<Rightarrow> error + Point2 list \<times> flag list" where
  "register_p2point cap fcap p2 i2 out = register_vertex cap fcap (vertices p2 ! i2) (flag_p2 i2) out"

definition register_point ::
  "nat \<Rightarrow> nat option \<Rightarrow> Poly2 \<Rightarrow> Poly2 \<Rightarrow> bool \<Rightarrow> nat \<Rightarrow> nat \<Rightarrow> Point2 list \<times> flag list
     \<Rightarrow> error + Point2 list \<times> flag list" where
  "register_point cap fcap p1 p2 edge_flag i1 i2 out =
     (if edge_flag then register_p1point cap fcap p1 i1 out
      else register_p2point cap fcap p2 i2 out)"

definition merge_bridge ::
  "nat \<Rightarrow> nat option \<Rightarrow> Poly2 \<Rightarrow> Poly2 \<Rightarrow> nat \<Rightarrow> nat \<Rightarrow> bool \<Rightarrow> Point2 list \<times> flag list
     \<Rightarrow> error + bool \<times> Point2 list \<times> flag list" where
  "merge_bridge cap fcap p1 p2 i1 i2 edge_flag out =
     (case check_valid_bridge p1 p2 i1 i2 of
        AllOnOneLine \<Rightarrow> Inl AssertionFailed
      | NotABridge \<Rightarrow> Inr (edge_flag, out)
      | Bridge reverse \<Rightarrow>
          (case register_point cap fcap p1 p2 edge_flag i1 i2 out of
             Inl e \<Rightarrow> Inl e
           | Inr out' \<Rightarrow> Inr (\<not> edge_flag, out')))"

definition merge_step_p1 ::
  "nat \<Rightarrow> nat option \<Rightarrow> Poly2 \<Rightarrow> Poly2 \<Rightarrow> nat \<Rightarrow> nat \<Rightarrow> bool \<Rightarrow> Point2 list \<times> flag list
     \<Rightarrow> error + bool \<times> Point2 list \<times> flag list" where
  "merge_step_p1 cap fcap p1 p2 pidx1 pidx2 edge_flag out =
     (case (if edge_flag then register_p1point cap fcap p1 pidx1 out else Inr out) of
        Inl e \<Rightarrow> Inl e
      | Inr out' \<Rightarrow> merge_bridge cap fcap p1 p2 (mod_inc pidx1 (nvertices p1)) pidx2 edge_flag out')"

definition merge_step_p2 ::
  "nat \<Rightarrow> nat option \<Rightarrow> Poly2 \<Rightarrow> Poly2 \<Rightarrow> nat \<Rightarrow> nat \<Rightarrow> bool \<Rightarrow> Point2 list \<times> flag list
     \<Rightarrow> error + bool \<times> Point2 list \<times> flag list" where
  "merge_step_p2 cap fcap p1 p2 pidx1 pidx2 edge_flag out =
     (case (if \<not> edge_flag then register_p2point cap fcap p2 pidx2 out else Inr out) of
        Inl e \<Rightarrow> Inl e
      | Inr out' \<Rightarrow> merge_bridge cap fcap p1 p2 pidx1 (mod_inc pidx2 (nvertices p2)) edge_flag out')"

function merge_sweep ::
  "nat \<Rightarrow> nat option \<Rightarrow> Poly2 \<Rightarrow> Poly2 \<Rightarrow> nat \<Rightarrow> nat \<Rightarrow> real \<Rightarrow> bool \<Rightarrow> Point2 list \<times> flag list
     \<Rightarrow> error + Point2 list \<times> flag list" where
  "merge_sweep cap fcap p1 p2 pidx1 pidx2 edge_angle edge_flag out =
     (if edge_angle < edge_slope p1 pidx1 \<and>
         (edge_slope p1 pidx1 < edge_slope p2 pidx2 \<or> edge_slope p2 pidx2 < edge_angle)
      then
        (case merge_step_p1 cap fcap p1 p2 pidx1 pidx2 edge_flag out of
           Inl e \<Rightarrow> Inl e
         | Inr s \<Rightarrow>
             merge_sweep cap fcap p1 p2 (mod_inc pidx1 (nvertices p1)) pidx2 (edge_slope p1 pidx1)
               (fst s) (snd s))
      else if edge_angle < edge_slope p2 pidx2 \<and>
         (edge_slope p2 pidx2 < edge_slope p1 pidx1 \<or> edge_slope p1 pidx1 < edge_angle)
      then
        (case merge_step_p2 cap fcap p1 p2 pidx1 pidx2 edge_flag out of
           Inl e \<Rightarrow> Inl e
         | Inr s \<Rightarrow>
             merge_sweep cap fcap p1 p2 pidx1 (mod_inc pidx2 (nvertices p2)) (edge_slope p2 pidx2)
               (fst s) (snd s))
      else Inr out)"
  by pat_completeness auto
termination
proof (relation "measure (\<lambda>(cap, fcap, p1, p2, pidx1, pidx2, a, ef, out).
          sweep_measure p1 pidx1 a + sweep_measure p2 pidx2 a)", goal_cases)
  case 1
  then show ?case by simp
next
  case (2 cap fcap p1 p2 pidx1 pidx2 a ef out s)
  then show ?case
    using sweep_measure_advance [of a p1 pidx1]
      sweep_measure_mono [of a "edge_slope p1 pidx1" p2 pidx2] by simp
next
  case (3 cap fcap p1 p2 pidx1 pidx2 a ef out s)
  then show ?case
    using sweep_measure_advance [of a p2 pidx2]
      sweep_measure_mono [of a "edge_slope p2 pidx2" p1 pidx1] by simp
qed

declare merge_sweep.simps [simp del]

text \<open>
  The choice of the starting value of \<open>edge_flag\<close> (from \<open>y_max1 > y_max2\<close>, adjusted
  when the two top vertices already form a bridge), and \<open>merge\<close> itself.
\<close>

definition merge_start_flag :: "Poly2 \<Rightarrow> Poly2 \<Rightarrow> nat \<Rightarrow> nat \<Rightarrow> bool \<Rightarrow> error + bool" where
  "merge_start_flag p1 p2 pidx1 pidx2 edge_flag =
     (case check_valid_bridge p1 p2 pidx1 pidx2 of
        AllOnOneLine \<Rightarrow> Inl AssertionFailed
      | NotABridge \<Rightarrow> Inr edge_flag
      | Bridge reverse \<Rightarrow>
          (if edge_flag then
             (if slope_pp (vertices p1 ! pidx1) (vertices p2 ! pidx2) < edge_slope p1 pidx1
              then Inr False else Inr edge_flag)
           else
             (if slope_pp (vertices p2 ! pidx2) (vertices p1 ! pidx1) < edge_slope p2 pidx2
              then Inr True else Inr edge_flag)))"

definition merge :: "nat option \<Rightarrow> Poly2 \<Rightarrow> Poly2 \<Rightarrow> error + Poly2 \<times> flag list" where
  "merge fcap p1 p2 =
     (let e1 = find_extreme p1; e2 = find_extreme p2;
          cap = length (vertices p1) + length (vertices p2)
      in case merge_start_flag p1 p2 (fst e1) (fst e2) (snd e1 > snd e2) of
           Inl e \<Rightarrow> Inl e
         | Inr edge_flag \<Rightarrow>
             (case merge_sweep cap fcap p1 p2 (fst e1) (fst e2) (- pi) edge_flag ([], []) of
                Inl e \<Rightarrow> Inl e
              | Inr out \<Rightarrow> Inr (make_poly cap (fst out), snd out)))"

text \<open>
  \<open>giou(p1, p2, nx, nm, xflags, mflags)\<close> with no flag buffers, and
  \<open>diou(p1, p2, nx, dflag1, dflag2, xflags)\<close>, whose local buffer is
  \<open>uint8_t mflags[8]\<close>: the value returned and the two flags read from the buffer.
  A quotient with denominator zero has no real value.
\<close>

definition giou :: "Poly2 \<Rightarrow> Poly2 \<Rightarrow> error + real" where
  "giou p1 p2 =
     (case intersect_rc p1 p2 of
        Inl e \<Rightarrow> Inl e
      | Inr ri \<Rightarrow>
          (case merge None p1 p2 of
             Inl e \<Rightarrow> Inl e
           | Inr rm \<Rightarrow>
               (let area_i = area (fst ri);
                    area_m = area (fst rm);
                    area_u = area p1 + area p2 - area_i
                in if area_u = 0 \<or> area_m = 0 then Inl NonFinite
                   else Inr (area_i / area_u + area_u / area_m - 1))))"

definition read_flag :: "nat \<Rightarrow> flag list \<Rightarrow> nat \<Rightarrow> error + flag" where
  "read_flag c fl i =
     (if c \<le> i then Inl FlagOutOfBounds
      else if length fl \<le> i then Inl Uninitialized
      else Inr (fl ! i))"

definition diou :: "Poly2 \<Rightarrow> Poly2 \<Rightarrow> error + real \<times> flag \<times> flag" where
  "diou p1 p2 =
     (case iou p1 p2 of
        Inl e \<Rightarrow> Inl e
      | Inr piou \<Rightarrow>
     (case centroid p1 of
        Inl e \<Rightarrow> Inl e
      | Inr c1 \<Rightarrow>
     (case centroid p2 of
        Inl e \<Rightarrow> Inl e
      | Inr c2 \<Rightarrow>
     (case merge (Some 8) p1 p2 of
        Inl e \<Rightarrow> Inl e
      | Inr rm \<Rightarrow>
     (case dimension (fst rm) of
        None \<Rightarrow> Inl Diverged
      | Some (maxd, None) \<Rightarrow> Inl Uninitialized
      | Some (maxd, Some (idx1, idx2)) \<Rightarrow>
     (case read_flag 8 (snd rm) idx1 of
        Inl e \<Rightarrow> Inl e
      | Inr dflag1 \<Rightarrow>
     (case read_flag 8 (snd rm) idx2 of
        Inl e \<Rightarrow> Inl e
      | Inr dflag2 \<Rightarrow>
          (let cd = distance c1 c2 in
           if maxd * maxd = 0 then Inl NonFinite
           else Inr (piou - (cd * cd) / (maxd * maxd), dflag1, dflag2)))))))))"

text \<open>
  Concrete polygons: two convex polygons of five and four vertices whose nine
  vertices are all vertices of their convex hull, and the hull and the intersection of
  \<open>big_square\<close> and \<open>crossing_quad\<close>.
\<close>

definition hull_part1 :: Poly2 where
  "hull_part1 = \<lparr>vertices = [mk_point 10 10, mk_point 7 9, mk_point 6 8, mk_point 4 5, mk_point 5 2],
                  nvertices = 5\<rparr>"

definition hull_part2 :: Poly2 where
  "hull_part2 = \<lparr>vertices = [mk_point 8 0, mk_point 11 1, mk_point 14 5, mk_point 13 9],
                  nvertices = 4\<rparr>"

definition big_crossing_hull :: Poly2 where
  "big_crossing_hull =
     \<lparr>vertices = [mk_point 5 5, mk_point 0 4, mk_point 0 0, mk_point 4 0, mk_point 6 2,
                  mk_point 0 0, mk_point 0 0, mk_point 0 0],
      nvertices = 5\<rparr>"

definition big_crossing_intersection :: Poly2 where
  "big_crossing_intersection =
     \<lparr>vertices = [mk_point 3 4, mk_point 1 3, mk_point 2 1, mk_point 4 (3 / 2), mk_point 4 4,
                  mk_point 0 0, mk_point 0 0, mk_point 0 0],
      nvertices = 5\<rparr>"

lemma upt_1_5: "[Suc 0..<5] = [Suc 0, 2, 3, 4]"
  by code_simp

lemmas eval_merge = eval_rc merge_def merge_start_flag_def merge_sweep.simps merge_step_p1_def
  merge_step_p2_def merge_bridge_def register_point_def register_p1point_def register_p2point_def
  register_vertex_def hull_part1_def hull_part2_def upt_1_5 rc_sweep.simps


lemma upt_0_5: "[0..<5] = [0, Suc 0, 2, 3, 4]"
  by code_simp

lemma upt_0_4: "[0..<4] = [0, Suc 0, 2, 3]"
  by code_simp

lemmas eval_diou = eval_merge diou_def giou_def centroid_def distance_def hypot_def point_add_def
  dimension_def dimension_step_def dimension_update_def dimension_advance.simps read_flag_def
  upt_0_5 upt_0_4


lemma all_less_list_all: "(\<forall>i<n. P i) \<longleftrightarrow> list_all P [0..<n]"
  by (auto simp: list_all_iff)

lemma ex_less_list_ex: "(\<exists>i<n. P i) \<longleftrightarrow> list_ex P [0..<n]"
  by (auto simp: list_ex_iff)

lemma hull_part1_ccw: "ccw_convex hull_part1"
  by (simp add: ccw_convex_def left_of_all_edges_def strictly_left_somewhere_def
      all_less_list_all ex_less_list_ex hull_part1_def upt_0_5 cross_def mk_point_def)

lemma hull_part2_ccw: "ccw_convex hull_part2"
  by (simp add: ccw_convex_def left_of_all_edges_def strictly_left_somewhere_def
      all_less_list_all ex_less_list_ex hull_part2_def upt_0_4 cross_def mk_point_def)

lemma distance_squared:
  "distance c1 c2 * distance c1 c2 = (px c1 - px c2)\<^sup>2 + (py c1 - py c2)\<^sup>2"
proof -
  have "0 \<le> (px c1 - px c2) * (px c1 - px c2) + (py c1 - py c2) * (py c1 - py c2)" by simp
  then show ?thesis
    by (simp add: distance_def hypot_def power2_eq_square)
qed

lemma read_flag_Inr:
  "read_flag c fl i = Inr f \<longleftrightarrow> i < c \<and> i < length fl \<and> f = fl ! i"
  by (auto simp: read_flag_def)

lemma C3_iou_self_aux: "iou unit_square unit_square = Inr 1"
  by (simp add: eval_diou unit_square_def)

section \<open>The value of diou\<close>

text \<open>
  \<open>diou\<close> unfolded: it returns a value exactly when \<open>iou\<close>, the two centroids,
  \<open>merge\<close> (into the 8-byte flag buffer) and \<open>dimension\<close> return one, the two
  indices found by \<open>dimension\<close> lie in the written part of the buffer, and the
  diameter is not zero; the value is then \<open>iou\<close> minus the squared distance of the
  centroids divided by the squared diameter.
\<close>

lemma diou_returns_iff:
  "(\<exists>f1 f2. diou p1 p2 = Inr (v, f1, f2)) \<longleftrightarrow>
   (\<exists>piou c1 c2 pm mflags maxd idx1 idx2.
      iou p1 p2 = Inr piou \<and> centroid p1 = Inr c1 \<and> centroid p2 = Inr c2 \<and>
      merge (Some 8) p1 p2 = Inr (pm, mflags) \<and>
      dimension pm = Some (maxd, Some (idx1, idx2)) \<and>
      idx1 < 8 \<and> idx1 < length mflags \<and> idx2 < 8 \<and> idx2 < length mflags \<and>
      maxd \<noteq> 0 \<and>
      v = piou - ((px c1 - px c2)\<^sup>2 + (py c1 - py c2)\<^sup>2) / maxd\<^sup>2)"
  (is "?L \<longleftrightarrow> ?R")
proof
  assume ?L
  then obtain f1 f2 where d: "diou p1 p2 = Inr (v, f1, f2)" by blast
  then show ?R
    unfolding diou_def
    by (auto simp: Let_def read_flag_Inr distance_squared power2_eq_square
        split: sum.splits option.splits prod.splits if_splits)
next
  assume ?R
  then obtain piou c1 c2 pm mflags maxd idx1 idx2 where
    h: "iou p1 p2 = Inr piou" "centroid p1 = Inr c1" "centroid p2 = Inr c2"
      "merge (Some 8) p1 p2 = Inr (pm, mflags)"
      "dimension pm = Some (maxd, Some (idx1, idx2))"
      "idx1 < 8" "idx1 < length mflags" "idx2 < 8" "idx2 < length mflags" "maxd \<noteq> 0"
      "v = piou - ((px c1 - px c2)\<^sup>2 + (py c1 - py c2)\<^sup>2) / maxd\<^sup>2"
    by blast
  have r1: "read_flag 8 mflags idx1 = Inr (mflags ! idx1)"
    and r2: "read_flag 8 mflags idx2 = Inr (mflags ! idx2)"
    using h by (simp_all add: read_flag_def)
  have "diou p1 p2 = Inr (v, mflags ! idx1, mflags ! idx2)"
    using h by (simp add: diou_def r1 r2 Let_def distance_squared power2_eq_square)
  then show ?L by blast
qed

text \<open>
  An ordinary pair: the square \<open>big_square\<close> and the quadrilateral \<open>crossing_quad\<close>
  that crosses it. Their hull has five vertices, and \<open>diou\<close> returns
  \<open>13 / 42 - (45 / 16) / 50\<close>.
\<close>

lemma iou_big_crossing: "iou big_square crossing_quad = Inr (13 / 42)"
  by (simp add: eval_diou)

lemma centroid_big: "centroid big_square = Inr (mk_point 2 2)"
  by (simp add: eval_diou)

lemma centroid_crossing: "centroid crossing_quad = Inr (mk_point (7 / 2) (11 / 4))"
  by (simp add: eval_diou)

lemma merge_big_crossing:
  "merge (Some 8) big_square crossing_quad = Inr (big_crossing_hull, [4, 7, 1, 3, 2])"
  by (simp add: eval_diou big_crossing_hull_def)

lemma dimension_hull: "dimension big_crossing_hull = Some (sqrt 50, Some (2, 0))"
  by (simp add: eval_diou big_crossing_hull_def)

lemma diou_big_crossing:
  "\<exists>f1 f2. diou big_square crossing_quad = Inr (851 / 3360, f1, f2)"
proof -
  have "\<exists>piou c1 c2 pm mflags maxd idx1 idx2.
      iou big_square crossing_quad = Inr piou \<and> centroid big_square = Inr c1 \<and>
      centroid crossing_quad = Inr c2 \<and>
      merge (Some 8) big_square crossing_quad = Inr (pm, mflags) \<and>
      dimension pm = Some (maxd, Some (idx1, idx2)) \<and>
      idx1 < 8 \<and> idx1 < length mflags \<and> idx2 < 8 \<and> idx2 < length mflags \<and>
      maxd \<noteq> 0 \<and>
      851 / 3360 = piou - ((px c1 - px c2)\<^sup>2 + (py c1 - py c2)\<^sup>2) / maxd\<^sup>2"
    apply (rule exI [of _ "13 / 42"])
    apply (rule exI [of _ "mk_point 2 2"])
    apply (rule exI [of _ "mk_point (7 / 2) (11 / 4)"])
    apply (rule exI [of _ big_crossing_hull])
    apply (rule exI [of _ "[4, 7, 1, 3, 2]"])
    apply (rule exI [of _ "sqrt 50"])
    apply (rule exI [of _ 2])
    apply (rule exI [of _ 0])
    apply (simp add: iou_big_crossing centroid_big centroid_crossing merge_big_crossing
        dimension_hull mk_point_def power2_eq_square)
    done
  then show ?thesis
    using diou_returns_iff [of big_square crossing_quad "851 / 3360"] by blast
qed

section \<open>Claim C7\<close>













section \<open>Claim C10\<close>

text \<open>
  C10 says that every access of \<open>diou\<close> to its 8-byte flag buffer has an index below
  8, for polygons of any capacity. The code does not keep that: for the two convex
  counter-clockwise polygons \<open>hull_part1\<close> (five vertices) and \<open>hull_part2\<close> (four
  vertices), \<open>iou\<close> returns 0, \<open>merge\<close> registers nine hull vertices, and inside
  \<open>diou\<close> the ninth flag is written at index 8 of the buffer.
\<close>

theorem C10_diou_flag_buffer_overflow:
  "ccw_convex hull_part1 \<and> ccw_convex hull_part2 \<and>
   iou hull_part1 hull_part2 = Inr 0 \<and>
   (\<exists>pm. merge None hull_part1 hull_part2 = Inr (pm, []) \<and> nvertices pm = 9) \<and>
   merge (Some 8) hull_part1 hull_part2 = Inl FlagOutOfBounds \<and>
   diou hull_part1 hull_part2 = Inl FlagOutOfBounds"
proof -
  have i: "iou hull_part1 hull_part2 = Inr 0" by (simp add: eval_diou)
  have m: "\<exists>pm. merge None hull_part1 hull_part2 = Inr (pm, []) \<and> nvertices pm = 9"
    by (simp add: eval_diou)
  have m8: "merge (Some 8) hull_part1 hull_part2 = Inl FlagOutOfBounds" by (simp add: eval_diou)
  have c1: "\<exists>c. centroid hull_part1 = Inr c" by (simp add: eval_diou)
  have c2: "\<exists>c. centroid hull_part2 = Inr c" by (simp add: eval_diou)
  have d: "diou hull_part1 hull_part2 = Inl FlagOutOfBounds"
    using c1 c2 by (auto simp: diou_def i m8)
  show ?thesis using hull_part1_ccw hull_part2_ccw i m m8 d by simp
qed

section \<open>Claim C6\<close>

text \<open>
  On the ordinary pair \<open>big_square\<close>, \<open>crossing_quad\<close> the merged hull has area 24,
  the union has area 21, and \<open>giou\<close> is below \<open>iou\<close>.
\<close>

lemma intersect_big_crossing:
  "intersect_rc big_square crossing_quad = Inr (big_crossing_intersection, [4, 6, 0, 3, 5])"
  by (simp add: eval_diou big_crossing_intersection_def)

lemma merge_none_big_crossing:
  "merge None big_square crossing_quad = Inr (big_crossing_hull, [])"
  by (simp add: eval_diou big_crossing_hull_def)

lemma areas_big_crossing:
  "area big_square = 16" "area crossing_quad = 23 / 2" "area big_crossing_intersection = 13 / 2"
  "area big_crossing_hull = 24"
  by (simp_all add: eval_diou big_crossing_intersection_def big_crossing_hull_def)

lemma giou_big_crossing:
  "giou big_square crossing_quad = Inr (31 / 168) \<and> iou big_square crossing_quad = Inr (13 / 42)"
  by (simp add: giou_def Let_def intersect_big_crossing merge_none_big_crossing
      areas_big_crossing iou_big_crossing)

text \<open>
  On two identical polygons \<open>merge\<close> tests the bridge between the two equal top
  vertices, finds all four cross products zero and stops at the \<open>assert(false)\<close> of
  \<open>_check_valid_bridge\<close>, which is there for that configuration.
\<close>

lemma giou_identical_squares: "giou unit_square unit_square = Inl AssertionFailed"
  by (simp add: eval_diou unit_square_def)

text \<open>
  Two triangles that cross each other. No three of their six vertices are on a
  line, and no edge is parallel to an axis; the edge from \<open>(5, 4)\<close> to \<open>(0, 5)\<close> of
  the first and the edge from \<open>(4, 6)\<close> to \<open>(-1, 7)\<close> of the second have the same
  direction. \<open>tie_intersection\<close> and \<open>tie_hull\<close> are what \<open>intersect\<close> and \<open>merge\<close>
  return for them, in the capacity \<open>3 + 3\<close>.
\<close>

definition tie_part1 :: Poly2 where
  "tie_part1 = \<lparr>vertices = [mk_point 0 5, mk_point 2 0, mk_point 5 4], nvertices = 3\<rparr>"

definition tie_part2 :: Poly2 where
  "tie_part2 = \<lparr>vertices = [mk_point (- 1) 7, mk_point 3 2, mk_point 4 6], nvertices = 3\<rparr>"



lemma upt_0_3: "[0..<3] = [0, Suc 0, 2]"
  by code_simp

lemma upt_1_3: "[Suc 0..<3] = [Suc 0, 2]"
  by code_simp








section \<open>The Sutherland-Hodgeman intersection (geometry.hpp)\<close>

text \<open>
  \<open>distance_line\<close> is the signed \<open>distance(Line2, Point2)\<close>.
  \<open>intersect(AlgorithmT::SutherlandHodgeman, p1, p2, xflags)\<close> keeps two polygons of
  capacity \<open>MaxPoints1 + MaxPoints2\<close>, the one being cut and the one being built,
  each with its array of flags; the model keeps of each the vertices in use and
  their flags, as two lists. \<open>append_vertex\<close> is the three statements that store a
  vertex and its flag and count it; the source does not test the capacity there, and
  a store beyond it is \<open>VertexOutOfBounds\<close>. \<open>sh_cut_step\<close> is the body of the loop
  over the vertices of the polygon being cut, \<open>sh_round\<close> the body of the loop over
  the edges of \<open>p2\<close>, which starts from an empty polygon; an edge of length 0 makes
  every sign a NaN and every comparison false, so that the round stores nothing.
  The first polygon cut is \<open>p1\<close>, copied by the
  assignment operator of \<open>Poly2\<close> with its assertion. The cells of the result from
  \<open>nvertices\<close> on, which in the source keep what earlier rounds left there, are 0.
\<close>

definition distance_line :: "Line2 \<Rightarrow> Point2 \<Rightarrow> real" where
  "distance_line l p = (la l * px p + lb l * py p + lc l) / hypot (la l) (lb l)"

definition append_vertex ::
  "nat \<Rightarrow> Point2 \<Rightarrow> flag \<Rightarrow> Point2 list \<times> flag list \<Rightarrow> error + Point2 list \<times> flag list" where
  "append_vertex cap v f cur =
     (if length (fst cur) < cap then Inr (fst cur @ [v], snd cur @ [f]) else Inl VertexOutOfBounds)"

definition sh_cut_step ::
  "nat \<Rightarrow> nat \<Rightarrow> Line2 \<Rightarrow> Point2 list \<Rightarrow> flag list \<Rightarrow> real list \<Rightarrow> nat
     \<Rightarrow> Point2 list \<times> flag list \<Rightarrow> error + Point2 list \<times> flag list" where
  "sh_cut_step cap j edge pcut fcut signs i cur =
     (case (if signs ! i < eps then append_vertex cap (pcut ! i) (fcut ! i) cur else Inr cur) of
        Inl e \<Rightarrow> Inl e
      | Inr cur1 \<Rightarrow>
          (let inext = mod_inc i (length pcut) in
           if signs ! i * signs ! inext < - eps then
             (case intersect_lines edge (line2_from_pp (pcut ! i) (pcut ! inext)) of
                Inl e \<Rightarrow> Inl e
              | Inr x \<Rightarrow>
                  append_vertex cap x (if signs ! i < - eps then flag_p2 j else fcut ! i) cur1)
           else Inr cur1))"

definition sh_round ::
  "nat \<Rightarrow> Poly2 \<Rightarrow> nat \<Rightarrow> Point2 list \<times> flag list \<Rightarrow> error + Point2 list \<times> flag list" where
  "sh_round cap p2 j st =
     (let edge = line2_from_pp (vertices p2 ! j) (vertices p2 ! mod_inc j (nvertices p2)) in
      if hypot (la edge) (lb edge) = 0 then Inr ([], [])
      else
        (let signs = map (distance_line edge) (fst st) in
         fold_res (sh_cut_step cap j edge (fst st) (snd st) signs) [0..<length (fst st)] ([], [])))"

definition intersect_sh :: "Poly2 \<Rightarrow> Poly2 \<Rightarrow> error + Poly2 \<times> flag list" where
  "intersect_sh p1 p2 =
     (let cap = length (vertices p1) + length (vertices p2) in
      if nvertices p1 \<le> cap then
        (case fold_res (sh_round cap p2) [0..<nvertices p2]
                (take (nvertices p1) (vertices p1), map flag_p1 [0..<nvertices p1]) of
           Inl e \<Rightarrow> Inl e
         | Inr st \<Rightarrow> Inr (make_poly cap (fst st), snd st))
      else Inl AssertionFailed)"

text \<open>
  The three comparisons of \<open>sh_cut_step\<close>, decided without the square root.
\<close>

lemma eps_pos: "0 < eps"
  by (simp add: eps_def)

lemma less_times_sqrt:
  fixes n c h2 :: real
  assumes "0 < h2" "0 < c"
  shows "n < c * sqrt h2 \<longleftrightarrow> n \<le> 0 \<or> n * n < c * c * h2"
proof (cases "n \<le> 0")
  case True
  have "0 < c * sqrt h2" using assms by simp
  then show ?thesis using True by simp
next
  case False
  then have n: "0 < n" by simp
  define b where "b = c * sqrt h2"
  have b: "0 \<le> b" using assms by (simp add: b_def)
  have "sqrt h2 * sqrt h2 = h2" using assms by simp
  then have "b * b = c * c * (sqrt h2 * sqrt h2)" by (simp add: b_def)
  then have sq: "b * b = c * c * h2" using \<open>sqrt h2 * sqrt h2 = h2\<close> by simp
  have "n < b \<longleftrightarrow> n * n < b * b"
  proof
    assume "n < b"
    then show "n * n < b * b" using n by (simp add: mult_strict_mono)
  next
    assume "n * n < b * b"
    then have "n\<^sup>2 < b\<^sup>2" by (simp add: power2_eq_square)
    then show "n < b" using b by (rule power2_less_imp_less)
  qed
  then have "n < b \<longleftrightarrow> n * n < c * c * h2" by (simp only: sq)
  then show ?thesis using False unfolding b_def by blast
qed

lemma distance_line_less_eps:
  assumes "0 < la l * la l + lb l * lb l"
  shows "distance_line l p < eps \<longleftrightarrow>
           la l * px p + lb l * py p + lc l \<le> 0 \<or>
           (la l * px p + lb l * py p + lc l) * (la l * px p + lb l * py p + lc l)
             < eps * eps * (la l * la l + lb l * lb l)"
proof -
  define n where "n = la l * px p + lb l * py p + lc l"
  define h2 where "h2 = la l * la l + lb l * lb l"
  have h2: "0 < h2" using assms by (simp add: h2_def)
  then have pos: "0 < sqrt h2" by simp
  have d: "distance_line l p = n / sqrt h2"
    by (simp add: distance_line_def hypot_def n_def h2_def)
  have "n / sqrt h2 < eps \<longleftrightarrow> n < eps * sqrt h2"
    using pos by (rule pos_divide_less_eq)
  also have "\<dots> \<longleftrightarrow> n \<le> 0 \<or> n * n < eps * eps * h2"
    by (rule less_times_sqrt [OF h2 eps_pos])
  finally show ?thesis unfolding d n_def h2_def .
qed

lemma distance_line_less_neg_eps:
  assumes "0 < la l * la l + lb l * lb l"
  shows "distance_line l p < - eps \<longleftrightarrow>
           la l * px p + lb l * py p + lc l < 0 \<and>
           eps * eps * (la l * la l + lb l * lb l)
             < (la l * px p + lb l * py p + lc l) * (la l * px p + lb l * py p + lc l)"
proof -
  define n where "n = la l * px p + lb l * py p + lc l"
  define h2 where "h2 = la l * la l + lb l * lb l"
  define b where "b = eps * sqrt h2"
  have h2: "0 < h2" using assms by (simp add: h2_def)
  then have pos: "0 < sqrt h2" by simp
  have b: "0 < b" using pos eps_pos by (simp add: b_def)
  have "sqrt h2 * sqrt h2 = h2" using h2 by simp
  then have "b * b = eps * eps * (sqrt h2 * sqrt h2)" by (simp add: b_def)
  then have sq: "b * b = eps * eps * h2" using \<open>sqrt h2 * sqrt h2 = h2\<close> by simp
  have d: "distance_line l p = n / sqrt h2"
    by (simp add: distance_line_def hypot_def n_def h2_def)
  have "n / sqrt h2 < - eps \<longleftrightarrow> n < - eps * sqrt h2"
    using pos by (rule pos_divide_less_eq)
  also have "\<dots> \<longleftrightarrow> b < - n" unfolding b_def by (simp only: less_minus_iff [of n] mult_minus_left)
  also have "\<dots> \<longleftrightarrow> n < 0 \<and> b * b < n * n"
  proof
    assume l: "b < - n"
    then have "n < 0" using b by simp
    moreover have "b * b < (- n) * (- n)"
      by (rule mult_strict_mono) (use l b in simp_all)
    ultimately show "n < 0 \<and> b * b < n * n" by simp
  next
    assume r: "n < 0 \<and> b * b < n * n"
    then have "b\<^sup>2 < (- n)\<^sup>2" by (simp add: power2_eq_square)
    moreover have "0 \<le> - n" using r by simp
    ultimately show "b < - n" by (rule power2_less_imp_less)
  qed
  finally show ?thesis unfolding d sq n_def h2_def .
qed

lemma distance_line_product:
  assumes "0 < la l * la l + lb l * lb l"
  shows "distance_line l p * distance_line l q < - eps \<longleftrightarrow>
           (la l * px p + lb l * py p + lc l) * (la l * px q + lb l * py q + lc l)
             < - eps * (la l * la l + lb l * lb l)"
proof -
  define n where "n = la l * px p + lb l * py p + lc l"
  define m where "m = la l * px q + lb l * py q + lc l"
  define h2 where "h2 = la l * la l + lb l * lb l"
  have h2: "0 < h2" using assms by (simp add: h2_def)
  have s: "sqrt h2 * sqrt h2 = h2" using h2 by simp
  have "distance_line l p * distance_line l q = (n / sqrt h2) * (m / sqrt h2)"
    by (simp add: distance_line_def hypot_def n_def m_def h2_def)
  also have "\<dots> = n * m / (sqrt h2 * sqrt h2)" by simp
  also have "\<dots> = n * m / h2" by (simp only: s)
  finally have d: "distance_line l p * distance_line l q = n * m / h2" .
  have "n * m / h2 < - eps \<longleftrightarrow> n * m < - eps * h2"
    using h2 by (rule pos_divide_less_eq)
  then show ?thesis unfolding d n_def m_def h2_def .
qed

lemma sign_below_eps:
  assumes "0 < la l * la l + lb l * lb l"
  shows "distance_line l p < eps \<longleftrightarrow>
           la l * px p + lb l * py p + lc l \<le> 0 \<or>
           (la l * px p + lb l * py p + lc l) * (la l * px p + lb l * py p + lc l)
             < 36 / 10 ^ 30 * (la l * la l + lb l * lb l)"
  using distance_line_less_eps [OF assms, of p] by (simp add: eps_def)

lemma sign_below_neg_eps:
  assumes "0 < la l * la l + lb l * lb l"
  shows "distance_line l p < - eps \<longleftrightarrow>
           la l * px p + lb l * py p + lc l < 0 \<and>
           36 / 10 ^ 30 * (la l * la l + lb l * lb l)
             < (la l * px p + lb l * py p + lc l) * (la l * px p + lb l * py p + lc l)"
  using distance_line_less_neg_eps [OF assms, of p] by (simp add: eps_def)

lemma signs_opposite:
  assumes "0 < la l * la l + lb l * lb l"
  shows "distance_line l p * distance_line l q < - eps \<longleftrightarrow>
           (la l * px p + lb l * py p + lc l) * (la l * px q + lb l * py q + lc l)
             < - (6 / 10 ^ 15) * (la l * la l + lb l * lb l)"
  using distance_line_product [OF assms, of p q] by (simp add: eps_def)

lemmas eval_sh = intersect_sh_def sh_round_def sh_cut_step_def append_vertex_def
  sign_below_eps sign_below_neg_eps signs_opposite
  hypot_def line2_from_pp_def line2_from_xyxy_def intersect_lines_def make_poly_def zero_point_def
  flag_p1_def flag_p2_def mod_inc_def mk_point_def Let_def upt_0_3


text \<open>
  On the crossing pairs met before the two functions return polygons of the same
  area.
\<close>

lemma intersect_sh_big_crossing:
  "\<exists>r. intersect_sh big_square crossing_quad = Inr r \<and> area (fst r) = 13 / 2"
  by (simp add: eval_sh big_square_def crossing_quad_def quad_def upt_0_4 upt_1_4 upt_1_5
      upt_0_5 area_def area_step_def)

lemma intersect_sh_tie_parts:
  "\<exists>r. intersect_sh tie_part1 tie_part2 = Inr r \<and> area (fst r) = 24 / 7"
  by (simp add: eval_sh tie_part1_def tie_part2_def area_def area_step_def upt_1_3)

section \<open>Claim C1\<close>












section \<open>The adjoint functions (geometry_grad.hpp)\<close>

text \<open>
  The forward functions of \<open>geometry.hpp\<close> that the adjoints call and that were not
  needed so far. Overloads of one C++ name carry a suffix for the type of their
  argument: \<open>intersect_aabox\<close> is \<open>intersect(AABox2, AABox2)\<close>.
\<close>

definition segment2_from_pp :: "Point2 \<Rightarrow> Point2 \<Rightarrow> Segment2" where
  "segment2_from_pp p1 p2 = \<lparr>sx1 = px p1, sy1 = py p1, sx2 = px p2, sy2 = py p2\<rparr>"

definition line2_from_segment2 :: "Segment2 \<Rightarrow> Line2" where
  "line2_from_segment2 s = line2_from_xyxy (sx1 s) (sy1 s) (sx2 s) (sy2 s)"

definition t_from_pxy :: "Line2 \<Rightarrow> real \<Rightarrow> real \<Rightarrow> real" where
  "t_from_pxy l x y =
     (if lb l = 0 then (1 - y) / la l
      else if la l = 0 then (x - 1) / lb l
      else (lb l * x - la l * y - la l * (la l + lc l) / lb l - lb l) / (la l * la l + lb l * lb l))"

definition t_from_ppoint :: "Line2 \<Rightarrow> Point2 \<Rightarrow> real" where
  "t_from_ppoint l p = t_from_pxy l (px p) (py p)"

definition intersect_aabox :: "AABox2 \<Rightarrow> AABox2 \<Rightarrow> AABox2" where
  "intersect_aabox a1 a2 =
     (if max_x a1 \<le> min_x a2 \<or> min_x a1 \<ge> max_x a2 \<or>
         max_y a1 \<le> min_y a2 \<or> min_y a1 \<ge> max_y a2
      then \<lparr>min_x = 0, max_x = 0, min_y = 0, max_y = 0\<rparr>
      else \<lparr>min_x = max_scalar (min_x a1) (min_x a2),
            max_x = min_scalar (max_x a1) (max_x a2),
            min_y = max_scalar (min_y a1) (min_y a2),
            max_y = min_scalar (max_y a1) (max_y a2)\<rparr>)"

definition merge_aabox :: "AABox2 \<Rightarrow> AABox2 \<Rightarrow> AABox2" where
  "merge_aabox a1 a2 =
     \<lparr>min_x = min_scalar (min_x a1) (min_x a2),
      max_x = max_scalar (max_x a1) (max_x a2),
      min_y = min_scalar (min_y a1) (min_y a2),
      max_y = max_scalar (max_y a1) (max_y a2)\<rparr>"

definition area_aabox :: "AABox2 \<Rightarrow> real" where
  "area_aabox a = (max_x a - min_x a) * (max_y a - min_y a)"

definition dimension_aabox :: "AABox2 \<Rightarrow> real" where
  "dimension_aabox a = hypot (max_x a - min_x a) (max_y a - min_y a)"

definition center_aabox :: "AABox2 \<Rightarrow> Point2" where
  "center_aabox a = \<lparr>px = (max_x a + min_x a) / 2, py = (max_y a + min_y a) / 2\<rparr>"

definition centroid_aabox :: "AABox2 \<Rightarrow> Point2" where
  "centroid_aabox a = center_aabox a"

text \<open>
  A provenance flag \<open>f\<close> is read as \<open>f & 1\<close> (the vertex is one of \<open>p1\<close>) and
  \<open>f >> 1\<close> (its index).
\<close>

definition flag_is_p1 :: "flag \<Rightarrow> bool" where
  "flag_is_p1 f \<longleftrightarrow> f AND 1 \<noteq> 0"

definition flag_index :: "flag \<Rightarrow> nat" where
  "flag_index f = unat (drop_bit 1 f)"

text \<open>
  \<open>_construct_intersection\<close> and \<open>_construct_merged_hull\<close> rebuild the forward
  result from the saved flags; \<open>construct_vertex\<close> is the body of the loop of the
  former. The result has capacity \<open>MaxPoints1 + MaxPoints2\<close>; storing more vertices
  than that is the error \<open>VertexOutOfBounds\<close>.
\<close>

definition construct_vertex ::
  "Poly2 \<Rightarrow> Poly2 \<Rightarrow> flag list \<Rightarrow> nat \<Rightarrow> nat \<Rightarrow> error + Point2" where
  "construct_vertex p1 p2 xflags nx i =
     (let iprev = mod_dec i nx; fi = xflags ! i; fp = xflags ! iprev in
      if (fi AND 1) = (fp AND 1) then
        (if flag_is_p1 fi then Inr (vertices p1 ! flag_index fi)
         else Inr (vertices p2 ! flag_index fi))
      else if flag_is_p1 fi then
        (let epni = flag_index fi; epnj = mod_inc epni (nvertices p1);
             eppi = flag_index fp; eppj = mod_inc eppi (nvertices p2);
             edge_next = line2_from_pp (vertices p1 ! epni) (vertices p1 ! epnj);
             edge_prev = line2_from_pp (vertices p2 ! eppi) (vertices p2 ! eppj)
         in intersect_lines edge_prev edge_next)
      else
        (let epni = flag_index fi; epnj = mod_inc epni (nvertices p2);
             eppi = flag_index fp; eppj = mod_inc eppi (nvertices p1);
             edge_next = line2_from_pp (vertices p2 ! epni) (vertices p2 ! epnj);
             edge_prev = line2_from_pp (vertices p1 ! eppi) (vertices p1 ! eppj)
         in intersect_lines edge_prev edge_next))"

primrec collect_res :: "('a \<Rightarrow> error + 'b) \<Rightarrow> 'a list \<Rightarrow> error + 'b list" where
  "collect_res f [] = Inr []"
| "collect_res f (x # xs) =
     (case f x of
        Inl e \<Rightarrow> Inl e
      | Inr y \<Rightarrow> (case collect_res f xs of Inl e \<Rightarrow> Inl e | Inr ys \<Rightarrow> Inr (y # ys)))"

definition construct_intersection ::
  "Poly2 \<Rightarrow> Poly2 \<Rightarrow> flag list \<Rightarrow> nat \<Rightarrow> error + Poly2" where
  "construct_intersection p1 p2 xflags nx =
     (let cap = length (vertices p1) + length (vertices p2) in
      if cap < nx then Inl VertexOutOfBounds
      else (case collect_res (construct_vertex p1 p2 xflags nx) [0..<nx] of
              Inl e \<Rightarrow> Inl e
            | Inr vs \<Rightarrow> Inr (make_poly cap vs)))"

definition construct_merged_hull ::
  "Poly2 \<Rightarrow> Poly2 \<Rightarrow> flag list \<Rightarrow> nat \<Rightarrow> error + Poly2" where
  "construct_merged_hull p1 p2 mflags nm =
     (let cap = length (vertices p1) + length (vertices p2) in
      if cap < nm then Inl VertexOutOfBounds
      else Inr (make_poly cap
                  (map (\<lambda>i. if flag_is_p1 (mflags ! i) then vertices p1 ! flag_index (mflags ! i)
                             else vertices p2 ! flag_index (mflags ! i))
                       [0..<nm])))"

text \<open>
  A local accumulator declared without initialiser (\<open>Line2<scalar_t> grad_l;\<close>)
  starts from the default member initialisers of its type, which are all \<open>0\<close>.
\<close>

definition zero_line :: Line2 where
  "zero_line = \<lparr>la = 0, lb = 0, lc = 0\<rparr>"

definition zero_segment :: Segment2 where
  "zero_segment = \<lparr>sx1 = 0, sy1 = 0, sx2 = 0, sy2 = 0\<rparr>"

definition zero_aabox :: AABox2 where
  "zero_aabox = \<lparr>min_x = 0, max_x = 0, min_y = 0, max_y = 0\<rparr>"

text \<open>
  Every adjoint updates its gradient outputs, passed by reference, in place and
  returns nothing. Its model is a function from the accumulators before the call to
  the accumulators after it; the forward inputs and the upstream gradient come
  first. An adjoint that asserts, or that writes to the cells of a polygon, returns
  an option: \<open>None\<close> is a failed assertion or a cell beyond the capacity of the
  accumulator. The functions follow in the order of \<open>geometry_grad.hpp\<close>.

  A quotient is the total division of \<open>real\<close>: where the code divides by zero and
  adds an infinity or a NaN to an accumulator, the model adds 0. Only the value of
  the contribution differs there, not the way it is added.
\<close>

definition max_grad :: "real \<Rightarrow> real \<Rightarrow> real \<Rightarrow> real \<times> real \<Rightarrow> real \<times> real" where
  "max_grad a b g acc = (if a > b then (fst acc + g, snd acc) else (fst acc, snd acc + g))"

definition min_grad :: "real \<Rightarrow> real \<Rightarrow> real \<Rightarrow> real \<times> real \<Rightarrow> real \<times> real" where
  "min_grad a b g acc = (if a < b then (fst acc + g, snd acc) else (fst acc, snd acc + g))"

definition line2_from_xyxy_grad ::
  "real \<Rightarrow> real \<Rightarrow> real \<Rightarrow> real \<Rightarrow> Line2 \<Rightarrow> real \<times> real \<times> real \<times> real
     \<Rightarrow> real \<times> real \<times> real \<times> real" where
  "line2_from_xyxy_grad x1 y1 x2 y2 grad acc =
     (case acc of (x1_grad, y1_grad, x2_grad, y2_grad) \<Rightarrow>
        (x1_grad + (lb grad - y2 * lc grad),
         y1_grad + (- la grad + x2 * lc grad),
         x2_grad + (- lb grad + y1 * lc grad),
         y2_grad + (la grad - x1 * lc grad)))"

definition line2_from_pp_grad ::
  "Point2 \<Rightarrow> Point2 \<Rightarrow> Line2 \<Rightarrow> Point2 \<times> Point2 \<Rightarrow> Point2 \<times> Point2" where
  "line2_from_pp_grad p1 p2 grad acc =
     (case line2_from_xyxy_grad (px p1) (py p1) (px p2) (py p2) grad
             (px (fst acc), py (fst acc), px (snd acc), py (snd acc)) of
        (x1_grad, y1_grad, x2_grad, y2_grad) \<Rightarrow>
          ((fst acc)\<lparr>px := x1_grad, py := y1_grad\<rparr>, (snd acc)\<lparr>px := x2_grad, py := y2_grad\<rparr>))"

definition segment2_from_pp_grad ::
  "Point2 \<Rightarrow> Point2 \<Rightarrow> Segment2 \<Rightarrow> Point2 \<times> Point2 \<Rightarrow> Point2 \<times> Point2" where
  "segment2_from_pp_grad p1 p2 grad acc =
     ((fst acc)\<lparr>px := px (fst acc) + sx1 grad, py := py (fst acc) + sy1 grad\<rparr>,
      (snd acc)\<lparr>px := px (snd acc) + sx2 grad, py := py (snd acc) + sy2 grad\<rparr>)"

definition line2_from_segment2_grad :: "Segment2 \<Rightarrow> Line2 \<Rightarrow> Segment2 \<Rightarrow> Segment2" where
  "line2_from_segment2_grad s grad grad_s =
     (case line2_from_xyxy_grad (sx1 s) (sy1 s) (sx2 s) (sy2 s) grad
             (sx1 grad_s, sy1 grad_s, sx2 grad_s, sy2 grad_s) of
        (x1_grad, y1_grad, x2_grad, y2_grad) \<Rightarrow>
          grad_s\<lparr>sx1 := x1_grad, sy1 := y1_grad, sx2 := x2_grad, sy2 := y2_grad\<rparr>)"

definition poly2_from_aabox2_grad :: "AABox2 \<Rightarrow> Poly2 \<Rightarrow> AABox2 \<Rightarrow> AABox2 option" where
  "poly2_from_aabox2_grad a grad grad_a =
     (if nvertices grad = 4 then
        Some (grad_a\<lparr>
          min_x := min_x grad_a + (px (vertices grad ! 0) + px (vertices grad ! 3)),
          max_x := max_x grad_a + (px (vertices grad ! 1) + px (vertices grad ! 2)),
          min_y := min_y grad_a + (py (vertices grad ! 0) + py (vertices grad ! 1)),
          max_y := max_y grad_a + (py (vertices grad ! 2) + py (vertices grad ! 3))\<rparr>)
      else None)"

text \<open>
  \<open>aabox2_from_poly2_grad\<close>: \<open>find_minmax\<close> is the first loop, with \<open>minmax_step\<close>
  its body; \<open>aabox2_from_poly2_grad_step\<close> is the body of the second loop, where
  \<open>cond_do\<close> is an \<open>if\<close> without \<open>else\<close>.
\<close>

record minmax =
  mm_max_x :: real
  mm_min_x :: real
  mm_max_y :: real
  mm_min_y :: real
  imax_x :: nat
  imin_x :: nat
  imax_y :: nat
  imin_y :: nat

definition minmax_step :: "Point2 list \<Rightarrow> nat \<Rightarrow> minmax \<Rightarrow> minmax" where
  "minmax_step vs i m =
     (let m1 = (if px (vs ! i) > mm_max_x m then m\<lparr>mm_max_x := px (vs ! i), imax_x := i\<rparr> else m);
          m2 = (if px (vs ! i) < mm_min_x m1 then m1\<lparr>mm_min_x := px (vs ! i), imin_x := i\<rparr> else m1);
          m3 = (if py (vs ! i) > mm_max_y m2 then m2\<lparr>mm_max_y := py (vs ! i), imax_y := i\<rparr> else m2)
      in (if py (vs ! i) < mm_min_y m3 then m3\<lparr>mm_min_y := py (vs ! i), imin_y := i\<rparr> else m3))"

definition find_minmax :: "Poly2 \<Rightarrow> minmax" where
  "find_minmax p =
     fold (minmax_step (vertices p)) [1..<nvertices p]
       \<lparr>mm_max_x = px (vertices p ! 0), mm_min_x = px (vertices p ! 0),
        mm_max_y = py (vertices p ! 0), mm_min_y = py (vertices p ! 0),
        imax_x = 0, imin_x = 0, imax_y = 0, imin_y = 0\<rparr>"

definition cond_do :: "bool \<Rightarrow> ('s \<Rightarrow> 's option) \<Rightarrow> 's \<Rightarrow> 's option" where
  "cond_do c f s = (if c then f s else Some s)"

definition aabox2_from_poly2_grad_step ::
  "minmax \<Rightarrow> AABox2 \<Rightarrow> nat \<Rightarrow> Point2 list \<Rightarrow> Point2 list option" where
  "aabox2_from_poly2_grad_step m grad i gs = do {
     g1 \<leftarrow> cond_do (i = imax_x m) (add_vx i (max_x grad)) gs;
     g2 \<leftarrow> cond_do (i = imin_x m) (add_vx i (min_x grad)) g1;
     g3 \<leftarrow> cond_do (i = imax_y m) (add_vy i (max_y grad)) g2;
     cond_do (i = imin_y m) (add_vy i (min_y grad)) g3
   }"

definition aabox2_from_poly2_grad :: "Poly2 \<Rightarrow> AABox2 \<Rightarrow> Poly2 \<Rightarrow> Poly2 option" where
  "aabox2_from_poly2_grad p grad grad_p =
     map_option (\<lambda>gs. grad_p\<lparr>vertices := gs, nvertices := nvertices p\<rparr>)
       (fold_opt (aabox2_from_poly2_grad_step (find_minmax p) grad) [0..<nvertices p]
          (vertices grad_p))"

definition poly2_from_xywhr_grad ::
  "real \<Rightarrow> real \<Rightarrow> real \<Rightarrow> real \<Rightarrow> real \<Rightarrow> Poly2
     \<Rightarrow> real \<times> real \<times> real \<times> real \<times> real \<Rightarrow> (real \<times> real \<times> real \<times> real \<times> real) option" where
  "poly2_from_xywhr_grad x y w h r grad acc =
     (case acc of (grad_x, grad_y, grad_w, grad_h, grad_r) \<Rightarrow>
      if nvertices grad = 4 then
        (let g0 = vertices grad ! 0; g1 = vertices grad ! 1;
             g2 = vertices grad ! 2; g3 = vertices grad ! 3;
             dxsin_grad = - py g0 + py g1 + py g2 - py g3;
             dxcos_grad = - px g0 + px g1 + px g2 - px g3;
             dysin_grad = px g0 + px g1 - px g2 - px g3;
             dycos_grad = - py g0 - py g1 + py g2 + py g3
         in Some
           (grad_x + (px g0 + px g1 + px g2 + px g3),
            grad_y + (py g0 + py g1 + py g2 + py g3),
            grad_w + (dxsin_grad * sin r + dxcos_grad * cos r) / 2,
            grad_h + (dysin_grad * sin r + dycos_grad * cos r) / 2,
            grad_r + (dxsin_grad * w * cos r - dxcos_grad * w * sin r
                      + dysin_grad * h * cos r - dycos_grad * h * sin r) / 2))
      else None)"

definition distance_grad :: "Point2 \<Rightarrow> Point2 \<Rightarrow> real \<Rightarrow> Point2 \<times> Point2 \<Rightarrow> Point2 \<times> Point2" where
  "distance_grad p1 p2 grad acc =
     (let dx = px p1 - px p2; dy = py p1 - py p2; d = hypot dx dy in
      ((fst acc)\<lparr>px := px (fst acc) + grad * dx / d, py := py (fst acc) + grad * dy / d\<rparr>,
       (snd acc)\<lparr>px := px (snd acc) - grad * dx / d, py := py (snd acc) - grad * dy / d\<rparr>))"

definition distance_grad_line ::
  "Line2 \<Rightarrow> Point2 \<Rightarrow> real \<Rightarrow> Line2 \<times> Point2 \<Rightarrow> Line2 \<times> Point2" where
  "distance_grad_line l p grad acc =
     (let hab = hypot (la l) (lb l); hab3 = hab * hab * hab;
          grad_l = fst acc; grad_p = snd acc
      in (grad_l\<lparr>la := la grad_l + grad * la l * py p * py p / hab3,
                 lb := lb grad_l + grad * lb l * px p * px p / hab3,
                 lc := lc grad_l + grad * 1 / hab\<rparr>,
          grad_p\<lparr>px := px grad_p + grad * la l / hab,
                 py := py grad_p + grad * lb l / hab\<rparr>))"

definition distance_grad_segment ::
  "Segment2 \<Rightarrow> Point2 \<Rightarrow> real \<Rightarrow> Segment2 \<times> Point2 \<Rightarrow> Segment2 \<times> Point2" where
  "distance_grad_segment s p grad acc =
     (let l = line2_from_segment2 s;
          t = t_from_ppoint l p;
          sign = la l * px p + lb l * py p + lc l;
          grad_s = fst acc; grad_p = snd acc
      in if t < t_from_pxy l (sx2 s) (sy2 s) then
           (let p2 = \<lparr>px = sx2 s, py = sy2 s\<rparr>;
                r = distance_grad p p2 (if sign > 0 then grad else - grad) (grad_p, zero_point);
                grad_p2 = snd r
            in (grad_s\<lparr>sx2 := sx2 grad_s + px grad_p2, sy2 := sy2 grad_s + py grad_p2\<rparr>, fst r))
         else if t > t_from_pxy l (sx1 s) (sy1 s) then
           (let p1 = \<lparr>px = sx1 s, py = sy1 s\<rparr>;
                r = distance_grad p p1 (if sign > 0 then grad else - grad) (grad_p, zero_point);
                grad_p1 = snd r
            in (grad_s\<lparr>sx1 := sx1 grad_s + px grad_p1, sy1 := sy1 grad_s + py grad_p1\<rparr>, fst r))
         else
           (let r = distance_grad_line l p grad (zero_line, grad_p)
            in (line2_from_segment2_grad s (fst r) grad_s, snd r)))"

text \<open>
  \<open>distance_grad(poly, p, grad, grad_poly, grad_p, idx)\<close> calls
  \<open>segment2_from_pp_grad\<close> on the cells \<open>idx\<close> and \<open>nidx\<close> of one polygon, which are
  the same cell when the polygon has one vertex: \<open>segment2_from_pp_grad_at\<close> is that
  call, its four updates in the order of the source.
\<close>

definition segment2_from_pp_grad_at ::
  "Segment2 \<Rightarrow> nat \<Rightarrow> nat \<Rightarrow> Point2 list \<Rightarrow> Point2 list option" where
  "segment2_from_pp_grad_at grad i j gs = do {
     g1 \<leftarrow> add_vx i (sx1 grad) gs;
     g2 \<leftarrow> add_vy i (sy1 grad) g1;
     g3 \<leftarrow> add_vx j (sx2 grad) g2;
     add_vy j (sy2 grad) g3
   }"

definition distance_grad_poly ::
  "Poly2 \<Rightarrow> Point2 \<Rightarrow> real \<Rightarrow> nat \<Rightarrow> Poly2 \<times> Point2 \<Rightarrow> (Poly2 \<times> Point2) option" where
  "distance_grad_poly poly p grad idx acc =
     (let nidx = mod_inc idx (nvertices poly);
          s = segment2_from_pp (vertices poly ! idx) (vertices poly ! nidx);
          r = distance_grad_segment s p (- grad) (zero_segment, snd acc)
      in map_option (\<lambda>gs. ((fst acc)\<lparr>vertices := gs\<rparr>, snd r))
           (segment2_from_pp_grad_at (fst r) idx nidx (vertices (fst acc))))"

definition area_grad_aabox :: "AABox2 \<Rightarrow> real \<Rightarrow> AABox2 \<Rightarrow> AABox2" where
  "area_grad_aabox a grad grad_a =
     (let lx = max_x a - min_x a; ly = max_y a - min_y a in
      grad_a\<lparr>max_x := max_x grad_a + grad * ly,
             min_x := min_x grad_a - grad * ly,
             max_y := max_y grad_a + grad * lx,
             min_y := min_y grad_a - grad * lx\<rparr>)"

definition dimension_grad_aabox :: "AABox2 \<Rightarrow> real \<Rightarrow> AABox2 \<Rightarrow> AABox2" where
  "dimension_grad_aabox a grad grad_a =
     (let dx = max_x a - min_x a; dy = max_y a - min_y a; d = hypot dx dy in
      grad_a\<lparr>max_x := max_x grad_a + grad * dx / d,
             min_x := min_x grad_a - grad * dx / d,
             max_y := max_y grad_a + grad * dy / d,
             min_y := min_y grad_a - grad * dy / d\<rparr>)"

text \<open>
  \<open>distance_grad_at\<close> is \<open>distance_grad(p1, p2, grad, grad_p1, grad_p2)\<close> called on
  the cells \<open>i\<close> and \<open>j\<close> of one polygon, as \<open>dimension_grad\<close> does.
\<close>

definition distance_grad_at ::
  "Point2 \<Rightarrow> Point2 \<Rightarrow> real \<Rightarrow> nat \<Rightarrow> nat \<Rightarrow> Point2 list \<Rightarrow> Point2 list option" where
  "distance_grad_at p1 p2 grad i j gs =
     (let dx = px p1 - px p2; dy = py p1 - py p2; d = hypot dx dy in do {
        g1 \<leftarrow> add_vx i (grad * dx / d) gs;
        g2 \<leftarrow> sub_vx j (grad * dx / d) g1;
        g3 \<leftarrow> add_vy i (grad * dy / d) g2;
        sub_vy j (grad * dy / d) g3
      })"

definition dimension_grad :: "Poly2 \<Rightarrow> real \<Rightarrow> nat \<Rightarrow> nat \<Rightarrow> Poly2 \<Rightarrow> Poly2 option" where
  "dimension_grad p grad flag1 flag2 grad_p =
     map_option (\<lambda>gs. grad_p\<lparr>vertices := gs\<rparr>)
       (distance_grad_at (vertices p ! flag1) (vertices p ! flag2) grad flag1 flag2
          (vertices grad_p))"

definition center_grad_aabox :: "AABox2 \<Rightarrow> Point2 \<Rightarrow> AABox2 \<Rightarrow> AABox2" where
  "center_grad_aabox a grad grad_a =
     grad_a\<lparr>max_x := max_x grad_a + px grad / 2,
            min_x := min_x grad_a + px grad / 2,
            max_y := max_y grad_a + py grad / 2,
            min_y := min_y grad_a + py grad / 2\<rparr>"

definition center_grad :: "Poly2 \<Rightarrow> Point2 \<Rightarrow> Poly2 \<Rightarrow> Poly2 option" where
  "center_grad p grad grad_p =
     (let a = aabox2_from_poly2 p;
          grad_a = center_grad_aabox a grad zero_aabox
      in aabox2_from_poly2_grad p grad_a grad_p)"

definition centroid_grad_aabox :: "AABox2 \<Rightarrow> Point2 \<Rightarrow> AABox2 \<Rightarrow> AABox2" where
  "centroid_grad_aabox a grad grad_a = center_grad_aabox a grad grad_a"

definition centroid_grad_step :: "Poly2 \<Rightarrow> Point2 \<Rightarrow> nat \<Rightarrow> Point2 list \<Rightarrow> Point2 list option" where
  "centroid_grad_step p grad i gs = do {
     g1 \<leftarrow> add_vx i (px grad / real (nvertices p)) gs;
     add_vy i (py grad / real (nvertices p)) g1
   }"

definition centroid_grad :: "Poly2 \<Rightarrow> Point2 \<Rightarrow> Poly2 \<Rightarrow> Poly2 option" where
  "centroid_grad p grad grad_p =
     map_option (\<lambda>gs. grad_p\<lparr>vertices := gs, nvertices := nvertices p\<rparr>)
       (fold_opt (centroid_grad_step p grad) [0..<nvertices p] (vertices grad_p))"

definition intersect_grad_lines ::
  "Line2 \<Rightarrow> Line2 \<Rightarrow> Point2 \<Rightarrow> Line2 \<times> Line2 \<Rightarrow> Line2 \<times> Line2" where
  "intersect_grad_lines l1 l2 grad acc =
     (let wab = la l1 * lb l2 - la l2 * lb l1;
          wbc = lb l1 * lc l2 - lb l2 * lc l1;
          wca = lc l1 * la l2 - lc l2 * la l1;
          g_wbc = px grad / wab;
          g_wca = py grad / wab;
          g_wab = - (wbc * g_wbc + wca * g_wca) / wab;
          grad_l1 = fst acc; grad_l2 = snd acc
      in (grad_l1\<lparr>la := la grad_l1 + (- lc l2 * g_wca + lb l2 * g_wab),
                  lb := lb grad_l1 + (lc l2 * g_wbc - la l2 * g_wab),
                  lc := lc grad_l1 + (la l2 * g_wca - lb l2 * g_wbc)\<rparr>,
          grad_l2\<lparr>la := la grad_l2 + (lc l1 * g_wca - lb l1 * g_wab),
                  lb := lb grad_l2 + (- lc l1 * g_wbc + la l1 * g_wab),
                  lc := lc grad_l2 + (lb l1 * g_wbc - la l1 * g_wca)\<rparr>))"

text \<open>
  \<open>add_v\<close> is \<open>Point2::operator+=\<close> on cell \<open>i\<close>; \<open>line2_from_pp_grad_at\<close> is
  \<open>line2_from_pp_grad\<close> called on the cells \<open>i\<close> and \<open>j\<close> of one polygon; \<open>on1\<close> and
  \<open>on2\<close> run an update on the first or on the second of two accumulators.
  \<open>crossing_grad\<close> is the part shared by the two branches of a vertex defined by both
  polygons: the gradients of the two edges, and the cells they go to.
\<close>

definition add_v :: "nat \<Rightarrow> Point2 \<Rightarrow> Point2 list \<Rightarrow> Point2 list option" where
  "add_v i rhs gs = (if i < length gs then Some (gs[i := point_add (gs ! i) rhs]) else None)"

definition line2_from_pp_grad_at ::
  "Point2 \<Rightarrow> Point2 \<Rightarrow> Line2 \<Rightarrow> nat \<Rightarrow> nat \<Rightarrow> Point2 list \<Rightarrow> Point2 list option" where
  "line2_from_pp_grad_at p1 p2 grad i j gs = do {
     g1 \<leftarrow> add_vx i (lb grad - py p2 * lc grad) gs;
     g2 \<leftarrow> add_vx j (- lb grad + py p1 * lc grad) g1;
     g3 \<leftarrow> add_vy i (- la grad + px p2 * lc grad) g2;
     add_vy j (la grad - px p1 * lc grad) g3
   }"

definition on1 :: "('a \<Rightarrow> 'a option) \<Rightarrow> 'a \<times> 'b \<Rightarrow> ('a \<times> 'b) option" where
  "on1 f s = map_option (\<lambda>g. (g, snd s)) (f (fst s))"

definition on2 :: "('b \<Rightarrow> 'b option) \<Rightarrow> 'a \<times> 'b \<Rightarrow> ('a \<times> 'b) option" where
  "on2 f s = map_option (\<lambda>g. (fst s, g)) (f (snd s))"

definition crossing_grad ::
  "Poly2 \<Rightarrow> Poly2 \<Rightarrow> nat \<Rightarrow> nat \<Rightarrow> Point2
     \<Rightarrow> (Line2 \<times> Line2) \<times> (nat \<times> nat) \<times> (nat \<times> nat)" where
  "crossing_grad pn pp fi fp g =
     (let epni = fi; epnj = mod_inc epni (nvertices pn);
          eppi = fp; eppj = mod_inc eppi (nvertices pp);
          edge_next = line2_from_pp (vertices pn ! epni) (vertices pn ! epnj);
          edge_prev = line2_from_pp (vertices pp ! eppi) (vertices pp ! eppj)
      in (intersect_grad_lines edge_next edge_prev g (zero_line, zero_line),
          (epni, epnj), (eppi, eppj)))"

definition intersect_grad_step ::
  "Poly2 \<Rightarrow> Poly2 \<Rightarrow> Poly2 \<Rightarrow> flag list \<Rightarrow> nat \<Rightarrow> Point2 list \<times> Point2 list
     \<Rightarrow> (Point2 list \<times> Point2 list) option" where
  "intersect_grad_step p1 p2 grad xflags i s =
     (let iprev = mod_dec i (nvertices grad); fi = xflags ! i; fp = xflags ! iprev in
      if (fi AND 1) = (fp AND 1) then
        (if flag_is_p1 fi then on1 (add_v (flag_index fi) (vertices grad ! i)) s
         else on2 (add_v (flag_index fi) (vertices grad ! i)) s)
      else if flag_is_p1 fi then
        (case crossing_grad p1 p2 (flag_index fi) (flag_index fp) (vertices grad ! i) of
           ((grad_edge_next, grad_edge_prev), (epni, epnj), (eppi, eppj)) \<Rightarrow>
             Option.bind
               (on1 (line2_from_pp_grad_at (vertices p1 ! epni) (vertices p1 ! epnj)
                       grad_edge_next epni epnj) s)
               (on2 (line2_from_pp_grad_at (vertices p2 ! eppi) (vertices p2 ! eppj)
                       grad_edge_prev eppi eppj)))
      else
        (case crossing_grad p2 p1 (flag_index fi) (flag_index fp) (vertices grad ! i) of
           ((grad_edge_next, grad_edge_prev), (epni, epnj), (eppi, eppj)) \<Rightarrow>
             Option.bind
               (on2 (line2_from_pp_grad_at (vertices p2 ! epni) (vertices p2 ! epnj)
                       grad_edge_next epni epnj) s)
               (on1 (line2_from_pp_grad_at (vertices p1 ! eppi) (vertices p1 ! eppj)
                       grad_edge_prev eppi eppj))))"

definition set_counts :: "Poly2 \<Rightarrow> Poly2 \<Rightarrow> Poly2 \<times> Poly2 \<Rightarrow> Point2 list \<times> Point2 list \<Rightarrow> Poly2 \<times> Poly2" where
  "set_counts p1 p2 acc gs =
     ((fst acc)\<lparr>vertices := fst gs, nvertices := nvertices p1\<rparr>,
      (snd acc)\<lparr>vertices := snd gs, nvertices := nvertices p2\<rparr>)"

definition intersect_grad ::
  "Poly2 \<Rightarrow> Poly2 \<Rightarrow> Poly2 \<Rightarrow> flag list \<Rightarrow> Poly2 \<times> Poly2 \<Rightarrow> (Poly2 \<times> Poly2) option" where
  "intersect_grad p1 p2 grad xflags acc =
     map_option (set_counts p1 p2 acc)
       (fold_opt (intersect_grad_step p1 p2 grad xflags) [0..<nvertices grad]
          (vertices (fst acc), vertices (snd acc)))"

definition intersect_grad_aabox ::
  "AABox2 \<Rightarrow> AABox2 \<Rightarrow> AABox2 \<Rightarrow> AABox2 \<times> AABox2 \<Rightarrow> AABox2 \<times> AABox2" where
  "intersect_grad_aabox a1 a2 grad acc =
     (let g1 = fst acc; g2 = snd acc;
          r1 = max_grad (min_x a1) (min_x a2) (min_x grad) (min_x g1, min_x g2);
          r2 = min_grad (max_x a1) (max_x a2) (max_x grad) (max_x g1, max_x g2);
          r3 = max_grad (min_y a1) (min_y a2) (min_y grad) (min_y g1, min_y g2);
          r4 = min_grad (max_y a1) (max_y a2) (max_y grad) (max_y g1, max_y g2)
      in (g1\<lparr>min_x := fst r1, max_x := fst r2, min_y := fst r3, max_y := fst r4\<rparr>,
          g2\<lparr>min_x := snd r1, max_x := snd r2, min_y := snd r3, max_y := snd r4\<rparr>))"

definition merge_grad_step ::
  "Poly2 \<Rightarrow> flag list \<Rightarrow> nat \<Rightarrow> Point2 list \<times> Point2 list
     \<Rightarrow> (Point2 list \<times> Point2 list) option" where
  "merge_grad_step grad mflags i s =
     (if flag_is_p1 (mflags ! i) then on1 (add_v (flag_index (mflags ! i)) (vertices grad ! i)) s
      else on2 (add_v (flag_index (mflags ! i)) (vertices grad ! i)) s)"

definition merge_grad ::
  "Poly2 \<Rightarrow> Poly2 \<Rightarrow> Poly2 \<Rightarrow> flag list \<Rightarrow> Poly2 \<times> Poly2 \<Rightarrow> (Poly2 \<times> Poly2) option" where
  "merge_grad p1 p2 grad mflags acc =
     map_option (set_counts p1 p2 acc)
       (fold_opt (merge_grad_step grad mflags) [0..<nvertices grad]
          (vertices (fst acc), vertices (snd acc)))"

definition merge_grad_aabox ::
  "AABox2 \<Rightarrow> AABox2 \<Rightarrow> AABox2 \<Rightarrow> AABox2 \<times> AABox2 \<Rightarrow> AABox2 \<times> AABox2" where
  "merge_grad_aabox a1 a2 grad acc =
     (let g1 = fst acc; g2 = snd acc;
          r1 = min_grad (min_x a1) (min_x a2) (min_x grad) (min_x g1, min_x g2);
          r2 = max_grad (max_x a1) (max_x a2) (max_x grad) (max_x g1, max_x g2);
          r3 = min_grad (min_y a1) (min_y a2) (min_y grad) (min_y g1, min_y g2);
          r4 = max_grad (max_y a1) (max_y a2) (max_y grad) (max_y g1, max_y g2)
      in (g1\<lparr>min_x := fst r1, max_x := fst r2, min_y := fst r3, max_y := fst r4\<rparr>,
          g2\<lparr>min_x := snd r1, max_x := snd r2, min_y := snd r3, max_y := snd r4\<rparr>))"

definition iou_grad_aabox ::
  "AABox2 \<Rightarrow> AABox2 \<Rightarrow> real \<Rightarrow> AABox2 \<times> AABox2 \<Rightarrow> AABox2 \<times> AABox2" where
  "iou_grad_aabox a1 a2 grad acc =
     (let ai = intersect_aabox a1 a2;
          area_i = area_aabox ai;
          area_u = area_aabox a1 + area_aabox a2 - area_i;
          gi0 = grad / area_u;
          gu = - gi0 * area_i / area_u;
          gi = gi0 - gu;
          grad_a1 = area_grad_aabox a1 gu (fst acc);
          grad_a2 = area_grad_aabox a2 gu (snd acc);
          grad_ai = area_grad_aabox ai gi zero_aabox
      in intersect_grad_aabox a1 a2 grad_ai (grad_a1, grad_a2))"

definition iou_grad ::
  "Poly2 \<Rightarrow> Poly2 \<Rightarrow> real \<Rightarrow> nat \<Rightarrow> flag list \<Rightarrow> Poly2 \<times> Poly2 \<Rightarrow> (Poly2 \<times> Poly2) option" where
  "iou_grad p1 p2 grad nx xflags acc =
     (case construct_intersection p1 p2 xflags nx of
        Inl e \<Rightarrow> None
      | Inr pint \<Rightarrow>
          (let area_i = area pint;
               area_u = area p1 + area p2 - area_i;
               gi0 = grad / area_u;
               gu = - gi0 * area_i / area_u;
               gi = gi0 - gu
           in do {
             s1 \<leftarrow> on1 (area_grad p1 gu) acc;
             s2 \<leftarrow> on2 (area_grad p2 gu) s1;
             grad_pi \<leftarrow> area_grad pint gi
                          (zero_poly (length (vertices p1) + length (vertices p2)));
             intersect_grad p1 p2 grad_pi xflags s2
           }))"

definition giou_grad_aabox ::
  "AABox2 \<Rightarrow> AABox2 \<Rightarrow> real \<Rightarrow> AABox2 \<times> AABox2 \<Rightarrow> AABox2 \<times> AABox2" where
  "giou_grad_aabox a1 a2 grad acc =
     (let ai = intersect_aabox a1 a2; am = merge_aabox a1 a2;
          area_i = area_aabox ai;
          area_m = area_aabox am;
          area_u = area_aabox a1 + area_aabox a2 - area_i;
          gi0 = grad / area_u;
          gu = grad * (1 / area_m - area_i / (area_u * area_u));
          gi = gi0 - gu;
          gm = grad * (- area_u / (area_m * area_m));
          grad_a1 = area_grad_aabox a1 gu (fst acc);
          grad_a2 = area_grad_aabox a2 gu (snd acc);
          grad_ai = area_grad_aabox ai gi zero_aabox;
          grad_am = area_grad_aabox am gm zero_aabox
      in merge_grad_aabox a1 a2 grad_am
           (intersect_grad_aabox a1 a2 grad_ai (grad_a1, grad_a2)))"

definition giou_grad ::
  "Poly2 \<Rightarrow> Poly2 \<Rightarrow> real \<Rightarrow> nat \<Rightarrow> nat \<Rightarrow> flag list \<Rightarrow> flag list \<Rightarrow> Poly2 \<times> Poly2
     \<Rightarrow> (Poly2 \<times> Poly2) option" where
  "giou_grad p1 p2 grad nx nm xflags mflags acc =
     (case construct_intersection p1 p2 xflags nx of
        Inl e \<Rightarrow> None
      | Inr pint \<Rightarrow>
     (case construct_merged_hull p1 p2 mflags nm of
        Inl e \<Rightarrow> None
      | Inr pm \<Rightarrow>
          (let area_i = area pint;
               area_m = area pm;
               area_u = area p1 + area p2 - area_i;
               gi0 = grad / area_u;
               gu = grad * (1 / area_m - area_i / (area_u * area_u));
               gi = gi0 - gu;
               gm = grad * (- area_u / (area_m * area_m));
               cap = length (vertices p1) + length (vertices p2)
           in do {
             s1 \<leftarrow> on1 (area_grad p1 gu) acc;
             s2 \<leftarrow> on2 (area_grad p2 gu) s1;
             grad_pi \<leftarrow> area_grad pint gi (zero_poly cap);
             grad_pm \<leftarrow> area_grad pm gm (zero_poly cap);
             s3 \<leftarrow> intersect_grad p1 p2 grad_pi xflags s2;
             merge_grad p1 p2 grad_pm mflags s3
           })))"

definition diou_grad_aabox ::
  "AABox2 \<Rightarrow> AABox2 \<Rightarrow> real \<Rightarrow> AABox2 \<times> AABox2 \<Rightarrow> AABox2 \<times> AABox2" where
  "diou_grad_aabox a1 a2 grad acc =
     (let c1 = centroid_aabox a1; c2 = centroid_aabox a2;
          cd = distance c1 c2;
          am = merge_aabox a1 a2;
          maxd = dimension_aabox am;
          grad_iou = grad;
          grad_cd = - grad * 2 * cd / (maxd * maxd);
          grad_maxd = grad * 2 * (cd * cd) / (maxd * maxd * maxd);
          s1 = iou_grad_aabox a1 a2 grad_iou acc;
          gc = distance_grad c1 c2 grad_cd (zero_point, zero_point);
          grad_a1 = centroid_grad_aabox a1 (fst gc) (fst s1);
          grad_a2 = centroid_grad_aabox a2 (snd gc) (snd s1);
          grad_am = dimension_grad_aabox am grad_maxd zero_aabox
      in merge_grad_aabox a1 a2 grad_am (grad_a1, grad_a2))"

text \<open>
  The last three lines of \<open>diou_grad\<close> for polygons: \<open>grad_v1\<close> and \<open>grad_v2\<close> are
  references to the cells named by the flags \<open>dflag1\<close> and \<open>dflag2\<close>, each in
  \<open>grad_p1\<close> or in \<open>grad_p2\<close>, and \<open>distance_grad\<close> updates them in the order of its
  four statements (\<open>distance_grad_flags\<close>).
\<close>

definition on_vertices ::
  "(Point2 list \<times> Point2 list \<Rightarrow> (Point2 list \<times> Point2 list) option)
     \<Rightarrow> Poly2 \<times> Poly2 \<Rightarrow> (Poly2 \<times> Poly2) option" where
  "on_vertices F acc =
     map_option (\<lambda>gs. ((fst acc)\<lparr>vertices := fst gs\<rparr>, (snd acc)\<lparr>vertices := snd gs\<rparr>))
       (F (vertices (fst acc), vertices (snd acc)))"

definition at_flag ::
  "flag \<Rightarrow> (nat \<Rightarrow> Point2 list \<Rightarrow> Point2 list option)
     \<Rightarrow> Point2 list \<times> Point2 list \<Rightarrow> (Point2 list \<times> Point2 list) option" where
  "at_flag f upd s = (if flag_is_p1 f then on1 (upd (flag_index f)) s else on2 (upd (flag_index f)) s)"

definition distance_grad_flags ::
  "Point2 \<Rightarrow> Point2 \<Rightarrow> real \<Rightarrow> flag \<Rightarrow> flag \<Rightarrow> Point2 list \<times> Point2 list
     \<Rightarrow> (Point2 list \<times> Point2 list) option" where
  "distance_grad_flags p1 p2 grad f1 f2 s =
     (let dx = px p1 - px p2; dy = py p1 - py p2; d = hypot dx dy in do {
        s1 \<leftarrow> at_flag f1 (\<lambda>i. add_vx i (grad * dx / d)) s;
        s2 \<leftarrow> at_flag f2 (\<lambda>i. sub_vx i (grad * dx / d)) s1;
        s3 \<leftarrow> at_flag f1 (\<lambda>i. add_vy i (grad * dy / d)) s2;
        at_flag f2 (\<lambda>i. sub_vy i (grad * dy / d)) s3
      })"

definition flag_vertex :: "Poly2 \<Rightarrow> Poly2 \<Rightarrow> flag \<Rightarrow> Point2" where
  "flag_vertex p1 p2 f =
     (if flag_is_p1 f then vertices p1 ! flag_index f else vertices p2 ! flag_index f)"

definition diou_grad ::
  "Poly2 \<Rightarrow> Poly2 \<Rightarrow> real \<Rightarrow> nat \<Rightarrow> flag \<Rightarrow> flag \<Rightarrow> flag list \<Rightarrow> Poly2 \<times> Poly2
     \<Rightarrow> (Poly2 \<times> Poly2) option" where
  "diou_grad p1 p2 grad nx dflag1 dflag2 xflags acc =
     (case centroid p1 of
        Inl e \<Rightarrow> None
      | Inr c1 \<Rightarrow>
     (case centroid p2 of
        Inl e \<Rightarrow> None
      | Inr c2 \<Rightarrow>
          (let cd = distance c1 c2;
               v1 = flag_vertex p1 p2 dflag1;
               v2 = flag_vertex p1 p2 dflag2;
               maxd = distance v1 v2;
               grad_iou = grad;
               grad_cd = - grad * 2 * cd / (maxd * maxd);
               grad_maxd = grad * 2 * (cd * cd) / (maxd * maxd * maxd);
               gc = distance_grad c1 c2 grad_cd (zero_point, zero_point)
           in do {
             s1 \<leftarrow> iou_grad p1 p2 grad_iou nx xflags acc;
             s2 \<leftarrow> on1 (centroid_grad p1 (fst gc)) s1;
             s3 \<leftarrow> on2 (centroid_grad p2 (snd gc)) s2;
             on_vertices (distance_grad_flags v1 v2 grad_maxd dflag1 dflag2) s3
           })))"

section \<open>Updates that accumulate\<close>

text \<open>
  Adding two arrays of gradient cells cell by cell, and the zero array of the
  capacity of a given one (\<open>Poly2::zero()\<close>); the same for a pair of arrays.
\<close>

definition vadd :: "Point2 list \<Rightarrow> Point2 list \<Rightarrow> Point2 list" where
  "vadd xs ys = map2 point_add xs ys"

definition vzero_of :: "Point2 list \<Rightarrow> Point2 list" where
  "vzero_of gs = replicate (length gs) zero_point"

definition padd ::
  "Point2 list \<times> Point2 list \<Rightarrow> Point2 list \<times> Point2 list \<Rightarrow> Point2 list \<times> Point2 list" where
  "padd s c = (vadd (fst s) (fst c), vadd (snd s) (snd c))"

definition pzero_of :: "Point2 list \<times> Point2 list \<Rightarrow> Point2 list \<times> Point2 list" where
  "pzero_of s = (vzero_of (fst s), vzero_of (snd s))"

text \<open>
  An update \<open>F\<close> of a state accumulates when running it on \<open>s\<close> gives \<open>s\<close> plus what
  it gives on the zero state of the shape of \<open>s\<close>, and fails on the one when it fails
  on the other; it also keeps the shape. \<open>shaped\<close> collects what is needed of the
  addition for such updates to compose.
\<close>

definition gen_accum :: "('s \<Rightarrow> 's \<Rightarrow> 's) \<Rightarrow> ('s \<Rightarrow> 's) \<Rightarrow> ('s \<Rightarrow> 's option) \<Rightarrow> bool" where
  "gen_accum pl zero_of F \<longleftrightarrow>
     (\<forall>s. F s = map_option (pl s) (F (zero_of s))) \<and>
     (\<forall>s r. F s = Some r \<longrightarrow> zero_of r = zero_of s)"

definition shaped :: "('s \<Rightarrow> 's \<Rightarrow> 's) \<Rightarrow> ('s \<Rightarrow> 's) \<Rightarrow> bool" where
  "shaped pl zero_of \<longleftrightarrow>
     (\<forall>a b c. zero_of b = zero_of a \<longrightarrow> zero_of c = zero_of a \<longrightarrow>
        pl (pl a b) c = pl a (pl b c)) \<and>
     (\<forall>a b. zero_of b = zero_of a \<longrightarrow> zero_of (pl a b) = zero_of a) \<and>
     (\<forall>a. zero_of (zero_of a) = zero_of a) \<and>
     (\<forall>a. pl a (zero_of a) = a)"

lemma gen_accumD1: "gen_accum pl zero_of F \<Longrightarrow> F s = map_option (pl s) (F (zero_of s))"
  unfolding gen_accum_def by blast

lemma gen_accumD2: "gen_accum pl zero_of F \<Longrightarrow> F s = Some r \<Longrightarrow> zero_of r = zero_of s"
  unfolding gen_accum_def by blast

lemma shaped_assoc:
  "shaped pl zero_of \<Longrightarrow> zero_of b = zero_of a \<Longrightarrow> zero_of c = zero_of a \<Longrightarrow>
     pl (pl a b) c = pl a (pl b c)"
  unfolding shaped_def by blast

lemma shaped_zero_pl:
  "shaped pl zero_of \<Longrightarrow> zero_of b = zero_of a \<Longrightarrow> zero_of (pl a b) = zero_of a"
  unfolding shaped_def by blast

lemma shaped_zero_idem: "shaped pl zero_of \<Longrightarrow> zero_of (zero_of a) = zero_of a"
  unfolding shaped_def by blast

lemma shaped_pl_zero: "shaped pl zero_of \<Longrightarrow> pl a (zero_of a) = a"
  unfolding shaped_def by blast

lemma gen_accum_Some:
  assumes "shaped pl zero_of"
  shows "gen_accum pl zero_of Some"
  unfolding gen_accum_def
  by (simp add: shaped_pl_zero [OF assms])

lemma gen_accum_None: "gen_accum pl zero_of (\<lambda>s. None)"
  by (simp add: gen_accum_def)

lemma gen_accum_bind:
  assumes sh: "shaped pl zero_of"
    and f: "gen_accum pl zero_of F" and g: "gen_accum pl zero_of G"
  shows "gen_accum pl zero_of (\<lambda>s. Option.bind (F s) G)"
  unfolding gen_accum_def
proof (intro conjI allI impI)
  fix s r assume "Option.bind (F s) G = Some r"
  then obtain m where m: "F s = Some m" "G m = Some r" by (auto simp: bind_eq_Some_conv)
  then show "zero_of r = zero_of s"
    using gen_accumD2 [OF f m(1)] gen_accumD2 [OF g m(2)] by simp
next
  fix s
  let ?z = "zero_of s"
  have zz: "zero_of ?z = ?z" by (rule shaped_zero_idem [OF sh])
  show "Option.bind (F s) G = map_option (pl s) (Option.bind (F ?z) G)"
  proof (cases "F ?z")
    case None
    then have "F s = None" using gen_accumD1 [OF f, of s] by simp
    then show ?thesis using None by simp
  next
    case (Some f0)
    have f0z: "zero_of f0 = ?z" using gen_accumD2 [OF f Some] zz by simp
    have fs: "F s = Some (pl s f0)" using gen_accumD1 [OF f, of s] Some by simp
    have zs: "zero_of (pl s f0) = ?z" by (rule shaped_zero_pl [OF sh f0z])
    show ?thesis
    proof (cases "G ?z")
      case None
      then have "G (pl s f0) = None" "G f0 = None"
        using gen_accumD1 [OF g, of "pl s f0"] gen_accumD1 [OF g, of f0] zs f0z by simp_all
      then show ?thesis using fs Some by simp
    next
      case (Some g0)
      have g0z: "zero_of g0 = ?z" using gen_accumD2 [OF g Some] zz by simp
      have a: "G (pl s f0) = Some (pl (pl s f0) g0)"
        using gen_accumD1 [OF g, of "pl s f0"] zs Some by simp
      have b: "G f0 = Some (pl f0 g0)"
        using gen_accumD1 [OF g, of f0] f0z Some by simp
      have "pl (pl s f0) g0 = pl s (pl f0 g0)"
        by (rule shaped_assoc [OF sh f0z g0z])
      then show ?thesis using fs a b \<open>F ?z = Some f0\<close> by simp
    qed
  qed
qed

lemma gen_accum_fold_opt:
  assumes sh: "shaped pl zero_of"
    and "\<And>x. x \<in> set xs \<Longrightarrow> gen_accum pl zero_of (F x)"
  shows "gen_accum pl zero_of (fold_opt F xs)"
  using assms(2)
proof (induction xs)
  case Nil
  have "fold_opt F [] = Some" by (rule ext) simp
  then show ?case using gen_accum_Some [OF sh] by simp
next
  case (Cons x xs)
  have "fold_opt F (x # xs) = (\<lambda>s. Option.bind (F x s) (fold_opt F xs))" by (rule ext) simp
  moreover have "gen_accum pl zero_of (\<lambda>s. Option.bind (F x s) (fold_opt F xs))"
    by (rule gen_accum_bind [OF sh]) (use Cons in auto)
  ultimately show ?case by simp
qed

lemma gen_accum_cond_do:
  assumes "shaped pl zero_of" "gen_accum pl zero_of F"
  shows "gen_accum pl zero_of (cond_do c F)"
proof (cases c)
  case True
  then have "cond_do c F = F" by (rule_tac ext) (simp add: cond_do_def)
  then show ?thesis using assms by simp
next
  case False
  then have "cond_do c F = Some" by (rule_tac ext) (simp add: cond_do_def)
  then show ?thesis using gen_accum_Some [OF assms(1)] by simp
qed

subsection \<open>Arrays of gradient cells\<close>

lemma length_vadd: "length (vadd xs ys) = min (length xs) (length ys)"
  by (simp add: vadd_def)

lemma nth_vadd:
  "i < length xs \<Longrightarrow> i < length ys \<Longrightarrow> vadd xs ys ! i = point_add (xs ! i) (ys ! i)"
  by (simp add: vadd_def)

lemma point_add_assoc: "point_add (point_add a b) c = point_add a (point_add b c)"
  by (simp add: point_add_def)

lemma point_add_zero: "point_add a zero_point = a"
  by (simp add: point_add_def zero_point_def)

lemma vzero_of_eq_iff: "vzero_of b = vzero_of a \<longleftrightarrow> length b = length a"
  by (auto simp: vzero_of_def replicate_eq_replicate)

lemma length_vzero_of: "length (vzero_of a) = length a"
  by (simp add: vzero_of_def)

lemma vadd_assoc: "vadd (vadd a b) c = vadd a (vadd b c)"
  by (rule nth_equalityI) (auto simp: length_vadd nth_vadd point_add_assoc)

lemma vadd_vzero: "vadd a (vzero_of a) = a"
  by (rule nth_equalityI) (auto simp: length_vadd nth_vadd vzero_of_def point_add_zero)

lemma shaped_vadd: "shaped vadd vzero_of"
  unfolding shaped_def
  by (auto simp: vzero_of_eq_iff length_vadd length_vzero_of vadd_assoc vadd_vzero)

lemma shaped_padd: "shaped padd pzero_of"
  unfolding shaped_def
  by (auto simp: padd_def pzero_of_def vzero_of_eq_iff length_vadd length_vzero_of
      vadd_assoc vadd_vzero)

lemma gen_accum_add_v: "gen_accum vadd vzero_of (add_v i q)"
  unfolding gen_accum_def
proof (intro conjI allI impI)
  fix s r assume "add_v i q s = Some r"
  then show "vzero_of r = vzero_of s"
    by (auto simp: add_v_def vzero_of_eq_iff split: if_splits)
next
  fix s
  show "add_v i q s = map_option (vadd s) (add_v i q (vzero_of s))"
  proof (cases "i < length s")
    case False
    then show ?thesis by (simp add: add_v_def length_vzero_of)
  next
    case True
    have "s[i := point_add (s ! i) q]
        = vadd s ((vzero_of s)[i := point_add (vzero_of s ! i) q])"
    proof (rule nth_equalityI)
      show "length (s[i := point_add (s ! i) q])
          = length (vadd s ((vzero_of s)[i := point_add (vzero_of s ! i) q]))"
        by (simp add: length_vadd length_vzero_of)
    next
      fix k assume "k < length (s[i := point_add (s ! i) q])"
      then have k: "k < length s" by simp
      show "s[i := point_add (s ! i) q] ! k
          = vadd s ((vzero_of s)[i := point_add (vzero_of s ! i) q]) ! k"
        using k True
        by (cases "k = i")
           (simp_all add: nth_vadd length_vzero_of vzero_of_def point_add_def zero_point_def)
    qed
    then show ?thesis using True by (simp add: add_v_def length_vzero_of)
  qed
qed

lemma Point2_update_px: "(q :: Point2)\<lparr>px := a\<rparr> = \<lparr>px = a, py = py q\<rparr>"
  by (cases q) simp

lemma Point2_update_py: "(q :: Point2)\<lparr>py := a\<rparr> = \<lparr>px = px q, py = a\<rparr>"
  by (cases q) simp

lemma add_vx_as_add_v: "add_vx i d = add_v i \<lparr>px = d, py = 0\<rparr>"
  by (rule ext) (simp add: add_vx_def add_v_def point_add_def Point2_update_px Point2_update_py)

lemma add_vy_as_add_v: "add_vy i d = add_v i \<lparr>px = 0, py = d\<rparr>"
  by (rule ext) (simp add: add_vy_def add_v_def point_add_def Point2_update_px Point2_update_py)

lemma sub_vx_as_add_v: "sub_vx i d = add_v i \<lparr>px = - d, py = 0\<rparr>"
  by (rule ext) (simp add: sub_vx_def add_v_def point_add_def Point2_update_px Point2_update_py)

lemma sub_vy_as_add_v: "sub_vy i d = add_v i \<lparr>px = 0, py = - d\<rparr>"
  by (rule ext) (simp add: sub_vy_def add_v_def point_add_def Point2_update_px Point2_update_py)

lemma gen_accum_cells:
  "gen_accum vadd vzero_of (add_vx i d)" "gen_accum vadd vzero_of (add_vy i d)"
  "gen_accum vadd vzero_of (sub_vx i d)" "gen_accum vadd vzero_of (sub_vy i d)"
  by (simp_all add: add_vx_as_add_v add_vy_as_add_v sub_vx_as_add_v sub_vy_as_add_v
      gen_accum_add_v)

lemma gen_accum_on1:
  assumes "gen_accum vadd vzero_of F"
  shows "gen_accum padd pzero_of (on1 F)"
  unfolding gen_accum_def
proof (intro conjI allI impI)
  fix s r :: "Point2 list \<times> Point2 list"
  assume "on1 F s = Some r"
  then obtain g where "F (fst s) = Some g" "r = (g, snd s)" by (auto simp: on1_def)
  then show "pzero_of r = pzero_of s"
    using gen_accumD2 [OF assms, of "fst s" g] by (simp add: pzero_of_def)
next
  fix s :: "Point2 list \<times> Point2 list"
  show "on1 F s = map_option (padd s) (on1 F (pzero_of s))"
    using gen_accumD1 [OF assms, of "fst s"]
    by (cases "F (vzero_of (fst s))")
       (simp_all add: on1_def pzero_of_def padd_def vadd_vzero)
qed

lemma gen_accum_on2:
  assumes "gen_accum vadd vzero_of F"
  shows "gen_accum padd pzero_of (on2 F)"
  unfolding gen_accum_def
proof (intro conjI allI impI)
  fix s r :: "Point2 list \<times> Point2 list"
  assume "on2 F s = Some r"
  then obtain g where "F (snd s) = Some g" "r = (fst s, g)" by (auto simp: on2_def)
  then show "pzero_of r = pzero_of s"
    using gen_accumD2 [OF assms, of "snd s" g] by (simp add: pzero_of_def)
next
  fix s :: "Point2 list \<times> Point2 list"
  show "on2 F s = map_option (padd s) (on2 F (pzero_of s))"
    using gen_accumD1 [OF assms, of "snd s"]
    by (cases "F (vzero_of (snd s))")
       (simp_all add: on2_def pzero_of_def padd_def vadd_vzero)
qed

lemmas list_bind = gen_accum_bind [OF shaped_vadd]
lemmas pair_bind = gen_accum_bind [OF shaped_padd]
lemmas list_fold = gen_accum_fold_opt [OF shaped_vadd]
lemmas pair_fold = gen_accum_fold_opt [OF shaped_padd]

subsection \<open>The loop bodies of the adjoints\<close>

lemma accum_area_grad_step: "gen_accum vadd vzero_of (area_grad_step vs h i)"
  unfolding area_grad_step_def [abs_def]
  by (intro list_bind gen_accum_cells)

lemma accum_aabox2_from_poly2_grad_step:
  "gen_accum vadd vzero_of (aabox2_from_poly2_grad_step m grad i)"
  unfolding aabox2_from_poly2_grad_step_def [abs_def]
  by (intro list_bind gen_accum_cond_do [OF shaped_vadd] gen_accum_cells)

lemma accum_centroid_grad_step: "gen_accum vadd vzero_of (centroid_grad_step p grad i)"
  unfolding centroid_grad_step_def [abs_def]
  by (intro list_bind gen_accum_cells)

lemma accum_segment2_from_pp_grad_at: "gen_accum vadd vzero_of (segment2_from_pp_grad_at grad i j)"
  unfolding segment2_from_pp_grad_at_def [abs_def]
  by (intro list_bind gen_accum_cells)

lemma accum_distance_grad_at: "gen_accum vadd vzero_of (distance_grad_at p1 p2 grad i j)"
  unfolding distance_grad_at_def [abs_def] Let_def
  by (intro list_bind gen_accum_cells)

lemma accum_line2_from_pp_grad_at: "gen_accum vadd vzero_of (line2_from_pp_grad_at p1 p2 grad i j)"
  unfolding line2_from_pp_grad_at_def [abs_def]
  by (intro list_bind gen_accum_cells)

lemma accum_at_flag:
  assumes "\<And>i. gen_accum vadd vzero_of (upd i)"
  shows "gen_accum padd pzero_of (at_flag f upd)"
proof (cases "flag_is_p1 f")
  case True
  then have "at_flag f upd = on1 (upd (flag_index f))" by (rule_tac ext) (simp add: at_flag_def)
  then show ?thesis using gen_accum_on1 [OF assms] by simp
next
  case False
  then have "at_flag f upd = on2 (upd (flag_index f))" by (rule_tac ext) (simp add: at_flag_def)
  then show ?thesis using gen_accum_on2 [OF assms] by simp
qed

lemma accum_distance_grad_flags: "gen_accum padd pzero_of (distance_grad_flags p1 p2 grad f1 f2)"
  unfolding distance_grad_flags_def [abs_def] Let_def
  by (intro pair_bind accum_at_flag gen_accum_cells)

lemma accum_merge_grad_step: "gen_accum padd pzero_of (merge_grad_step grad mflags i)"
proof (cases "flag_is_p1 (mflags ! i)")
  case True
  then have "merge_grad_step grad mflags i = on1 (add_v (flag_index (mflags ! i)) (vertices grad ! i))"
    by (rule_tac ext) (simp add: merge_grad_step_def)
  then show ?thesis using gen_accum_on1 [OF gen_accum_add_v] by simp
next
  case False
  then have "merge_grad_step grad mflags i = on2 (add_v (flag_index (mflags ! i)) (vertices grad ! i))"
    by (rule_tac ext) (simp add: merge_grad_step_def)
  then show ?thesis using gen_accum_on2 [OF gen_accum_add_v] by simp
qed

lemma accum_intersect_grad_step: "gen_accum padd pzero_of (intersect_grad_step p1 p2 grad xflags i)"
proof -
  define fi where "fi = xflags ! i"
  define fp where "fp = xflags ! mod_dec i (nvertices grad)"
  consider (same1) "(fi AND 1) = (fp AND 1)" "flag_is_p1 fi"
    | (same2) "(fi AND 1) = (fp AND 1)" "\<not> flag_is_p1 fi"
    | (cross1) "(fi AND 1) \<noteq> (fp AND 1)" "flag_is_p1 fi"
    | (cross2) "(fi AND 1) \<noteq> (fp AND 1)" "\<not> flag_is_p1 fi"
    by blast
  then show ?thesis
  proof cases
    case same1
    then have "intersect_grad_step p1 p2 grad xflags i
        = on1 (add_v (flag_index fi) (vertices grad ! i))"
      by (rule_tac ext) (simp add: intersect_grad_step_def Let_def fi_def fp_def)
    then show ?thesis using gen_accum_on1 [OF gen_accum_add_v] by simp
  next
    case same2
    then have "intersect_grad_step p1 p2 grad xflags i
        = on2 (add_v (flag_index fi) (vertices grad ! i))"
      by (rule_tac ext) (simp add: intersect_grad_step_def Let_def fi_def fp_def)
    then show ?thesis using gen_accum_on2 [OF gen_accum_add_v] by simp
  next
    case cross1
    obtain gn gp epni epnj eppi eppj where
      c: "crossing_grad p1 p2 (flag_index fi) (flag_index fp) (vertices grad ! i)
            = ((gn, gp), (epni, epnj), (eppi, eppj))"
      by (metis prod.exhaust)
    have "intersect_grad_step p1 p2 grad xflags i
        = (\<lambda>s. Option.bind
              (on1 (line2_from_pp_grad_at (vertices p1 ! epni) (vertices p1 ! epnj) gn epni epnj) s)
              (on2 (line2_from_pp_grad_at (vertices p2 ! eppi) (vertices p2 ! eppj) gp eppi eppj)))"
      using cross1 c
      by (rule_tac ext) (simp add: intersect_grad_step_def Let_def fi_def fp_def)
    then show ?thesis
      by (simp only:) (intro pair_bind gen_accum_on1 gen_accum_on2 accum_line2_from_pp_grad_at)
  next
    case cross2
    obtain gn gp epni epnj eppi eppj where
      c: "crossing_grad p2 p1 (flag_index fi) (flag_index fp) (vertices grad ! i)
            = ((gn, gp), (epni, epnj), (eppi, eppj))"
      by (metis prod.exhaust)
    have "intersect_grad_step p1 p2 grad xflags i
        = (\<lambda>s. Option.bind
              (on2 (line2_from_pp_grad_at (vertices p2 ! epni) (vertices p2 ! epnj) gn epni epnj) s)
              (on1 (line2_from_pp_grad_at (vertices p1 ! eppi) (vertices p1 ! eppj) gp eppi eppj)))"
      using cross2 c
      by (rule_tac ext) (simp add: intersect_grad_step_def Let_def fi_def fp_def)
    then show ?thesis
      by (simp only:) (intro pair_bind gen_accum_on1 gen_accum_on2 accum_line2_from_pp_grad_at)
  qed
qed

subsection \<open>Accumulators\<close>

text \<open>
  The property of claim C8 for one adjoint \<open>f\<close>, with \<open>pl\<close> the addition of its
  accumulators, coordinate by coordinate: the accumulators after the call are the
  accumulators before it plus what the same call leaves in zero accumulators.
  \<open>accumulates_opt\<close> is the same for an adjoint that can fail: it fails on the given
  accumulators exactly when it fails on the zero ones.
\<close>

definition accumulates :: "('s \<Rightarrow> 's \<Rightarrow> 's) \<Rightarrow> 's \<Rightarrow> ('s \<Rightarrow> 's) \<Rightarrow> bool" where
  "accumulates pl z f \<longleftrightarrow> (\<forall>acc. f acc = pl acc (f z))"

definition accumulates_opt :: "('s \<Rightarrow> 's \<Rightarrow> 's) \<Rightarrow> ('s \<Rightarrow> 's) \<Rightarrow> ('s \<Rightarrow> 's option) \<Rightarrow> bool" where
  "accumulates_opt pl zero_of f \<longleftrightarrow> (\<forall>acc. f acc = map_option (pl acc) (f (zero_of acc)))"

text \<open>
  The additions. The gradient coordinates of a polygon are the coordinates of its
  cells; \<open>nvertices\<close> is a count, not a gradient, and several adjoints assign it: the
  sum \<open>poly_add acc c\<close> has the count of \<open>c\<close>, so that the count after a call is
  required to be the one the call leaves in the zero accumulator. The zero
  accumulator \<open>poly_zero acc\<close> is \<open>acc\<close> after \<open>zero()\<close>.
\<close>

definition pair_add :: "('a \<Rightarrow> 'a \<Rightarrow> 'a) \<Rightarrow> ('b \<Rightarrow> 'b \<Rightarrow> 'b) \<Rightarrow> 'a \<times> 'b \<Rightarrow> 'a \<times> 'b \<Rightarrow> 'a \<times> 'b" where
  "pair_add pa pb acc c = (pa (fst acc) (fst c), pb (snd acc) (snd c))"

definition line_add :: "Line2 \<Rightarrow> Line2 \<Rightarrow> Line2" where
  "line_add acc c = \<lparr>la = la acc + la c, lb = lb acc + lb c, lc = lc acc + lc c\<rparr>"

definition segment_add :: "Segment2 \<Rightarrow> Segment2 \<Rightarrow> Segment2" where
  "segment_add acc c =
     \<lparr>sx1 = sx1 acc + sx1 c, sy1 = sy1 acc + sy1 c, sx2 = sx2 acc + sx2 c, sy2 = sy2 acc + sy2 c\<rparr>"

definition aabox_add :: "AABox2 \<Rightarrow> AABox2 \<Rightarrow> AABox2" where
  "aabox_add acc c =
     \<lparr>min_x = min_x acc + min_x c, max_x = max_x acc + max_x c,
      min_y = min_y acc + min_y c, max_y = max_y acc + max_y c\<rparr>"

definition poly_add :: "Poly2 \<Rightarrow> Poly2 \<Rightarrow> Poly2" where
  "poly_add acc c = c\<lparr>vertices := vadd (vertices acc) (vertices c)\<rparr>"

definition poly_zero :: "Poly2 \<Rightarrow> Poly2" where
  "poly_zero acc = acc\<lparr>vertices := vzero_of (vertices acc)\<rparr>"

text \<open>
  An adjoint on polygons is an update of the cells together with a new count;
  \<open>poly_tr\<close> and \<open>pair_tr\<close> say that the update of the cells accumulates.
\<close>

definition with_vertices ::
  "(nat \<Rightarrow> nat) \<Rightarrow> (Point2 list \<Rightarrow> Point2 list option) \<Rightarrow> Poly2 \<Rightarrow> Poly2 option" where
  "with_vertices N F acc =
     map_option (\<lambda>gs. acc\<lparr>vertices := gs, nvertices := N (nvertices acc)\<rparr>) (F (vertices acc))"

definition with_vertices2 ::
  "(nat \<Rightarrow> nat) \<Rightarrow> (nat \<Rightarrow> nat)
     \<Rightarrow> (Point2 list \<times> Point2 list \<Rightarrow> (Point2 list \<times> Point2 list) option)
     \<Rightarrow> Poly2 \<times> Poly2 \<Rightarrow> (Poly2 \<times> Poly2) option" where
  "with_vertices2 N1 N2 F acc =
     map_option (\<lambda>gs. ((fst acc)\<lparr>vertices := fst gs, nvertices := N1 (nvertices (fst acc))\<rparr>,
                       (snd acc)\<lparr>vertices := snd gs, nvertices := N2 (nvertices (snd acc))\<rparr>))
       (F (vertices (fst acc), vertices (snd acc)))"

definition poly_tr :: "(Poly2 \<Rightarrow> Poly2 option) \<Rightarrow> bool" where
  "poly_tr f \<longleftrightarrow> (\<exists>N F. gen_accum vadd vzero_of F \<and> f = with_vertices N F)"

definition pair_tr :: "(Poly2 \<times> Poly2 \<Rightarrow> (Poly2 \<times> Poly2) option) \<Rightarrow> bool" where
  "pair_tr f \<longleftrightarrow> (\<exists>N1 N2 F. gen_accum padd pzero_of F \<and> f = with_vertices2 N1 N2 F)"

lemma poly_trI:
  assumes "gen_accum vadd vzero_of F" "\<And>acc. f acc = with_vertices N F acc"
  shows "poly_tr f"
proof -
  have "f = with_vertices N F" by (rule ext) (rule assms(2))
  then show ?thesis unfolding poly_tr_def using assms(1) by blast
qed

lemma pair_trI:
  assumes "gen_accum padd pzero_of F" "\<And>acc. f acc = with_vertices2 N1 N2 F acc"
  shows "pair_tr f"
proof -
  have "f = with_vertices2 N1 N2 F" by (rule ext) (rule assms(2))
  then show ?thesis unfolding pair_tr_def using assms(1) by blast
qed

lemma poly_tr_final:
  assumes "poly_tr f"
  shows "accumulates_opt poly_add poly_zero f"
proof -
  obtain N F where F: "gen_accum vadd vzero_of F" and f: "f = with_vertices N F"
    using assms unfolding poly_tr_def by blast
  show ?thesis
    unfolding accumulates_opt_def
  proof
    fix acc
    show "f acc = map_option (poly_add acc) (f (poly_zero acc))"
      using gen_accumD1 [OF F, of "vertices acc"]
      by (cases "F (vzero_of (vertices acc))")
         (simp_all add: f with_vertices_def poly_zero_def poly_add_def)
  qed
qed

lemma pair_tr_final:
  assumes "pair_tr f"
  shows "accumulates_opt (pair_add poly_add poly_add) (map_prod poly_zero poly_zero) f"
proof -
  obtain N1 N2 F where F: "gen_accum padd pzero_of F" and f: "f = with_vertices2 N1 N2 F"
    using assms unfolding pair_tr_def by blast
  show ?thesis
    unfolding accumulates_opt_def
  proof
    fix acc :: "Poly2 \<times> Poly2"
    obtain a1 a2 where acc: "acc = (a1, a2)" by (cases acc)
    show "f acc = map_option (pair_add poly_add poly_add acc) (f (map_prod poly_zero poly_zero acc))"
      using gen_accumD1 [OF F, of "(vertices a1, vertices a2)"]
      by (cases "F (vzero_of (vertices a1), vzero_of (vertices a2))")
         (simp_all add: f acc with_vertices2_def poly_zero_def poly_add_def pair_add_def
            padd_def pzero_of_def)
  qed
qed

lemma pair_tr_bind:
  assumes "pair_tr f" "pair_tr g"
  shows "pair_tr (\<lambda>s. Option.bind (f s) g)"
proof -
  obtain N1 N2 F where F: "gen_accum padd pzero_of F" and f: "f = with_vertices2 N1 N2 F"
    using assms(1) unfolding pair_tr_def by blast
  obtain M1 M2 G where G: "gen_accum padd pzero_of G" and g: "g = with_vertices2 M1 M2 G"
    using assms(2) unfolding pair_tr_def by blast
  show ?thesis
  proof (rule pair_trI)
    show "gen_accum padd pzero_of (\<lambda>v. Option.bind (F v) G)"
      by (rule pair_bind [OF F G])
  next
    fix acc
    show "Option.bind (f acc) g
        = with_vertices2 (\<lambda>n. M1 (N1 n)) (\<lambda>n. M2 (N2 n)) (\<lambda>v. Option.bind (F v) G) acc"
      by (cases "F (vertices (fst acc), vertices (snd acc))")
         (simp_all add: f g with_vertices2_def)
  qed
qed

lemma pair_tr_on1:
  assumes "poly_tr f"
  shows "pair_tr (on1 f)"
proof -
  obtain N F where F: "gen_accum vadd vzero_of F" and f: "f = with_vertices N F"
    using assms unfolding poly_tr_def by blast
  show ?thesis
  proof (rule pair_trI)
    show "gen_accum padd pzero_of (on1 F)" by (rule gen_accum_on1 [OF F])
  next
    fix acc :: "Poly2 \<times> Poly2"
    show "on1 f acc = with_vertices2 N (\<lambda>n. n) (on1 F) acc"
      by (cases "F (vertices (fst acc))")
         (simp_all add: f on1_def with_vertices_def with_vertices2_def)
  qed
qed

lemma pair_tr_on2:
  assumes "poly_tr f"
  shows "pair_tr (on2 f)"
proof -
  obtain N F where F: "gen_accum vadd vzero_of F" and f: "f = with_vertices N F"
    using assms unfolding poly_tr_def by blast
  show ?thesis
  proof (rule pair_trI)
    show "gen_accum padd pzero_of (on2 F)" by (rule gen_accum_on2 [OF F])
  next
    fix acc :: "Poly2 \<times> Poly2"
    show "on2 f acc = with_vertices2 (\<lambda>n. n) N (on2 F) acc"
      by (cases "F (vertices (snd acc))")
         (simp_all add: f on2_def with_vertices_def with_vertices2_def)
  qed
qed

lemma pair_tr_None: "pair_tr (\<lambda>s. None)"
  by (rule pair_trI [OF gen_accum_None, of _ "\<lambda>n. n" "\<lambda>n. n"]) (simp add: with_vertices2_def)

lemma pair_tr_const_bind:
  assumes "\<And>x. pair_tr (g x)"
  shows "pair_tr (\<lambda>s. Option.bind K (\<lambda>x. g x s))"
proof (cases K)
  case None
  then show ?thesis using pair_tr_None by simp
next
  case (Some x)
  then have "(\<lambda>s. Option.bind K (\<lambda>x. g x s)) = g x" by simp
  then show ?thesis using assms by simp
qed

lemma pair_tr_on_vertices:
  assumes "gen_accum padd pzero_of F"
  shows "pair_tr (on_vertices F)"
  by (rule pair_trI [OF assms, of _ "\<lambda>n. n" "\<lambda>n. n"]) (simp add: with_vertices2_def on_vertices_def)

lemma pair_tr_set_counts:
  assumes "gen_accum padd pzero_of F"
  shows "pair_tr (\<lambda>acc. map_option (set_counts p1 p2 acc) (F (vertices (fst acc), vertices (snd acc))))"
  by (rule pair_trI [OF assms, of _ "\<lambda>n. nvertices p1" "\<lambda>n. nvertices p2"])
     (simp add: with_vertices2_def set_counts_def [abs_def])

subsection \<open>Adjoints on scalars, points, lines, segments and boxes\<close>

definition real_add :: "real \<Rightarrow> real \<Rightarrow> real" where
  "real_add acc c = acc + c"

lemma accum_max_grad: "accumulates (pair_add real_add real_add) (0, 0) (max_grad a b g)"
  by (simp add: accumulates_def pair_add_def real_add_def max_grad_def)

lemma accum_min_grad: "accumulates (pair_add real_add real_add) (0, 0) (min_grad a b g)"
  by (simp add: accumulates_def pair_add_def real_add_def min_grad_def)

lemma accum_line2_from_xyxy_grad:
  "accumulates (pair_add real_add (pair_add real_add (pair_add real_add real_add))) (0, 0, 0, 0)
     (line2_from_xyxy_grad x1 y1 x2 y2 gl)"
  by (simp add: accumulates_def pair_add_def real_add_def line2_from_xyxy_grad_def split: prod.splits)

lemma accum_line2_from_pp_grad:
  "accumulates (pair_add point_add point_add) (zero_point, zero_point) (line2_from_pp_grad q1 q2 gl)"
  by (simp add: accumulates_def pair_add_def point_add_def zero_point_def line2_from_pp_grad_def
        line2_from_xyxy_grad_def)

lemma accum_segment2_from_pp_grad:
  "accumulates (pair_add point_add point_add) (zero_point, zero_point) (segment2_from_pp_grad q1 q2 gs)"
  by (simp add: accumulates_def pair_add_def point_add_def zero_point_def segment2_from_pp_grad_def)

lemma accum_line2_from_segment2_grad:
  "accumulates segment_add zero_segment (line2_from_segment2_grad s gl)"
  by (simp add: accumulates_def segment_add_def zero_segment_def line2_from_segment2_grad_def
        line2_from_xyxy_grad_def)

lemma accum_poly2_from_aabox2_grad:
  "accumulates_opt aabox_add (\<lambda>acc. zero_aabox) (poly2_from_aabox2_grad a gp)"
  by (simp add: accumulates_opt_def aabox_add_def zero_aabox_def poly2_from_aabox2_grad_def)

lemma accum_poly2_from_xywhr_grad:
  "accumulates_opt
     (pair_add real_add (pair_add real_add (pair_add real_add (pair_add real_add real_add))))
     (\<lambda>acc. (0, 0, 0, 0, 0)) (poly2_from_xywhr_grad x y w h r gp)"
  by (simp add: accumulates_opt_def pair_add_def real_add_def poly2_from_xywhr_grad_def Let_def
        split: prod.splits)

lemma accum_distance_grad:
  "accumulates (pair_add point_add point_add) (zero_point, zero_point) (distance_grad q1 q2 g)"
  by (simp add: accumulates_def pair_add_def point_add_def zero_point_def distance_grad_def Let_def)

lemma accum_distance_grad_line:
  "accumulates (pair_add line_add point_add) (zero_line, zero_point) (distance_grad_line l q g)"
  by (simp add: accumulates_def pair_add_def point_add_def line_add_def zero_point_def
        zero_line_def distance_grad_line_def Let_def)

lemma accum_distance_grad_segment:
  "accumulates (pair_add segment_add point_add) (zero_segment, zero_point)
     (distance_grad_segment s q g)"
  by (simp add: accumulates_def pair_add_def point_add_def segment_add_def zero_point_def
        zero_segment_def zero_line_def distance_grad_segment_def distance_grad_def
        distance_grad_line_def line2_from_segment2_grad_def line2_from_xyxy_grad_def Let_def)

lemma accum_area_grad_aabox: "accumulates aabox_add zero_aabox (area_grad_aabox a g)"
  by (simp add: accumulates_def aabox_add_def zero_aabox_def area_grad_aabox_def Let_def)

lemma accum_dimension_grad_aabox: "accumulates aabox_add zero_aabox (dimension_grad_aabox a g)"
  by (simp add: accumulates_def aabox_add_def zero_aabox_def dimension_grad_aabox_def Let_def)

lemma accum_center_grad_aabox: "accumulates aabox_add zero_aabox (center_grad_aabox a gq)"
  by (simp add: accumulates_def aabox_add_def zero_aabox_def center_grad_aabox_def)

lemma accum_centroid_grad_aabox: "accumulates aabox_add zero_aabox (centroid_grad_aabox a gq)"
  by (simp add: accumulates_def aabox_add_def zero_aabox_def centroid_grad_aabox_def
        center_grad_aabox_def)

lemma accum_intersect_grad_lines:
  "accumulates (pair_add line_add line_add) (zero_line, zero_line) (intersect_grad_lines l1 l2 gq)"
  by (simp add: accumulates_def pair_add_def line_add_def zero_line_def intersect_grad_lines_def
        Let_def)

lemma max_grad_fst: "fst (max_grad a b g (x, y)) = x + fst (max_grad a b g (0, 0))"
  by (simp add: max_grad_def)
lemma max_grad_snd: "snd (max_grad a b g (x, y)) = y + snd (max_grad a b g (0, 0))"
  by (simp add: max_grad_def)
lemma min_grad_fst: "fst (min_grad a b g (x, y)) = x + fst (min_grad a b g (0, 0))"
  by (simp add: min_grad_def)
lemma min_grad_snd: "snd (min_grad a b g (x, y)) = y + snd (min_grad a b g (0, 0))"
  by (simp add: min_grad_def)

lemma accum_intersect_grad_aabox:
  "accumulates (pair_add aabox_add aabox_add) (zero_aabox, zero_aabox)
     (intersect_grad_aabox a1 a2 ga)"
  unfolding accumulates_def
proof
  fix acc :: "AABox2 \<times> AABox2"
  show "intersect_grad_aabox a1 a2 ga acc
      = pair_add aabox_add aabox_add acc (intersect_grad_aabox a1 a2 ga (zero_aabox, zero_aabox))"
    unfolding intersect_grad_aabox_def Let_def pair_add_def aabox_add_def zero_aabox_def
    by (simp add: max_grad_fst [of _ _ _ "min_x (fst acc)"] max_grad_snd [of _ _ _ _ "min_x (snd acc)"]
          max_grad_fst [of _ _ _ "min_y (fst acc)"] max_grad_snd [of _ _ _ _ "min_y (snd acc)"]
          min_grad_fst [of _ _ _ "max_x (fst acc)"] min_grad_snd [of _ _ _ _ "max_x (snd acc)"]
          min_grad_fst [of _ _ _ "max_y (fst acc)"] min_grad_snd [of _ _ _ _ "max_y (snd acc)"])
qed

lemma accum_merge_grad_aabox:
  "accumulates (pair_add aabox_add aabox_add) (zero_aabox, zero_aabox)
     (merge_grad_aabox a1 a2 ga)"
  unfolding accumulates_def
proof
  fix acc :: "AABox2 \<times> AABox2"
  show "merge_grad_aabox a1 a2 ga acc
      = pair_add aabox_add aabox_add acc (merge_grad_aabox a1 a2 ga (zero_aabox, zero_aabox))"
    unfolding merge_grad_aabox_def Let_def pair_add_def aabox_add_def zero_aabox_def
    by (simp add: min_grad_fst [of _ _ _ "min_x (fst acc)"] min_grad_snd [of _ _ _ _ "min_x (snd acc)"]
          min_grad_fst [of _ _ _ "min_y (fst acc)"] min_grad_snd [of _ _ _ _ "min_y (snd acc)"]
          max_grad_fst [of _ _ _ "max_x (fst acc)"] max_grad_snd [of _ _ _ _ "max_x (snd acc)"]
          max_grad_fst [of _ _ _ "max_y (fst acc)"] max_grad_snd [of _ _ _ _ "max_y (snd acc)"])
qed

lemma accumulates_comp:
  assumes assoc: "\<And>a b c. pl (pl a b) c = pl a (pl b c)"
    and f: "accumulates pl z f" and g: "accumulates pl z g"
  shows "accumulates pl z (g \<circ> f)"
  unfolding accumulates_def
proof
  fix acc
  have 1: "g (f acc) = pl (f acc) (g z)" using g unfolding accumulates_def by blast
  have 2: "f acc = pl acc (f z)" using f unfolding accumulates_def by blast
  have 3: "g (f z) = pl (f z) (g z)" using g unfolding accumulates_def by blast
  have "(g \<circ> f) acc = pl (f acc) (g z)" using 1 by simp
  also have "pl (f acc) (g z) = pl (pl acc (f z)) (g z)" by (subst 2) (rule refl)
  also have "\<dots> = pl acc (pl (f z) (g z))" by (rule assoc)
  also have "\<dots> = pl acc (g (f z))" by (subst 3) (rule refl)
  finally show "(g \<circ> f) acc = pl acc ((g \<circ> f) z)" by simp
qed

lemma accumulates_map_prod:
  assumes f: "accumulates pa za f" and g: "accumulates pb zb g"
  shows "accumulates (pair_add pa pb) (za, zb) (map_prod f g)"
  unfolding accumulates_def
proof
  fix acc :: "'a \<times> 'b"
  have "f (fst acc) = pa (fst acc) (f za)" using f unfolding accumulates_def by blast
  moreover have "g (snd acc) = pb (snd acc) (g zb)" using g unfolding accumulates_def by blast
  ultimately show "map_prod f g acc = pair_add pa pb acc (map_prod f g (za, zb))"
    by (cases acc) (simp add: pair_add_def)
qed

lemma aabox_pair_assoc:
  "pair_add aabox_add aabox_add (pair_add aabox_add aabox_add a b) c
     = pair_add aabox_add aabox_add a (pair_add aabox_add aabox_add b c)"
  by (simp add: pair_add_def aabox_add_def)

lemmas aabox_comp = accumulates_comp [where pl = "pair_add aabox_add aabox_add", OF aabox_pair_assoc]

lemma map_prod_fst_snd: "(f (fst s), g (snd s)) = map_prod f g s"
  by (cases s) simp

lemma iou_grad_aabox_shape:
  "\<exists>gi gu. iou_grad_aabox a1 a2 g =
     intersect_grad_aabox a1 a2 gi \<circ> map_prod (area_grad_aabox a1 gu) (area_grad_aabox a2 gu)"
  unfolding iou_grad_aabox_def [abs_def] Let_def map_prod_fst_snd
  by (intro exI) (rule ext, simp only: comp_apply)

lemma accum_iou_grad_aabox:
  "accumulates (pair_add aabox_add aabox_add) (zero_aabox, zero_aabox) (iou_grad_aabox a1 a2 g)"
proof -
  obtain gi gu where "iou_grad_aabox a1 a2 g =
     intersect_grad_aabox a1 a2 gi \<circ> map_prod (area_grad_aabox a1 gu) (area_grad_aabox a2 gu)"
    using iou_grad_aabox_shape by blast
  then show ?thesis
    by (simp only:)
       (rule aabox_comp [OF accumulates_map_prod [OF accum_area_grad_aabox accum_area_grad_aabox]
          accum_intersect_grad_aabox])
qed

lemma giou_grad_aabox_shape:
  "\<exists>gi gm gu. giou_grad_aabox a1 a2 g =
     merge_grad_aabox a1 a2 gm \<circ>
       (intersect_grad_aabox a1 a2 gi \<circ> map_prod (area_grad_aabox a1 gu) (area_grad_aabox a2 gu))"
  unfolding giou_grad_aabox_def [abs_def] Let_def map_prod_fst_snd
  by (intro exI) (rule ext, simp only: comp_apply)

lemma accum_giou_grad_aabox:
  "accumulates (pair_add aabox_add aabox_add) (zero_aabox, zero_aabox) (giou_grad_aabox a1 a2 g)"
proof -
  obtain gi gm gu where "giou_grad_aabox a1 a2 g =
     merge_grad_aabox a1 a2 gm \<circ>
       (intersect_grad_aabox a1 a2 gi \<circ> map_prod (area_grad_aabox a1 gu) (area_grad_aabox a2 gu))"
    using giou_grad_aabox_shape by blast
  then show ?thesis
    by (simp only:)
       (rule aabox_comp [OF aabox_comp [OF accumulates_map_prod
            [OF accum_area_grad_aabox accum_area_grad_aabox] accum_intersect_grad_aabox]
          accum_merge_grad_aabox])
qed

lemma diou_grad_aabox_shape:
  "\<exists>gm g1 g2. diou_grad_aabox a1 a2 g =
     merge_grad_aabox a1 a2 gm \<circ>
       (map_prod (centroid_grad_aabox a1 g1) (centroid_grad_aabox a2 g2) \<circ> iou_grad_aabox a1 a2 g)"
  unfolding diou_grad_aabox_def [abs_def] Let_def map_prod_fst_snd
  by (intro exI) (rule ext, simp only: comp_apply)

lemma accum_diou_grad_aabox:
  "accumulates (pair_add aabox_add aabox_add) (zero_aabox, zero_aabox) (diou_grad_aabox a1 a2 g)"
proof -
  obtain gm g1 g2 where "diou_grad_aabox a1 a2 g =
     merge_grad_aabox a1 a2 gm \<circ>
       (map_prod (centroid_grad_aabox a1 g1) (centroid_grad_aabox a2 g2) \<circ> iou_grad_aabox a1 a2 g)"
    using diou_grad_aabox_shape by blast
  then show ?thesis
    by (simp only:)
       (rule aabox_comp [OF aabox_comp [OF accum_iou_grad_aabox accumulates_map_prod
            [OF accum_centroid_grad_aabox accum_centroid_grad_aabox]]
          accum_merge_grad_aabox])
qed

subsection \<open>Adjoints on polygons\<close>

lemma bind_Some_map: "Option.bind m (\<lambda>x. Some (h x)) = map_option h m"
  by (cases m) simp_all

lemma map_option_bind: "map_option h (Option.bind m k) = Option.bind m (\<lambda>x. map_option h (k x))"
  by (cases m) simp_all

lemma poly_tr_area_grad: "poly_tr (area_grad p g)"
proof (cases "nvertices p \<le> 2")
  case True
  show ?thesis
    by (rule poly_trI [OF gen_accum_Some [OF shaped_vadd], of _ "\<lambda>n. n"])
       (simp add: area_grad_def with_vertices_def True)
next
  case False
  let ?n = "nvertices p" and ?vs = "vertices p" and ?h = "g / 2"
  let ?F = "\<lambda>gs. Option.bind (sub_vx 0 (?h * py (?vs ! (?n - 1))) gs)
             (\<lambda>g1. Option.bind (add_vy 0 (?h * px (?vs ! (?n - 1))) g1)
             (\<lambda>g2. Option.bind (add_vx (?n - 1) (?h * py (?vs ! 0)) g2)
             (\<lambda>g3. Option.bind (sub_vy (?n - 1) (?h * px (?vs ! 0)) g3)
                (fold_opt (area_grad_step ?vs ?h) [1..<?n]))))"
  have "gen_accum vadd vzero_of ?F"
    by (intro list_bind gen_accum_cells list_fold accum_area_grad_step)
  then show ?thesis
  proof (rule poly_trI [where N = "\<lambda>m. nvertices p"])
    fix acc
    show "area_grad p g acc = with_vertices (\<lambda>m. nvertices p) ?F acc"
      using False
      by (simp add: area_grad_def with_vertices_def map_option_bind bind_Some_map Let_def)
  qed
qed

lemma poly_tr_aabox2_from_poly2_grad: "poly_tr (aabox2_from_poly2_grad p ga)"
proof (rule poly_trI [where N = "\<lambda>m. nvertices p"])
  show "gen_accum vadd vzero_of
          (fold_opt (aabox2_from_poly2_grad_step (find_minmax p) ga) [0..<nvertices p])"
    by (intro list_fold accum_aabox2_from_poly2_grad_step)
next
  fix acc
  show "aabox2_from_poly2_grad p ga acc
      = with_vertices (\<lambda>m. nvertices p)
          (fold_opt (aabox2_from_poly2_grad_step (find_minmax p) ga) [0..<nvertices p]) acc"
    by (simp add: aabox2_from_poly2_grad_def with_vertices_def)
qed

lemma poly_tr_dimension_grad: "poly_tr (dimension_grad p g flag1 flag2)"
proof (rule poly_trI [where N = "\<lambda>m. m"])
  show "gen_accum vadd vzero_of
          (distance_grad_at (vertices p ! flag1) (vertices p ! flag2) g flag1 flag2)"
    by (rule accum_distance_grad_at)
next
  fix acc
  show "dimension_grad p g flag1 flag2 acc
      = with_vertices (\<lambda>m. m)
          (distance_grad_at (vertices p ! flag1) (vertices p ! flag2) g flag1 flag2) acc"
    by (simp add: dimension_grad_def with_vertices_def)
qed

lemma poly_tr_center_grad: "poly_tr (center_grad p gq)"
  unfolding center_grad_def [abs_def] Let_def by (rule poly_tr_aabox2_from_poly2_grad)

lemma poly_tr_centroid_grad: "poly_tr (centroid_grad p gq)"
proof (rule poly_trI [where N = "\<lambda>m. nvertices p"])
  show "gen_accum vadd vzero_of (fold_opt (centroid_grad_step p gq) [0..<nvertices p])"
    by (intro list_fold accum_centroid_grad_step)
next
  fix acc
  show "centroid_grad p gq acc
      = with_vertices (\<lambda>m. nvertices p) (fold_opt (centroid_grad_step p gq) [0..<nvertices p]) acc"
    by (simp add: centroid_grad_def with_vertices_def)
qed

lemma pair_tr_intersect_grad: "pair_tr (intersect_grad p1 p2 gp xflags)"
  unfolding intersect_grad_def [abs_def]
  by (intro pair_tr_set_counts pair_fold accum_intersect_grad_step)

lemma pair_tr_merge_grad: "pair_tr (merge_grad p1 p2 gp mflags)"
  unfolding merge_grad_def [abs_def]
  by (intro pair_tr_set_counts pair_fold accum_merge_grad_step)

lemma pair_tr_iou_grad: "pair_tr (iou_grad p1 p2 g nx xflags)"
proof (cases "construct_intersection p1 p2 xflags nx")
  case (Inl e)
  then have "iou_grad p1 p2 g nx xflags = (\<lambda>s. None)"
    by (rule_tac ext) (simp add: iou_grad_def)
  then show ?thesis using pair_tr_None by simp
next
  case (Inr pint)
  show ?thesis
    unfolding iou_grad_def [abs_def] Inr sum.case Let_def
    by (intro pair_tr_bind pair_tr_on1 pair_tr_on2 pair_tr_const_bind poly_tr_area_grad
          pair_tr_intersect_grad)
qed

lemma pair_tr_giou_grad: "pair_tr (giou_grad p1 p2 g nx nm xflags mflags)"
proof (cases "construct_intersection p1 p2 xflags nx")
  case (Inl e)
  then have "giou_grad p1 p2 g nx nm xflags mflags = (\<lambda>s. None)"
    by (rule_tac ext) (simp add: giou_grad_def)
  then show ?thesis using pair_tr_None by simp
next
  case pint: (Inr pint)
  show ?thesis
  proof (cases "construct_merged_hull p1 p2 mflags nm")
    case (Inl e)
    then have "giou_grad p1 p2 g nx nm xflags mflags = (\<lambda>s. None)"
      using pint by (rule_tac ext) (simp add: giou_grad_def)
    then show ?thesis using pair_tr_None by simp
  next
    case (Inr pm)
    show ?thesis
      unfolding giou_grad_def [abs_def] pint Inr sum.case Let_def
      by (intro pair_tr_bind pair_tr_on1 pair_tr_on2 pair_tr_const_bind poly_tr_area_grad
            pair_tr_intersect_grad pair_tr_merge_grad)
  qed
qed

lemma pair_tr_diou_grad: "pair_tr (diou_grad p1 p2 g nx dflag1 dflag2 xflags)"
proof (cases "centroid p1")
  case (Inl e)
  then have "diou_grad p1 p2 g nx dflag1 dflag2 xflags = (\<lambda>s. None)"
    by (rule_tac ext) (simp add: diou_grad_def)
  then show ?thesis using pair_tr_None by simp
next
  case c1: (Inr c1)
  show ?thesis
  proof (cases "centroid p2")
    case (Inl e)
    then have "diou_grad p1 p2 g nx dflag1 dflag2 xflags = (\<lambda>s. None)"
      using c1 by (rule_tac ext) (simp add: diou_grad_def)
    then show ?thesis using pair_tr_None by simp
  next
    case (Inr c2)
    show ?thesis
      unfolding diou_grad_def [abs_def] c1 Inr sum.case Let_def
      by (intro pair_tr_bind pair_tr_on1 pair_tr_on2 pair_tr_iou_grad poly_tr_centroid_grad
            pair_tr_on_vertices accum_distance_grad_flags)
  qed
qed

lemma distance_grad_segment_parts:
  "fst (distance_grad_segment s q g (zero_segment, gq))
     = fst (distance_grad_segment s q g (zero_segment, zero_point))"
  "snd (distance_grad_segment s q g (zero_segment, gq))
     = point_add gq (snd (distance_grad_segment s q g (zero_segment, zero_point)))"
proof -
  have "distance_grad_segment s q g (zero_segment, gq)
      = pair_add segment_add point_add (zero_segment, gq)
          (distance_grad_segment s q g (zero_segment, zero_point))"
    using accum_distance_grad_segment [of s q g] unfolding accumulates_def by blast
  then show
    "fst (distance_grad_segment s q g (zero_segment, gq))
       = fst (distance_grad_segment s q g (zero_segment, zero_point))"
    "snd (distance_grad_segment s q g (zero_segment, gq))
       = point_add gq (snd (distance_grad_segment s q g (zero_segment, zero_point)))"
    by (simp_all add: pair_add_def segment_add_def zero_segment_def)
qed

lemma accum_distance_grad_poly:
  "accumulates_opt (pair_add poly_add point_add) (map_prod poly_zero (\<lambda>gq. zero_point))
     (distance_grad_poly p q g idx)"
  unfolding accumulates_opt_def
proof
  fix acc :: "Poly2 \<times> Point2"
  obtain gp gq where acc: "acc = (gp, gq)" by (cases acc)
  let ?nidx = "mod_inc idx (nvertices p)"
  let ?s = "segment2_from_pp (vertices p ! idx) (vertices p ! ?nidx)"
  let ?r0 = "distance_grad_segment ?s q (- g) (zero_segment, zero_point)"
  let ?F = "segment2_from_pp_grad_at (fst ?r0) idx ?nidx"
  have F: "?F (vertices gp) = map_option (vadd (vertices gp)) (?F (vzero_of (vertices gp)))"
    by (rule gen_accumD1 [OF accum_segment2_from_pp_grad_at])
  show "distance_grad_poly p q g idx acc
      = map_option (pair_add poly_add point_add acc)
          (distance_grad_poly p q g idx (map_prod poly_zero (\<lambda>gq. zero_point) acc))"
    using F
    by (cases "?F (vzero_of (vertices gp))")
       (simp_all add: acc distance_grad_poly_def Let_def
          distance_grad_segment_parts [of ?s q "- g" gq]
          pair_add_def poly_add_def poly_zero_def)
qed

section \<open>Claim C8\<close>

text \<open>
  A concrete call of \<open>merge_grad\<close>: an upstream gradient of two vertices, the first
  from vertex 0 of \<open>p1\<close> (flag 1), the second from vertex 1 of \<open>p2\<close> (flag 2), and two
  accumulators that are not zero.
\<close>

definition grad_hull :: Poly2 where
  "grad_hull = make_poly 8 [\<lparr>px = 10, py = 20\<rparr>, \<lparr>px = 30, py = 40\<rparr>]"

definition grad_acc1 :: Poly2 where
  "grad_acc1 = \<lparr>vertices = [\<lparr>px = 1, py = 2\<rparr>, \<lparr>px = 3, py = 4\<rparr>, \<lparr>px = 0, py = 0\<rparr>, \<lparr>px = 0, py = 0\<rparr>],
                nvertices = 0\<rparr>"

definition grad_acc2 :: Poly2 where
  "grad_acc2 = \<lparr>vertices = [\<lparr>px = 5, py = 6\<rparr>, \<lparr>px = 7, py = 8\<rparr>, \<lparr>px = 0, py = 0\<rparr>, \<lparr>px = 0, py = 0\<rparr>],
                nvertices = 0\<rparr>"

lemma flag_is_p1_1: "flag_is_p1 1" by (simp add: flag_is_p1_def)
lemma flag_is_p1_2: "\<not> flag_is_p1 2" by (simp add: flag_is_p1_def)
lemma flag_index_1: "flag_index 1 = 0" by (simp add: flag_index_def)
lemma flag_index_2: "flag_index 2 = 1" by (simp add: flag_index_def)

lemma upt_0_2: "[0..<2] = [0, 1]" by code_simp

text \<open>
  C8: every adjoint (\<open>_grad\<close>) function only accumulates into its gradient output
  parameters. For every forward input, every upstream gradient and every initial
  content of the accumulators, each gradient coordinate after the call is its value
  before the call plus the contribution the same call deposits into a
  zero-initialised accumulator, and the call fails on the given accumulators exactly
  when it fails on the zero ones; no gradient coordinate is assigned. The theorem
  lists the 32 adjoints of \<open>geometry_grad.hpp\<close> in the order of the source.
\<close>

theorem C8_adjoints_accumulate:
  "accumulates (pair_add real_add real_add) (0, 0) (max_grad u v g) \<and>
   accumulates (pair_add real_add real_add) (0, 0) (min_grad u v g) \<and>
   accumulates (pair_add real_add (pair_add real_add (pair_add real_add real_add))) (0, 0, 0, 0)
     (line2_from_xyxy_grad x1 y1 x2 y2 gl) \<and>
   accumulates (pair_add point_add point_add) (zero_point, zero_point)
     (line2_from_pp_grad q1 q2 gl) \<and>
   accumulates (pair_add point_add point_add) (zero_point, zero_point)
     (segment2_from_pp_grad q1 q2 gs) \<and>
   accumulates segment_add zero_segment (line2_from_segment2_grad s gl) \<and>
   accumulates_opt aabox_add (\<lambda>acc. zero_aabox) (poly2_from_aabox2_grad a gp) \<and>
   accumulates_opt poly_add poly_zero (aabox2_from_poly2_grad p ga) \<and>
   accumulates_opt
     (pair_add real_add (pair_add real_add (pair_add real_add (pair_add real_add real_add))))
     (\<lambda>acc. (0, 0, 0, 0, 0)) (poly2_from_xywhr_grad x y w h r gp) \<and>
   accumulates (pair_add point_add point_add) (zero_point, zero_point) (distance_grad q1 q2 g) \<and>
   accumulates (pair_add line_add point_add) (zero_line, zero_point) (distance_grad_line l q g) \<and>
   accumulates (pair_add segment_add point_add) (zero_segment, zero_point)
     (distance_grad_segment s q g) \<and>
   accumulates_opt (pair_add poly_add point_add) (map_prod poly_zero (\<lambda>gq. zero_point))
     (distance_grad_poly p q g idx) \<and>
   accumulates aabox_add zero_aabox (area_grad_aabox a g) \<and>
   accumulates_opt poly_add poly_zero (area_grad p g) \<and>
   accumulates aabox_add zero_aabox (dimension_grad_aabox a g) \<and>
   accumulates_opt poly_add poly_zero (dimension_grad p g flag1 flag2) \<and>
   accumulates aabox_add zero_aabox (center_grad_aabox a gq) \<and>
   accumulates_opt poly_add poly_zero (center_grad p gq) \<and>
   accumulates aabox_add zero_aabox (centroid_grad_aabox a gq) \<and>
   accumulates_opt poly_add poly_zero (centroid_grad p gq) \<and>
   accumulates (pair_add line_add line_add) (zero_line, zero_line)
     (intersect_grad_lines l1 l2 gq) \<and>
   accumulates_opt (pair_add poly_add poly_add) (map_prod poly_zero poly_zero)
     (intersect_grad p1 p2 gp xflags) \<and>
   accumulates (pair_add aabox_add aabox_add) (zero_aabox, zero_aabox)
     (intersect_grad_aabox a1 a2 ga) \<and>
   accumulates_opt (pair_add poly_add poly_add) (map_prod poly_zero poly_zero)
     (merge_grad p1 p2 gp mflags) \<and>
   accumulates (pair_add aabox_add aabox_add) (zero_aabox, zero_aabox)
     (merge_grad_aabox a1 a2 ga) \<and>
   accumulates (pair_add aabox_add aabox_add) (zero_aabox, zero_aabox)
     (iou_grad_aabox a1 a2 g) \<and>
   accumulates_opt (pair_add poly_add poly_add) (map_prod poly_zero poly_zero)
     (iou_grad p1 p2 g nx xflags) \<and>
   accumulates (pair_add aabox_add aabox_add) (zero_aabox, zero_aabox)
     (giou_grad_aabox a1 a2 g) \<and>
   accumulates_opt (pair_add poly_add poly_add) (map_prod poly_zero poly_zero)
     (giou_grad p1 p2 g nx nm xflags mflags) \<and>
   accumulates (pair_add aabox_add aabox_add) (zero_aabox, zero_aabox)
     (diou_grad_aabox a1 a2 g) \<and>
   accumulates_opt (pair_add poly_add poly_add) (map_prod poly_zero poly_zero)
     (diou_grad p1 p2 g nx dflag1 dflag2 xflags)"
  by (intro conjI
        accum_max_grad accum_min_grad accum_line2_from_xyxy_grad accum_line2_from_pp_grad
        accum_segment2_from_pp_grad accum_line2_from_segment2_grad accum_poly2_from_aabox2_grad
        poly_tr_final [OF poly_tr_aabox2_from_poly2_grad] accum_poly2_from_xywhr_grad
        accum_distance_grad accum_distance_grad_line accum_distance_grad_segment
        accum_distance_grad_poly accum_area_grad_aabox poly_tr_final [OF poly_tr_area_grad]
        accum_dimension_grad_aabox poly_tr_final [OF poly_tr_dimension_grad]
        accum_center_grad_aabox poly_tr_final [OF poly_tr_center_grad]
        accum_centroid_grad_aabox poly_tr_final [OF poly_tr_centroid_grad]
        accum_intersect_grad_lines pair_tr_final [OF pair_tr_intersect_grad]
        accum_intersect_grad_aabox pair_tr_final [OF pair_tr_merge_grad]
        accum_merge_grad_aabox accum_iou_grad_aabox pair_tr_final [OF pair_tr_iou_grad]
        accum_giou_grad_aabox pair_tr_final [OF pair_tr_giou_grad]
        accum_diou_grad_aabox pair_tr_final [OF pair_tr_diou_grad])

text \<open>
  The concrete call, computed through the theorem from its run on the zero
  accumulators: \<open>(10, 20)\<close> is added to cell 0 of the first accumulator and
  \<open>(30, 40)\<close> to cell 1 of the second.
\<close>

theorem C8_adjoints_accumulate_witness:
  "merge_grad unit_square unit_square grad_hull [1, 2] (grad_acc1, grad_acc2)
     = Some (\<lparr>vertices = [\<lparr>px = 11, py = 22\<rparr>, \<lparr>px = 3, py = 4\<rparr>, \<lparr>px = 0, py = 0\<rparr>, \<lparr>px = 0, py = 0\<rparr>],
               nvertices = 4\<rparr>,
             \<lparr>vertices = [\<lparr>px = 5, py = 6\<rparr>, \<lparr>px = 37, py = 48\<rparr>, \<lparr>px = 0, py = 0\<rparr>, \<lparr>px = 0, py = 0\<rparr>],
               nvertices = 4\<rparr>)"
proof -
  have "accumulates_opt (pair_add poly_add poly_add) (map_prod poly_zero poly_zero)
          (merge_grad unit_square unit_square grad_hull [1, 2])"
    by (rule C8_adjoints_accumulate
         [THEN conjunct2, THEN conjunct2, THEN conjunct2, THEN conjunct2, THEN conjunct2,
          THEN conjunct2, THEN conjunct2, THEN conjunct2, THEN conjunct2, THEN conjunct2,
          THEN conjunct2, THEN conjunct2, THEN conjunct2, THEN conjunct2, THEN conjunct2,
          THEN conjunct2, THEN conjunct2, THEN conjunct2, THEN conjunct2, THEN conjunct2,
          THEN conjunct2, THEN conjunct2, THEN conjunct2, THEN conjunct2, THEN conjunct1])
  then have "merge_grad unit_square unit_square grad_hull [1, 2] (grad_acc1, grad_acc2)
      = map_option (pair_add poly_add poly_add (grad_acc1, grad_acc2))
          (merge_grad unit_square unit_square grad_hull [1, 2]
             (map_prod poly_zero poly_zero (grad_acc1, grad_acc2)))"
    unfolding accumulates_opt_def by blast
  then show ?thesis
    by (simp add: merge_grad_def merge_grad_step_def on1_def on2_def add_v_def set_counts_def
          poly_zero_def poly_add_def pair_add_def vadd_def vzero_of_def point_add_def
          grad_hull_def grad_acc1_def grad_acc2_def make_poly_def zero_point_def unit_square_def
          flag_is_p1_1 flag_is_p1_2 flag_index_1 flag_index_2 upt_0_2)
qed

end
